(* ===== verification/Prelude.thy ===== *)
theory Prelude
  imports Complex_Main "HOL-Library.Log_Nat" "HOL-Library.Word"
begin

text \<open>
  Shared vocabulary of the development: how a Python call ends (it returns or it
  raises, and in both cases the mutations made so far stay), the exceptions the
  viewer distinguishes, bytes, and the facts about integer powers of two that the
  floating-point model and its clients use.  Nothing here models a line of the
  program by itself; the component theories build on it.
\<close>

section \<open>Fact collections\<close>

named_theorems float_defs \<open>unfolding rules of the binary64 model\<close>
named_theorems float_eval \<open>rules that evaluate the binary64 operations on numerals\<close>
named_theorems viewer_defs \<open>unfolding rules of the handlers of PDFViewer\<close>
named_theorems frame \<open>fields that an operation leaves unchanged\<close>
named_theorems inv_intros \<open>preservation of the state invariant, one rule per operation\<close>

section \<open>Python calls: exceptions and outcomes\<close>

text \<open>
  The program tells two families of exceptions apart: \<^verbatim>\<open>except Exception as e\<close> in
  \<^verbatim>\<open>open_pdf\<close> catches instances of \<^verbatim>\<open>Exception\<close> and formats \<^verbatim>\<open>str(e)\<close>;
  \<^verbatim>\<open>except SystemExit\<close> in \<^verbatim>\<open>launch_viewer\<close> catches \<^verbatim>\<open>SystemExit\<close>, which is a
  \<^verbatim>\<open>BaseException\<close> but no \<^verbatim>\<open>Exception\<close>.  \<open>Exception msg\<close> stands for any
  instance of \<^verbatim>\<open>Exception\<close> whose \<^verbatim>\<open>str\<close> is \<open>msg\<close>.
\<close>

datatype pyexc = Exception string | SystemExit | KeyboardInterrupt

text \<open>
  A method of the viewer returns \<^verbatim>\<open>None\<close> or raises; the state it has written up to
  that point is kept either way, so a handler is a function
  \<open>state \<Rightarrow> outcome \<times> state\<close>.  A library call that only computes a value is a
  sum \<open>pyexc + 'a\<close>.
\<close>

datatype outcome = Returned | Raised pyexc

type_synonym 'a raising = "pyexc + 'a"
type_synonym byte = "8 word"

fun is_Exception :: "pyexc \<Rightarrow> bool" where
  "is_Exception (Exception msg) = True"
| "is_Exception SystemExit = False"
| "is_Exception KeyboardInterrupt = False"

lemma is_Exception_iff: "is_Exception e \<longleftrightarrow> (\<exists>msg. e = Exception msg)"
  by (cases e) auto

lemma not_is_Exception_iff: "\<not> is_Exception e \<longleftrightarrow> e = SystemExit \<or> e = KeyboardInterrupt"
  by (cases e) auto

section \<open>Integer powers of two over the rationals\<close>

text \<open>
  The binary64 model scales by \<open>2 powi k\<close> for an integer \<open>k\<close>.  The library has the
  operation; these are the forms of its laws that the rounding proofs apply.
\<close>

lemma pow2_pos [simp]: "0 < (2::rat) powi k"
  by simp

lemma pow2_nonneg [simp]: "0 \<le> (2::rat) powi k"
  by simp

lemma pow2_neq_0 [simp]: "(2::rat) powi k \<noteq> 0"
  by simp

lemma pow2_mono: "j \<le> k \<Longrightarrow> (2::rat) powi j \<le> 2 powi k"
  by (rule power_int_increasing) simp_all

lemma pow2_strict_mono: "j < k \<Longrightarrow> (2::rat) powi j < 2 powi k"
  by (rule power_int_strict_increasing) simp_all

lemma pow2_le_iff [simp]: "(2::rat) powi j \<le> 2 powi k \<longleftrightarrow> j \<le> k"
  using pow2_mono [of j k] pow2_strict_mono [of k j] by (auto simp: not_le [symmetric])

lemma pow2_less_iff [simp]: "(2::rat) powi j < 2 powi k \<longleftrightarrow> j < k"
  using pow2_mono [of k j] pow2_strict_mono [of j k] by (auto simp: not_less [symmetric])

lemma pow2_add: "(2::rat) powi (j + k) = 2 powi j * 2 powi k"
  by (simp add: power_int_add)

lemma pow2_diff: "(2::rat) powi (j - k) = 2 powi j / 2 powi k"
  by (simp add: power_int_diff)

lemma pow2_Suc: "(2::rat) powi (k + 1) = 2 * 2 powi k"
  by (simp add: power_int_add)

lemma pow2_of_nat: "0 \<le> k \<Longrightarrow> (2::rat) powi k = of_int (2 ^ nat k)"
  by (simp add: power_int_def)

text \<open>Splitting off a natural power.\<close>

lemma pow2_split: "(2::rat) powi k = of_int (2 ^ n) * 2 powi (k - int n)"
proof -
  have "(2::rat) powi k = 2 powi (int n + (k - int n))" by simp
  also have "\<dots> = 2 powi (int n) * 2 powi (k - int n)" by (rule pow2_add)
  finally show ?thesis by simp
qed

text \<open>Scaling a quotient: dividing by \<open>2 powi (e - p)\<close> multiplies by \<open>2 powi (p - e)\<close>.\<close>

lemma divide_pow2: "x / (2::rat) powi k = x * 2 powi (- k)"
  by (simp add: power_int_minus field_simps)

section \<open>Lists, options and sums\<close>

text \<open>Splitting two lists at the first occurrence of a separator.\<close>

lemma append_Cons_eq_first:
  "x \<notin> set xs \<Longrightarrow> x \<notin> set xs' \<Longrightarrow>
     xs @ x # ys = xs' @ x # ys' \<longleftrightarrow> xs = xs' \<and> ys = ys'"
proof (induction xs arbitrary: xs')
  case Nil
  then show ?case by (cases xs') auto
next
  case (Cons a xs)
  then show ?case by (cases xs') auto
qed

lemma case_option_eq_iff:
  "(case x of None \<Rightarrow> a | Some y \<Rightarrow> f y) = b \<longleftrightarrow> (x = None \<and> a = b) \<or> (\<exists>y. x = Some y \<and> f y = b)"
  by (cases x) auto

lemma case_sum_eq_iff:
  "(case x of Inl e \<Rightarrow> f e | Inr v \<Rightarrow> g v) = b \<longleftrightarrow>
     (\<exists>e. x = Inl e \<and> f e = b) \<or> (\<exists>v. x = Inr v \<and> g v = b)"
  by (cases x) auto

end
