(* ===== verification/PyFloat.thy ===== *)
theory PyFloat
  imports Prelude
begin

text \<open>
  The zoom factor \<^verbatim>\<open>self.zoom\<close> of \<^verbatim>\<open>src/PDFViewer1/pdf_viewer.py\<close> is a Python
  \<^verbatim>\<open>float\<close>, an IEEE 754 binary64 number.  The program applies three operations to
  it: \<^verbatim>\<open>self.zoom *= 1.25\<close> (line 102), \<^verbatim>\<open>self.zoom /= 1.25\<close> (line 107) and the test
  \<^verbatim>\<open>self.zoom > 0.5\<close> (line 106).  This theory gives them their meaning: a float is
  its exact rational value or one of the three special values, an arithmetic
  operation computes the exact rational result and rounds it to the nearest
  binary64 number, ties to the even significand, overflowing to infinity.

  The sign of a zero is not represented: none of the three operations can tell
  \<^verbatim>\<open>-0.0\<close> from \<^verbatim>\<open>0.0\<close> (the divisor is the constant 1.25, and Python raises on a
  zero divisor of either sign).  Everything is executable; closed terms in the
  normal range evaluate by \<open>round_double_normal\<close> and \<open>simp\<close>.
\<close>

section \<open>Values\<close>

datatype pyfloat = Finite rat | PInf | NInf | NaN

section \<open>Rounding to binary64\<close>

text \<open>Nearest integer, ties to even.\<close>

definition round_even :: "rat \<Rightarrow> int" where
  "round_even x =
     (let f = \<lfloor>x\<rfloor>; d = x - of_int f
      in if d < 1 / 2 then f else if 1 / 2 < d then f + 1 else if even f then f else f + 1)"

text \<open>
  The binade of a positive rational: the \<open>k\<close> with \<open>2 powi k \<le> x < 2 powi (k + 1)\<close>,
  found from the bit lengths of numerator and denominator, which fix it up to one.
\<close>

definition ilog2 :: "rat \<Rightarrow> int" where
  "ilog2 x =
     (case quotient_of x of
        (a, b) \<Rightarrow> let k = bitlen a - bitlen b in if 2 powi k \<le> x then k else k - 1)"

text \<open>
  Binary64 has 53 significant bits and exponents from \<open>-1022\<close> to \<open>1023\<close>.  Below
  \<open>2 powi (-1022)\<close> the spacing stays \<open>2 powi (-1074)\<close> (subnormal numbers); a rounded
  magnitude of \<open>2 powi 1024\<close> or more is an overflow.  \<open>round_mag\<close> rounds a
  positive magnitude in its binade, \<open>round_double\<close> adds the sign and the overflow.
\<close>

definition round_mag :: "rat \<Rightarrow> rat" where
  "round_mag a =
     (let e = max (ilog2 a) (- 1022); u = 2 powi (e - 52)
      in of_int (round_even (a / u)) * u)"

definition overflow :: rat where
  "overflow = 2 powi 1024"

definition round_double :: "rat \<Rightarrow> pyfloat" where
  "round_double x =
     (if x = 0 then Finite 0
      else
        let r = round_mag \<bar>x\<bar>
        in if overflow \<le> r then (if 0 < x then PInf else NInf)
           else Finite (if 0 < x then r else - r))"

text \<open>The rationals that are binary64 numbers.\<close>

definition is_double :: "rat \<Rightarrow> bool" where
  "is_double x \<longleftrightarrow>
     x = 0 \<or>
     (\<bar>x\<bar> < overflow \<and>
      (let q = \<bar>x\<bar> / 2 powi (max (ilog2 \<bar>x\<bar>) (- 1022) - 52) in of_int \<lfloor>q\<rfloor> = q))"

fun is_float :: "pyfloat \<Rightarrow> bool" where
  "is_float (Finite x) = is_double x"
| "is_float PInf = True"
| "is_float NInf = True"
| "is_float NaN = True"

section \<open>The operations of Python's float\<close>

fun fsgn :: "pyfloat \<Rightarrow> int" where
  "fsgn (Finite a) = (if a < 0 then - 1 else if a = 0 then 0 else 1)"
| "fsgn PInf = 1"
| "fsgn NInf = - 1"
| "fsgn NaN = 0"

definition signed_inf :: "int \<Rightarrow> pyfloat" where
  "signed_inf s = (if 0 < s then PInf else if s < 0 then NInf else NaN)"

text \<open>\<^verbatim>\<open>x * y\<close>: never raises; an overflow is an infinity, \<open>0 * inf\<close> is NaN.\<close>

fun fmul :: "pyfloat \<Rightarrow> pyfloat \<Rightarrow> pyfloat" where
  "fmul (Finite a) (Finite b) = round_double (a * b)"
| "fmul NaN y = NaN"
| "fmul x NaN = NaN"
| "fmul x y = signed_inf (fsgn x * fsgn y)"

text \<open>The quotient for a divisor that is not zero; \<open>inf / inf\<close> is NaN.\<close>

fun fdiv :: "pyfloat \<Rightarrow> pyfloat \<Rightarrow> pyfloat" where
  "fdiv (Finite a) (Finite b) = round_double (a / b)"
| "fdiv NaN y = NaN"
| "fdiv x NaN = NaN"
| "fdiv (Finite a) y = Finite 0"
| "fdiv x (Finite b) = signed_inf (fsgn x * (if b < 0 then - 1 else 1))"
| "fdiv x y = NaN"

text \<open>\<^verbatim>\<open>x / y\<close>: Python raises \<^verbatim>\<open>ZeroDivisionError\<close> on a zero divisor, whatever \<open>x\<close> is.\<close>

definition py_truediv :: "pyfloat \<Rightarrow> pyfloat \<Rightarrow> pyfloat raising" where
  "py_truediv x y =
     (if y = Finite 0 then Inl (Exception ''float division by zero'') else Inr (fdiv x y))"

text \<open>\<^verbatim>\<open>x > y\<close>: false whenever an operand is NaN.\<close>

fun fgt :: "pyfloat \<Rightarrow> pyfloat \<Rightarrow> bool" where
  "fgt (Finite a) (Finite b) \<longleftrightarrow> b < a"
| "fgt NaN y \<longleftrightarrow> False"
| "fgt x NaN \<longleftrightarrow> False"
| "fgt PInf y \<longleftrightarrow> y \<noteq> PInf"
| "fgt x NInf \<longleftrightarrow> x \<noteq> NInf"
| "fgt x y \<longleftrightarrow> False"

text \<open>
  The order of the extended rationals on the floats that are not NaN, used to state
  bounds and monotonicity; it is no operation of the program.
\<close>

fun fle :: "pyfloat \<Rightarrow> pyfloat \<Rightarrow> bool" where
  "fle (Finite a) (Finite b) \<longleftrightarrow> a \<le> b"
| "fle NaN y \<longleftrightarrow> False"
| "fle x NaN \<longleftrightarrow> False"
| "fle NInf y \<longleftrightarrow> True"
| "fle x PInf \<longleftrightarrow> True"
| "fle x y \<longleftrightarrow> False"

lemmas [float_defs] =
  round_double_def round_mag_def round_even_def is_double_def py_truediv_def signed_inf_def

section \<open>The overflow threshold\<close>

text \<open>
  \<open>overflow\<close> stays folded in the proofs; it is compared with powers of two through
  their exponents.
\<close>

lemma overflow_pos [simp]: "0 < overflow"
  by (simp add: overflow_def)

lemma pow2_less_overflow [simp]: "2 powi k < overflow \<longleftrightarrow> k < 1024"
  unfolding overflow_def by (rule pow2_less_iff)

lemma overflow_le_pow2 [simp]: "overflow \<le> 2 powi k \<longleftrightarrow> 1024 \<le> k"
  unfolding overflow_def by (rule pow2_le_iff)

section \<open>Rounding to the nearest integer\<close>

lemma round_even_of_int [simp]: "round_even (of_int n) = n"
  by (simp add: round_even_def)

lemma round_even_cases:
  "round_even x = \<lfloor>x\<rfloor> \<or> round_even x = \<lfloor>x\<rfloor> + 1"
  by (simp add: round_even_def Let_def)

lemma round_even_ge_floor: "\<lfloor>x\<rfloor> \<le> round_even x"
  using round_even_cases [of x] by linarith

lemma round_even_le_floor1: "round_even x \<le> \<lfloor>x\<rfloor> + 1"
  using round_even_cases [of x] by linarith

lemma round_even_floor_iff:
  "round_even x = \<lfloor>x\<rfloor> \<longleftrightarrow> x - of_int \<lfloor>x\<rfloor> < 1 / 2 \<or> (x - of_int \<lfloor>x\<rfloor> = 1 / 2 \<and> even \<lfloor>x\<rfloor>)"
  by (auto simp: round_even_def Let_def)

text \<open>An integer below (above) the argument is below (above) its rounding.\<close>

lemma round_even_ge_int:
  assumes "of_int n \<le> x"
  shows "n \<le> round_even x"
proof -
  from assms have "n \<le> \<lfloor>x\<rfloor>" by (simp add: le_floor_iff)
  with round_even_ge_floor [of x] show ?thesis by linarith
qed

lemma round_even_le_int:
  assumes "x \<le> of_int n"
  shows "round_even x \<le> n"
proof (cases "x = of_int n")
  case True
  then show ?thesis by simp
next
  case False
  with assms have "x < of_int n" by simp
  then have "\<lfloor>x\<rfloor> < n" by (simp add: floor_less_iff)
  with round_even_le_floor1 [of x] show ?thesis by linarith
qed

lemma round_even_mono:
  assumes "x \<le> y"
  shows "round_even x \<le> round_even y"
proof (cases "\<lfloor>x\<rfloor> = \<lfloor>y\<rfloor>")
  case True
  with assms have "x - of_int \<lfloor>x\<rfloor> \<le> y - of_int \<lfloor>y\<rfloor>" by simp
  with True show ?thesis by (auto simp: round_even_def Let_def)
next
  case False
  with assms have "\<lfloor>x\<rfloor> + 1 \<le> \<lfloor>y\<rfloor>" using floor_mono [OF assms] by linarith
  with round_even_le_floor1 [of x] round_even_ge_floor [of y] show ?thesis by linarith
qed

text \<open>Rounding moves a number by at most one half.\<close>

lemma round_even_error: "\<bar>of_int (round_even x) - x\<bar> \<le> 1 / 2"
proof -
  have "of_int \<lfloor>x\<rfloor> \<le> x" and "x < of_int \<lfloor>x\<rfloor> + 1" by linarith+
  then show ?thesis by (auto simp: round_even_def Let_def abs_le_iff)
qed

lemma round_even_nonneg: "0 \<le> x \<Longrightarrow> 0 \<le> round_even x"
  using round_even_ge_int [of 0 x] by simp

text \<open>
  On a quotient of integers the rounding is integer arithmetic: this is how a closed
  instance is evaluated.
\<close>

lemma round_even_divide:
  assumes "0 < b"
  shows "round_even (of_int a / of_int b) =
     (let q = a div b; r = a mod b
      in if 2 * r < b then q else if b < 2 * r then q + 1 else if even q then q else q + 1)"
proof -
  have f: "\<lfloor>(of_int a :: rat) / of_int b\<rfloor> = a div b" by (rule floor_divide_of_int_eq)
  have "(of_int a :: rat) = of_int (a div b) * of_int b + of_int (a mod b)"
    by (simp flip: of_int_mult of_int_add)
  then have d: "(of_int a :: rat) / of_int b - of_int (a div b) = of_int (a mod b) / of_int b"
    using assms by (simp add: field_simps)
  have "(of_int (a mod b) :: rat) / of_int b < 1 / 2 \<longleftrightarrow>
      (of_int (2 * (a mod b)) :: rat) < of_int b"
    using assms by (simp add: field_simps)
  then have lt: "(of_int (a mod b) :: rat) / of_int b < 1 / 2 \<longleftrightarrow> 2 * (a mod b) < b"
    by (simp only: of_int_less_iff)
  have "1 / 2 < (of_int (a mod b) :: rat) / of_int b \<longleftrightarrow>
      (of_int b :: rat) < of_int (2 * (a mod b))"
    using assms by (simp add: field_simps)
  then have gt: "1 / 2 < (of_int (a mod b) :: rat) / of_int b \<longleftrightarrow> b < 2 * (a mod b)"
    by (simp only: of_int_less_iff)
  show ?thesis by (simp only: round_even_def Let_def f d lt gt)
qed

lemma round_even_numeral [float_eval]:
  "round_even (numeral m / numeral n) =
     (let q = numeral m div numeral n; r = numeral m mod (numeral n :: int)
      in if 2 * r < numeral n then q else if numeral n < 2 * r then q + 1
         else if even q then q else q + 1)"
  by (rule round_even_divide [of "numeral n" "numeral m", OF zero_less_numeral, unfolded of_int_numeral])

lemma round_even_numeral_int [simp]: "round_even (numeral n) = numeral n"
  using round_even_of_int [of "numeral n"] by simp

section \<open>The binade of a positive rational\<close>

lemma bitlen_ge_1: "0 < a \<Longrightarrow> 1 \<le> bitlen a"
  using bitlen_eq_zero_iff [of a] bitlen_nonneg [of a] by linarith

lemma bitlen_pow2_lower:
  assumes a: "0 < a"
  shows "(2::rat) powi (bitlen a - 1) \<le> of_int a"
proof -
  from a have "(2::int) ^ nat (bitlen a - 1) \<le> a" using bitlen_bounds by blast
  then have "(of_int (2 ^ nat (bitlen a - 1)) :: rat) \<le> of_int a" by (simp only: of_int_le_iff)
  with bitlen_ge_1 [OF a] show ?thesis by (simp add: power_int_def)
qed

lemma bitlen_pow2_upper:
  assumes a: "0 < a"
  shows "of_int a < (2::rat) powi (bitlen a)"
proof -
  from a have "a < (2::int) ^ nat (bitlen a)" using bitlen_bounds by blast
  then have "(of_int a :: rat) < of_int (2 ^ nat (bitlen a))" by (simp only: of_int_less_iff)
  with bitlen_nonneg [of a] show ?thesis by (simp add: power_int_def)
qed

lemma ilog2_bounds:
  assumes "0 < x"
  shows ilog2_lower: "2 powi (ilog2 x) \<le> x" and ilog2_upper: "x < 2 powi (ilog2 x + 1)"
proof -
  obtain a b where q: "quotient_of x = (a, b)" by (cases "quotient_of x")
  then have b: "0 < b" by (rule quotient_of_denom_pos)
  from q have x: "x = of_int a / of_int b" by (rule quotient_of_div)
  with assms b have a: "0 < a" by (simp add: zero_less_divide_iff)
  let ?k = "bitlen a - bitlen b"
  have lo: "(2::rat) powi (?k - 1) < x"
  proof -
    have "(2::rat) powi (?k - 1) * of_int b < 2 powi (?k - 1) * 2 powi (bitlen b)"
      using bitlen_pow2_upper [OF b] by simp
    also have "\<dots> = 2 powi (bitlen a - 1)" by (simp add: pow2_add [symmetric])
    also have "\<dots> \<le> of_int a" by (rule bitlen_pow2_lower [OF a])
    finally show ?thesis using b by (simp add: x pos_less_divide_eq)
  qed
  have hi: "x < (2::rat) powi (?k + 1)"
  proof -
    have "(of_int a :: rat) < 2 powi (bitlen a)" by (rule bitlen_pow2_upper [OF a])
    also have "\<dots> = 2 powi (?k + 1) * 2 powi (bitlen b - 1)" by (simp add: pow2_add [symmetric])
    also have "\<dots> \<le> 2 powi (?k + 1) * of_int b"
      using bitlen_pow2_lower [OF b] by simp
    finally show ?thesis using b by (simp add: x pos_divide_less_eq)
  qed
  show "2 powi (ilog2 x) \<le> x" using lo by (simp add: ilog2_def q Let_def)
  show "x < 2 powi (ilog2 x + 1)" using hi by (auto simp add: ilog2_def q Let_def not_le)
qed

text \<open>The bounds determine the binade: this is how a closed instance is evaluated.\<close>

lemma ilog2_eqI:
  assumes "2 powi k \<le> x" and "x < 2 powi (k + 1)"
  shows "ilog2 x = k"
proof -
  from assms(1) have x: "0 < x" by (rule less_le_trans [OF pow2_pos])
  from ilog2_bounds [OF x] assms have "2 powi k < (2::rat) powi (ilog2 x + 1)"
    and "2 powi (ilog2 x) < (2::rat) powi (k + 1)" by linarith+
  then show ?thesis by simp
qed

lemma ilog2_pow2 [simp]: "ilog2 (2 powi k) = k"
  by (rule ilog2_eqI) simp_all

lemma ilog2_1 [simp]: "ilog2 1 = 0"
  using ilog2_pow2 [of 0] by simp

lemma ilog2_mono:
  assumes "0 < x" and "x \<le> y"
  shows "ilog2 x \<le> ilog2 y"
proof -
  from assms have y: "0 < y" by simp
  from ilog2_lower [OF assms(1)] assms(2) ilog2_upper [OF y]
  have "(2::rat) powi (ilog2 x) < 2 powi (ilog2 y + 1)" by linarith
  then show ?thesis by simp
qed

lemma ilog2_ge_iff: "0 < x \<Longrightarrow> k \<le> ilog2 x \<longleftrightarrow> 2 powi k \<le> x"
proof
  assume "0 < x" and "k \<le> ilog2 x"
  then have "(2::rat) powi k \<le> 2 powi (ilog2 x)" by simp
  also have "\<dots> \<le> x" by (rule ilog2_lower) fact
  finally show "2 powi k \<le> x" .
next
  assume "0 < x" and "2 powi k \<le> x"
  then show "k \<le> ilog2 x" using ilog2_mono [of "2 powi k" x] by simp
qed

section \<open>Rounding a positive magnitude\<close>

text \<open>
  The rounded value in closed form, in the normal and in the subnormal range; then the
  two bounds that make rounding monotone: a power of two below the argument stays
  below its rounding, a power of two above it stays above.
\<close>

lemma round_mag_unfold:
  "round_mag a = of_int (round_even (a / 2 powi (max (ilog2 a) (- 1022) - 52))) *
     2 powi (max (ilog2 a) (- 1022) - 52)"
  by (simp add: round_mag_def Let_def)

lemma round_mag_normal:
  assumes "2 powi e \<le> a" and "a < 2 powi (e + 1)" and "- 1022 \<le> e"
  shows "round_mag a = of_int (round_even (a / 2 powi (e - 52))) * 2 powi (e - 52)"
  using assms by (simp add: round_mag_unfold ilog2_eqI [OF assms(1,2)] max_def)

lemma round_mag_subnormal:
  assumes "0 < a" and "a < 2 powi (- 1022)"
  shows "round_mag a = of_int (round_even (a / 2 powi (- 1074))) * 2 powi (- 1074)"
proof -
  have "ilog2 a < - 1022"
    using ilog2_lower [OF assms(1)] assms(2) by (simp add: less_le_trans flip: pow2_less_iff)
  then show ?thesis by (simp add: round_mag_unfold max_def)
qed

lemma round_mag_nonneg: "0 \<le> a \<Longrightarrow> 0 \<le> round_mag a"
  by (simp add: round_mag_unfold round_even_nonneg)

lemma round_mag_lower:
  assumes "2 powi k \<le> a" and "- 1022 \<le> k"
  shows "2 powi k \<le> round_mag a"
proof -
  from assms(1) have a: "0 < a" by (rule less_le_trans [OF pow2_pos])
  let ?e = "ilog2 a"
  from a assms have ke: "k \<le> ?e" by (simp add: ilog2_ge_iff)
  with assms(2) have e: "- 1022 \<le> ?e" by simp
  have "(2::rat) powi 52 \<le> a / 2 powi (?e - 52)"
    using ilog2_lower [OF a] by (simp add: pow2_diff field_simps)
  then have "of_int (2 ^ 52) \<le> a / 2 powi (?e - 52)" by simp
  then have "2 ^ 52 \<le> round_even (a / 2 powi (?e - 52))" by (rule round_even_ge_int)
  then have "(of_int (2 ^ 52) :: rat) \<le> of_int (round_even (a / 2 powi (?e - 52)))"
    by (simp only: of_int_le_iff)
  then have "of_int (2 ^ 52) * 2 powi (?e - 52) \<le> round_mag a"
    using e by (simp add: round_mag_unfold max_def)
  moreover have "(2::rat) powi ?e = of_int (2 ^ 52) * 2 powi (?e - 52)"
    by (simp add: pow2_diff)
  ultimately have "(2::rat) powi ?e \<le> round_mag a" by simp
  with pow2_mono [OF ke] show ?thesis by linarith
qed

lemma round_mag_upper:
  assumes "0 < a" and "a \<le> 2 powi k" and "- 1022 \<le> k"
  shows "round_mag a \<le> 2 powi k"
proof -
  let ?e = "max (ilog2 a) (- 1022)"
  have "ilog2 a \<le> k"
    using ilog2_lower [OF assms(1)] assms(2) by (simp add: order_trans flip: pow2_le_iff)
  with assms(3) have ek: "?e \<le> k" by simp
  then have n: "0 \<le> k - ?e + 52" by simp
  have "a / 2 powi (?e - 52) \<le> 2 powi k / 2 powi (?e - 52)"
    using assms(2) by (simp add: divide_right_mono)
  also have "\<dots> = 2 powi (k - ?e + 52)" by (simp add: pow2_diff [symmetric] algebra_simps)
  also have "\<dots> = of_int (2 ^ nat (k - ?e + 52))" using n by (rule pow2_of_nat)
  finally have "round_even (a / 2 powi (?e - 52)) \<le> 2 ^ nat (k - ?e + 52)"
    by (rule round_even_le_int)
  then have "(of_int (round_even (a / 2 powi (?e - 52))) :: rat) \<le> of_int (2 ^ nat (k - ?e + 52))"
    by (simp only: of_int_le_iff)
  also have "\<dots> = 2 powi (k - ?e + 52)" using n by (simp add: pow2_of_nat)
  finally have "round_mag a \<le> 2 powi (k - ?e + 52) * 2 powi (?e - 52)"
    by (simp add: round_mag_unfold mult_right_mono)
  then show ?thesis by (simp add: pow2_add [symmetric])
qed

lemma round_mag_mono:
  assumes "0 < a" and "a \<le> b"
  shows "round_mag a \<le> round_mag b"
proof -
  from assms have b: "0 < b" by simp
  let ?ea = "max (ilog2 a) (- 1022)" and ?eb = "max (ilog2 b) (- 1022)"
  from ilog2_mono [OF assms] have le: "?ea \<le> ?eb" by simp
  show ?thesis
  proof (cases "?ea = ?eb")
    case True
    have "a / 2 powi (?ea - 52) \<le> b / 2 powi (?ea - 52)"
      using assms(2) by (simp add: divide_right_mono)
    then have "round_even (a / 2 powi (?ea - 52)) \<le> round_even (b / 2 powi (?ea - 52))"
      by (rule round_even_mono)
    then have "(of_int (round_even (a / 2 powi (?ea - 52))) :: rat) \<le>
        of_int (round_even (b / 2 powi (?ea - 52)))" by (simp only: of_int_le_iff)
    then show ?thesis unfolding round_mag_unfold True [symmetric] by (simp add: mult_right_mono)
  next
    case False
    with le have lt: "?ea < ?eb" by (rule order.not_eq_order_implies_strict [rotated])
    then have eb: "?eb = ilog2 b" and eb': "- 1022 \<le> ilog2 b" by arith+
    have "a < 2 powi (ilog2 a + 1)" by (rule ilog2_upper [OF assms(1)])
    also have "\<dots> \<le> 2 powi (ilog2 b)" using lt eb by simp
    finally have "a \<le> 2 powi (ilog2 b)" by simp
    then have "round_mag a \<le> 2 powi (ilog2 b)"
      by (rule round_mag_upper [OF assms(1) _ eb'])
    also have "\<dots> \<le> round_mag b" using ilog2_lower [OF b] eb' by (rule round_mag_lower)
    finally show ?thesis .
  qed
qed

section \<open>A rounded magnitude is a binary64 number\<close>

lemma round_mag_pos_bound:
  assumes "0 < a"
  shows "round_mag a \<le> 2 powi (max (ilog2 a) (- 1022) + 1)"
proof -
  have "a < 2 powi (ilog2 a + 1)" by (rule ilog2_upper [OF assms])
  also have "\<dots> \<le> 2 powi (max (ilog2 a) (- 1022) + 1)" by simp
  finally have "a \<le> 2 powi (max (ilog2 a) (- 1022) + 1)" by simp
  then show ?thesis by (rule round_mag_upper [OF assms]) simp
qed

lemma int_scaled_pow2:
  "0 \<le> j \<Longrightarrow> (of_int \<lfloor>of_int n * (2::rat) powi j\<rfloor> :: rat) = of_int n * 2 powi j"
  by (simp add: pow2_of_nat flip: of_int_mult)

lemma is_double_0 [simp]: "is_double 0"
  by (simp add: is_double_def)

lemma is_double_minus [simp]: "is_double (- x) \<longleftrightarrow> is_double x"
  by (simp add: is_double_def)

lemma is_double_pow2: "- 1022 \<le> k \<Longrightarrow> k < 1024 \<Longrightarrow> is_double (2 powi k)"
  using int_scaled_pow2 [of 52 1] by (simp add: is_double_def max_def pow2_diff)

lemma is_double_round_mag:
  assumes a: "0 < a" and fin: "round_mag a < overflow"
  shows "is_double (round_mag a)"
proof (cases "round_mag a = 0")
  case True
  then show ?thesis by simp
next
  case False
  let ?e = "max (ilog2 a) (- 1022)" and ?r = "round_mag a"
  let ?n = "round_even (a / 2 powi (?e - 52))"
  have r: "?r = of_int ?n * 2 powi (?e - 52)" by (rule round_mag_unfold)
  from False round_mag_nonneg [of a] a have pos: "0 < ?r" by simp
  have up: "?r \<le> 2 powi (?e + 1)" by (rule round_mag_pos_bound [OF a])
  show ?thesis
  proof (cases "?r = 2 powi (?e + 1)")
    case True
    have "- 1022 \<le> ?e + 1" by simp
    moreover have "?e + 1 < 1024" using fin unfolding True by simp
    ultimately show ?thesis unfolding True by (rule is_double_pow2)
  next
    case False
    with up have "?r < 2 powi (?e + 1)" by simp
    with ilog2_lower [OF pos] have "(2::rat) powi (ilog2 ?r) < 2 powi (?e + 1)"
      by (rule le_less_trans)
    then have "max (ilog2 ?r) (- 1022) \<le> ?e" by simp
    then have j: "0 \<le> ?e - max (ilog2 ?r) (- 1022)" by simp
    have "?r / 2 powi (max (ilog2 ?r) (- 1022) - 52) =
        of_int ?n * 2 powi (?e - max (ilog2 ?r) (- 1022))"
      by (simp add: r pow2_diff)
    with int_scaled_pow2 [OF j, of ?n] pos fin show ?thesis
      by (simp add: is_double_def)
  qed
qed

section \<open>Rounding to a float\<close>

text \<open>
  The result of a rounding is a binary64 number or an infinity, never NaN; a binary64
  number rounds to itself; rounding is monotone.  \<open>round_double_normal\<close> evaluates a
  rounding whose binade is known.
\<close>

lemma round_double_0 [simp]: "round_double 0 = Finite 0"
  by (simp add: round_double_def)

lemma round_double_pos:
  "0 < x \<Longrightarrow> round_double x = (if overflow \<le> round_mag x then PInf else Finite (round_mag x))"
  by (simp add: round_double_def Let_def)

lemma round_double_neg:
  "x < 0 \<Longrightarrow>
     round_double x = (if overflow \<le> round_mag (- x) then NInf else Finite (- round_mag (- x)))"
  by (simp add: round_double_def Let_def)

lemma round_double_not_NaN [simp]: "round_double x \<noteq> NaN"
  by (simp add: round_double_def Let_def)

lemma is_float_round_double [simp]: "is_float (round_double x)"
proof (cases x "0::rat" rule: linorder_cases)
  case less
  then show ?thesis by (simp add: round_double_neg is_double_round_mag not_le)
next
  case equal
  then show ?thesis by simp
next
  case greater
  then show ?thesis by (simp add: round_double_pos is_double_round_mag not_le)
qed

lemma round_mag_exact:
  assumes "0 < a" and "is_double a"
  shows "round_mag a = a"
proof -
  let ?u = "(2::rat) powi (max (ilog2 a) (- 1022) - 52)"
  from assms have "of_int \<lfloor>a / ?u\<rfloor> = a / ?u" by (simp add: is_double_def Let_def)
  then have "round_even (a / ?u) = \<lfloor>a / ?u\<rfloor>" by (metis round_even_of_int)
  then have "round_mag a = of_int \<lfloor>a / ?u\<rfloor> * ?u" by (simp add: round_mag_unfold)
  also have "\<dots> = a / ?u * ?u" by (simp only: \<open>of_int \<lfloor>a / ?u\<rfloor> = a / ?u\<close>)
  finally show ?thesis by simp
qed

lemma round_double_exact:
  assumes "is_double x"
  shows "round_double x = Finite x"
proof (cases x "0::rat" rule: linorder_cases)
  case less
  with assms have "is_double (- x)" and "- x < overflow" by (simp_all add: is_double_def)
  with less show ?thesis by (simp add: round_double_neg round_mag_exact)
next
  case equal
  then show ?thesis by simp
next
  case greater
  with assms have "x < overflow" by (simp add: is_double_def)
  with greater assms show ?thesis by (simp add: round_double_pos round_mag_exact)
qed

lemma round_double_mono_pos:
  assumes "0 < x" and "x \<le> y"
  shows "fle (round_double x) (round_double y)"
proof -
  from assms have y: "0 < y" by simp
  from round_mag_mono [OF assms] show ?thesis
    by (simp add: round_double_pos assms(1) y)
qed

lemma round_double_nonneg:
  "0 \<le> x \<Longrightarrow> fle (Finite 0) (round_double x)"
  by (cases "x = 0") (simp_all add: round_double_pos round_mag_nonneg)

lemma round_double_nonpos:
  "x \<le> 0 \<Longrightarrow> fle (round_double x) (Finite 0)"
  by (cases "x = 0") (simp_all add: round_double_neg round_mag_nonneg)

lemma fle_refl_iff [simp]: "fle x x \<longleftrightarrow> x \<noteq> NaN"
  by (cases x) simp_all

lemma fle_trans: "fle x y \<Longrightarrow> fle y z \<Longrightarrow> fle x z"
  by (cases x; cases y; cases z) simp_all

theorem round_double_mono:
  assumes "x \<le> y"
  shows "fle (round_double x) (round_double y)"
proof (cases x "0::rat" rule: linorder_cases)
  case greater
  then show ?thesis using assms by (rule round_double_mono_pos)
next
  case equal
  with assms show ?thesis by (simp add: round_double_nonneg)
next
  case less
  show ?thesis
  proof (cases "y < 0")
    case True
    then have "0 < - y" and "- y \<le> - x" using assms by simp_all
    then have "round_mag (- y) \<le> round_mag (- x)" by (rule round_mag_mono)
    with less True show ?thesis by (simp add: round_double_neg)
  next
    case False
    then have "fle (Finite 0) (round_double y)" by (simp add: round_double_nonneg)
    moreover from less have "fle (round_double x) (Finite 0)" by (simp add: round_double_nonpos)
    ultimately show ?thesis by (rule fle_trans [rotated])
  qed
qed

lemma round_double_normal:
  assumes "2 powi e \<le> x" and "x < 2 powi (e + 1)" and "- 1022 \<le> e" and "e < 1023"
  shows "round_double x = Finite (of_int (round_even (x / 2 powi (e - 52))) * 2 powi (e - 52))"
proof -
  from assms(1) have x: "0 < x" by (rule less_le_trans [OF pow2_pos])
  have "round_mag x \<le> 2 powi (e + 1)"
    using x assms(2,3) by (intro round_mag_upper) simp_all
  also have "\<dots> < overflow" using assms(4) by simp
  finally show ?thesis
    using x by (simp add: round_double_pos round_mag_normal [OF assms(1,2,3)])
qed

section \<open>Multiplication, division and comparison\<close>

lemma fle_Finite_iff: "fle (Finite a) z \<longleftrightarrow> z = PInf \<or> (\<exists>b. z = Finite b \<and> a \<le> b)"
  by (cases z) simp_all

lemma fle_antisym: "fle x y \<Longrightarrow> fle y x \<Longrightarrow> x = y"
  by (cases x; cases y) simp_all

lemma fgt_Finite_iff: "fgt z (Finite b) \<longleftrightarrow> z = PInf \<or> (\<exists>a. z = Finite a \<and> b < a)"
  by (cases z) simp_all

lemma fgt_imp_not_fle: "fgt x y \<Longrightarrow> \<not> fle x y"
  by (cases x; cases y) auto

lemma fgt_imp_fle: "fgt x y \<Longrightarrow> fle y x"
  by (cases x; cases y) auto

lemma is_float_signed_inf [simp]: "is_float (signed_inf s)"
  by (simp add: signed_inf_def)

lemma is_float_fmul [simp]: "is_float (fmul x y)"
  by (cases x; cases y) simp_all

lemma is_float_fdiv [simp]: "is_float (fdiv x y)"
  by (cases x; cases y) simp_all

lemma fmul_PInf_pos [simp]: "0 < b \<Longrightarrow> fmul PInf (Finite b) = PInf"
  by (simp add: signed_inf_def)

lemma fdiv_PInf_pos [simp]: "0 < b \<Longrightarrow> fdiv PInf (Finite b) = PInf"
  by (simp add: signed_inf_def)

lemma py_truediv_nonzero [simp]: "y \<noteq> Finite 0 \<Longrightarrow> py_truediv x y = Inr (fdiv x y)"
  by (simp add: py_truediv_def)

lemma py_truediv_zero [simp]:
  "py_truediv x (Finite 0) = Inl (Exception ''float division by zero'')"
  by (simp add: py_truediv_def)

text \<open>Multiplying a float that is at least a binary64 number \<open>m\<close> by a factor \<open>1 \<le> c\<close>.\<close>

lemma fmul_ge:
  assumes "is_double m" and "0 \<le> m" and "fle (Finite m) z" and "1 \<le> c"
  shows "fle (Finite m) (fmul z (Finite c))"
proof (cases z)
  case (Finite a)
  with assms have "m \<le> a * c" by (simp add: mult_mono [of m a 1 c, simplified] order_trans)
  then have "fle (round_double m) (round_double (a * c))" by (rule round_double_mono)
  with assms(1) Finite show ?thesis by (simp add: round_double_exact)
next
  case PInf
  with assms(4) show ?thesis by (simp add: signed_inf_def)
qed (use assms(3) in simp_all)

section \<open>Closed evaluations\<close>

text \<open>
  The binary64 number nearest to \<open>0.4\<close>, by the rule for a normal binade; the other
  closed roundings of the development are evaluated the same way.
\<close>

lemma round_double_two_fifths:
  "round_double (2 / 5) = Finite (3602879701896397 / 9007199254740992)"
  by (subst round_double_normal [where e = "- 2"]) (simp_all add: float_eval)

lemma fle_PInf [simp]: "fle x PInf \<longleftrightarrow> x \<noteq> NaN"
  by (cases x) simp_all

lemma fle_NInf [simp]: "fle NInf y \<longleftrightarrow> y \<noteq> NaN"
  by (cases y) simp_all

section \<open>Scaling and rounding\<close>

text \<open>
  Scaling by a positive binary64 factor is monotone, for the product and for the
  quotient, on all floats that are not NaN, infinities included: a larger zoom stays
  at least as large after \<^verbatim>\<open>*= 1.25\<close> and after \<^verbatim>\<open>/= 1.25\<close>, whatever the rounding does.
\<close>

theorem scaling_monotone:
  assumes "0 < c" and "fle x y"
  shows "fle (fmul x (Finite c)) (fmul y (Finite c)) \<and>
         fle (fdiv x (Finite c)) (fdiv y (Finite c))"
proof (cases x; cases y)
  fix a b assume "x = Finite a" "y = Finite b"
  with assms show ?thesis
    by (simp add: round_double_mono mult_right_mono divide_right_mono)
qed (use assms in \<open>simp_all add: signed_inf_def\<close>)

theorem scaling_monotone_witness:
  "fle (fmul (Finite 1) (Finite (5 / 4))) (fmul PInf (Finite (5 / 4))) \<and>
   fle (fdiv (Finite 1) (Finite (5 / 4))) (fdiv PInf (Finite (5 / 4)))"
  using scaling_monotone [of "5 / 4" "Finite 1" PInf] by simp

text \<open>
  Rounding is a projection: a finite result of \<open>round_double\<close> is a binary64
  number, and rounding it again returns it unchanged.
\<close>

theorem round_double_idem:
  assumes "round_double x = Finite y"
  shows "is_double y \<and> round_double y = Finite y"
  using assms is_float_round_double [of x] by (simp add: round_double_exact)

theorem round_double_idem_witness:
  "is_double (3602879701896397 / 9007199254740992) \<and>
   round_double (3602879701896397 / 9007199254740992) =
     Finite (3602879701896397 / 9007199254740992)"
  using round_double_idem [of "2 / 5" "3602879701896397 / 9007199254740992"]
  by (simp add: round_double_two_fifths)

end
