(* ===== verification/Fitz.thy ===== *)
theory Fitz
  imports PyFloat
begin

text \<open>
  The viewer decodes and renders pages through PyMuPDF (\<^verbatim>\<open>import fitz\<close>) and shows
  them through Qt.  Neither library is code of the repository, so nothing is said
  here about what they compute.  These types are the interface the program relies
  on, one field for each attribute or method that
  \<^verbatim>\<open>src/PDFViewer1/pdf_viewer.py\<close> uses: a value of the type is what the library
  hands back, a function field is a method that may raise, and every theorem of the
  development holds for all values of these types.

  \<^item> \<^verbatim>\<open>fitz.open(path)\<close> (line 72) is a function from paths to a document or an
    exception (type \<open>fitz\<close>);
  \<^item> of a document the program reads \<^verbatim>\<open>page_count\<close> (line 73), calls
    \<^verbatim>\<open>load_page\<close> (line 83) and tests its truth value (\<^verbatim>\<open>if not self.doc\<close>, lines 81,
    91, 96, 101, 106).  The truth value of an object is decided by its class
    (\<^verbatim>\<open>__bool__\<close>, else \<^verbatim>\<open>__len__\<close>), so it is a field of its own and not assumed
    to be true;
  \<^item> of a page it calls \<^verbatim>\<open>get_pixmap(matrix=mat)\<close> (line 85);
  \<^item> of a pixmap it reads \<^verbatim>\<open>samples\<close>, \<^verbatim>\<open>width\<close>, \<^verbatim>\<open>height\<close> and \<^verbatim>\<open>stride\<close>
    (line 86).
\<close>

section \<open>PyMuPDF\<close>

text \<open>\<^verbatim>\<open>fitz.Matrix(self.zoom, self.zoom)\<close>: a scaling by two floats.\<close>

datatype matrix = Matrix pyfloat pyfloat

record pixmap =
  pix_samples :: "byte list"
  pix_width :: int
  pix_height :: int
  pix_stride :: int

record page =
  get_pixmap :: "matrix \<Rightarrow> pixmap raising"

record document =
  doc_page_count :: int
  doc_truth :: bool
  load_page :: "int \<Rightarrow> page raising"

type_synonym fitz = "string \<Rightarrow> document raising"

section \<open>Qt images\<close>

text \<open>
  \<^verbatim>\<open>QtGui.QImage(pix.samples, pix.width, pix.height, pix.stride,
  QtGui.QImage.Format_RGB888)\<close> and \<^verbatim>\<open>QtGui.QPixmap.fromImage(img)\<close> (lines 86, 87)
  wrap the buffer; they are constructors here.
\<close>

datatype image_format = Format_RGB888

datatype qimage = QImage "byte list" int int int image_format

datatype qpixmap = QPixmap_fromImage qimage

text \<open>
  \<^verbatim>\<open>QMessageBox.critical(self, title, text)\<close> (line 78) shows a modal dialog; the model
  records what was shown.
\<close>

datatype message_box = Critical string string

section \<open>Truth value of the document attribute\<close>

text \<open>
  \<^verbatim>\<open>self.doc\<close> is \<^verbatim>\<open>None\<close> until a document is opened; \<^verbatim>\<open>None\<close> is false, an object
  is as true as its class says.
\<close>

fun truthy :: "document option \<Rightarrow> bool" where
  "truthy None = False"
| "truthy (Some d) = doc_truth d"

section \<open>Sample values\<close>

text \<open>
  Some inhabitants of the interface, for the closed instances of the theorems: a page
  that renders to one black pixel, a page that does not render, a document of \<open>n\<close>
  such pages that is false as a Python value when it has no page and that accepts the
  indices from \<open>- n\<close> to \<open>n - 1\<close>, a document none of whose pages load, and a
  library that knows three paths.  They are instances only; no theorem with a free
  document or library depends on them.
\<close>

definition blank_pixmap :: pixmap where
  "blank_pixmap = \<lparr>pix_samples = [0, 0, 0], pix_width = 1, pix_height = 1, pix_stride = 3\<rparr>"

definition blank_page :: page where
  "blank_page = \<lparr>get_pixmap = (\<lambda>m. Inr blank_pixmap)\<rparr>"

definition broken_page :: page where
  "broken_page = \<lparr>get_pixmap = (\<lambda>m. Inl (Exception ''cannot render page''))\<rparr>"

definition sample_doc :: "int \<Rightarrow> document" where
  "sample_doc n =
     \<lparr>doc_page_count = n, doc_truth = (n \<noteq> 0),
      load_page = (\<lambda>i. if - n \<le> i \<and> i < n then Inr blank_page
                       else Inl (Exception ''page not in document''))\<rparr>"

definition locked_doc :: document where
  "locked_doc =
     \<lparr>doc_page_count = 2, doc_truth = True,
      load_page = (\<lambda>i. Inl (Exception ''document closed or encrypted''))\<rparr>"

definition sample_lib :: fitz where
  "sample_lib path =
     (if path = ''a.pdf'' then Inr (sample_doc 3)
      else if path = ''empty.pdf'' then Inr (sample_doc 0)
      else if path = ''locked.pdf'' then Inr locked_doc
      else Inl (Exception ''no such file''))"

lemmas sample_defs =
  blank_pixmap_def blank_page_def broken_page_def sample_doc_def locked_doc_def sample_lib_def

section \<open>Facts about the truth value\<close>

lemma truthy_iff: "truthy od \<longleftrightarrow> (\<exists>d. od = Some d \<and> doc_truth d)"
  by (cases od) auto

lemma truthy_SomeD: "truthy od \<Longrightarrow> \<exists>d. od = Some d"
  by (cases od) auto

end
