(* ===== verification/PyStr.thy ===== *)
theory PyStr
  imports Prelude
begin

text \<open>
  The text of the page indicator is built by an f-string,
  \<^verbatim>\<open>f"Page: {self.current_page + 1} / {self.page_count}"\<close> (line 88 of
  \<^verbatim>\<open>src/PDFViewer1/pdf_viewer.py\<close>), which formats two Python integers in decimal.
  This theory holds that formatting, \<open>str_int\<close>, with the facts that make the
  indicator readable back: the digits are decimal digits, there is no leading zero,
  and the text determines the number.  A string is a list of characters; every
  character produced here is ASCII, so bytes and code points coincide.
\<close>

section \<open>Decimal formatting of an integer\<close>

definition digit_char :: "nat \<Rightarrow> char" where
  "digit_char d = ''0123456789'' ! d"

fun str_nat :: "nat \<Rightarrow> string" where
  "str_nat n = (if n < 10 then [digit_char n] else str_nat (n div 10) @ [digit_char (n mod 10)])"

declare str_nat.simps [simp del]

definition str_int :: "int \<Rightarrow> string" where
  "str_int i = (if i < 0 then CHR ''-'' # str_nat (nat (- i)) else str_nat (nat i))"

text \<open>Reading a decimal numeral back: the value of a digit string, most significant first.\<close>

definition digit_val :: "char \<Rightarrow> nat" where
  "digit_val c = of_char c - 48"

definition is_digit :: "char \<Rightarrow> bool" where
  "is_digit c \<longleftrightarrow> 48 \<le> (of_char c :: nat) \<and> (of_char c :: nat) \<le> 57"

definition nat_of_digits :: "string \<Rightarrow> nat" where
  "nat_of_digits cs = foldl (\<lambda>acc c. 10 * acc + digit_val c) 0 cs"

definition int_of_str :: "string \<Rightarrow> int" where
  "int_of_str cs =
     (case cs of
        [] \<Rightarrow> 0
      | c # ds \<Rightarrow> if c = CHR ''-'' then - int (nat_of_digits ds) else int (nat_of_digits cs))"

section \<open>Digits\<close>

lemma digit_char_simps [simp]:
  "digit_char 0 = CHR ''0''" "digit_char 1 = CHR ''1''" "digit_char 2 = CHR ''2''"
  "digit_char 3 = CHR ''3''" "digit_char 4 = CHR ''4''" "digit_char 5 = CHR ''5''"
  "digit_char 6 = CHR ''6''" "digit_char 7 = CHR ''7''" "digit_char 8 = CHR ''8''"
  "digit_char 9 = CHR ''9''" "digit_char (Suc 0) = CHR ''1''"
  by (simp_all add: digit_char_def)

lemma lt_10_cases:
  "d < 10 \<Longrightarrow> d = 0 \<or> d = 1 \<or> d = 2 \<or> d = 3 \<or> d = 4 \<or> d = 5 \<or> d = 6 \<or> d = 7 \<or> d = 8 \<or> d = (9::nat)"
  by arith

lemma digit_val_digit_char [simp]: "d < 10 \<Longrightarrow> digit_val (digit_char d) = d"
  by (drule lt_10_cases) (auto simp: digit_val_def)

lemma is_digit_digit_char [simp]: "d < 10 \<Longrightarrow> is_digit (digit_char d)"
  by (drule lt_10_cases) (auto simp: is_digit_def)

lemma digit_char_not_minus [simp]: "d < 10 \<Longrightarrow> digit_char d \<noteq> CHR ''-''"
  by (drule lt_10_cases) auto

lemma digit_char_eq_0_iff [simp]: "d < 10 \<Longrightarrow> digit_char d = CHR ''0'' \<longleftrightarrow> d = 0"
  by (drule lt_10_cases) auto

section \<open>The digits of a natural number\<close>

lemma str_nat_small [simp]: "n < 10 \<Longrightarrow> str_nat n = [digit_char n]"
  by (subst str_nat.simps) simp

lemma str_nat_large: "10 \<le> n \<Longrightarrow> str_nat n = str_nat (n div 10) @ [digit_char (n mod 10)]"
  by (subst str_nat.simps) simp

lemma str_nat_nonempty [simp]: "str_nat n \<noteq> []"
  by (subst str_nat.simps) simp

lemma str_nat_digits: "c \<in> set (str_nat n) \<Longrightarrow> is_digit c"
proof (induction n arbitrary: c rule: str_nat.induct)
  case (1 n)
  show ?case
  proof (cases "n < 10")
    case True
    with "1.prems" show ?thesis by simp
  next
    case False
    with "1.prems" have "c \<in> set (str_nat (n div 10)) \<or> c = digit_char (n mod 10)"
      by (auto simp: str_nat_large)
    with False "1.IH" show ?thesis by auto
  qed
qed

lemma nat_of_digits_snoc [simp]: "nat_of_digits (cs @ [c]) = 10 * nat_of_digits cs + digit_val c"
  by (simp add: nat_of_digits_def)

lemma nat_of_digits_single [simp]: "nat_of_digits [c] = digit_val c"
  by (simp add: nat_of_digits_def)

text \<open>Round trip on the naturals: reading the digits of \<open>n\<close> gives \<open>n\<close>.\<close>

lemma nat_of_digits_str_nat [simp]: "nat_of_digits (str_nat n) = n"
proof (induction n rule: str_nat.induct)
  case (1 n)
  show ?case
  proof (cases "n < 10")
    case True
    then show ?thesis by simp
  next
    case False
    with "1.IH" have "nat_of_digits (str_nat (n div 10)) = n div 10" by simp
    with False show ?thesis by (simp add: str_nat_large)
  qed
qed

lemma hd_str_nat_not_minus [simp]: "hd (str_nat n) \<noteq> CHR ''-''"
proof -
  have "hd (str_nat n) \<in> set (str_nat n)" by simp
  then have "is_digit (hd (str_nat n))" by (rule str_nat_digits)
  then show ?thesis by (auto simp: is_digit_def)
qed

lemma str_nat_neq_minus [simp]:
  "str_nat n \<noteq> CHR ''-'' # cs" "CHR ''-'' # cs \<noteq> str_nat n"
proof -
  show "str_nat n \<noteq> CHR ''-'' # cs"
  proof
    assume "str_nat n = CHR ''-'' # cs"
    then have "hd (str_nat n) = CHR ''-''" by (simp only: list.sel)
    then show False by simp
  qed
  then show "CHR ''-'' # cs \<noteq> str_nat n" by (rule not_sym)
qed

text \<open>No leading zero, but for the number zero itself.\<close>

lemma hd_str_nat_0_iff: "hd (str_nat n) = CHR ''0'' \<longleftrightarrow> n = 0"
proof (induction n rule: str_nat.induct)
  case (1 n)
  show ?case
  proof (cases "n < 10")
    case True
    then show ?thesis by simp
  next
    case False
    then have "n div 10 \<noteq> 0" by simp
    with False "1.IH" show ?thesis by (simp add: str_nat_large)
  qed
qed

section \<open>Integers\<close>

lemma str_int_nonneg [simp]: "0 \<le> i \<Longrightarrow> str_int i = str_nat (nat i)"
  by (simp add: str_int_def)

lemma str_int_neg [simp]: "i < 0 \<Longrightarrow> str_int i = CHR ''-'' # str_nat (nat (- i))"
  by (simp add: str_int_def)

lemma str_int_nonempty [simp]: "str_int i \<noteq> []"
  by (simp add: str_int_def)

lemma int_of_str_str_nat [simp]: "int_of_str (str_nat n) = int n"
proof -
  obtain c ds where cs: "str_nat n = c # ds" by (cases "str_nat n") simp_all
  with hd_str_nat_not_minus [of n] have "c \<noteq> CHR ''-''" by simp
  with cs nat_of_digits_str_nat [of n] show ?thesis by (simp add: int_of_str_def)
qed

lemma str_int_inj: "str_int i = str_int j \<Longrightarrow> i = j"
proof -
  assume eq: "str_int i = str_int j"
  show "i = j"
  proof (cases "i < 0"; cases "j < 0")
    assume "i < 0" "j < 0"
    with eq have "nat_of_digits (str_nat (nat (- i))) = nat_of_digits (str_nat (nat (- j)))"
      by simp
    with \<open>i < 0\<close> \<open>j < 0\<close> show ?thesis by simp
  next
    assume "i < 0" "\<not> j < 0"
    with eq show ?thesis by (simp add: str_int_def)
  next
    assume "\<not> i < 0" "j < 0"
    with eq show ?thesis by (simp add: str_int_def)
  next
    assume "\<not> i < 0" "\<not> j < 0"
    with eq have "nat_of_digits (str_nat (nat i)) = nat_of_digits (str_nat (nat j))"
      by (simp add: str_int_def)
    with \<open>\<not> i < 0\<close> \<open>\<not> j < 0\<close> show ?thesis by simp
  qed
qed

lemma str_int_no_space: "CHR '' '' \<notin> set (str_int i)"
proof -
  have "\<not> is_digit CHR '' ''" by (simp add: is_digit_def)
  then have "CHR '' '' \<notin> set (str_nat n)" for n using str_nat_digits by blast
  then show ?thesis by (simp add: str_int_def)
qed

section \<open>Round trip\<close>

text \<open>
  Reading back the decimal text of an integer gives the integer: the text that the
  page indicator shows for a page number or a page count determines that number, for
  negative numbers too.
\<close>

theorem int_of_str_str_int: "int_of_str (str_int i) = i"
proof (cases "i < 0")
  case True
  then show ?thesis by (simp add: int_of_str_def)
qed simp

end
