(* ===== verification/Viewer.thy ===== *)
theory Viewer
  imports Fitz PyStr
begin

text \<open>
  The class \<^verbatim>\<open>PDFViewer\<close> of \<^verbatim>\<open>src/PDFViewer1/pdf_viewer.py\<close>: the attributes its
  methods read and write, as a record, and one definition for each method
  (\<^verbatim>\<open>open_pdf\<close>, \<^verbatim>\<open>show_page\<close>, \<^verbatim>\<open>next_page\<close>, \<^verbatim>\<open>prev_page\<close>, \<^verbatim>\<open>zoom_in\<close>,
  \<^verbatim>\<open>zoom_out\<close>).  A method takes the state and gives back how the call ended and
  the state it left, so a mutation made before an exception is kept, as in Python.
  The file dialog of \<^verbatim>\<open>open_pdf\<close> is a function of what the user does with it
  (\<open>getOpenFileName\<close>, \<open>chosen_path\<close>), and \<^verbatim>\<open>open_pdf\<close> takes the path it returned.
  The lemmas give the behaviour of every method on every branch, the fields each
  leaves alone, and the invariant that all of them keep.
\<close>

section \<open>State\<close>

text \<open>
  \<open>page_label\<close> and \<open>label\<close> are what the two \<^verbatim>\<open>QLabel\<close> widgets show (the text of
  \<^verbatim>\<open>self.page_label\<close>, the pixmap of \<^verbatim>\<open>self.label\<close>); \<open>doc\<close>, \<open>page_count\<close>,
  \<open>current_page\<close> and \<open>zoom\<close> are the attributes of lines 49 to 52; \<open>messages\<close> is
  the list of error dialogs shown so far, oldest first.
\<close>

record viewer =
  page_label :: string
  label :: "qpixmap option"
  doc :: "document option"
  page_count :: int
  current_page :: int
  zoom :: pyfloat
  messages :: "message_box list"

text \<open>The state \<^verbatim>\<open>__init__\<close> leaves (lines 36, 44 and 48 to 52).\<close>

definition init_viewer :: viewer where
  "init_viewer =
     \<lparr>page_label = ''Page: 0 / 0'', label = None, doc = None, page_count = 0,
      current_page = 0, zoom = Finite 1, messages = []\<rparr>"

section \<open>Rendering\<close>

text \<open>The f-string of line 88.\<close>

definition page_text :: "int \<Rightarrow> int \<Rightarrow> string" where
  "page_text cur n = ''Page: '' @ str_int (cur + 1) @ '' / '' @ str_int n"

text \<open>
  Lines 83 to 86: load the page, scale by the zoom in both directions, rasterise,
  wrap the buffer.  Either library call may raise.
\<close>

definition render_page :: "document \<Rightarrow> int \<Rightarrow> pyfloat \<Rightarrow> qimage raising" where
  "render_page d n z =
     (case load_page d n of
        Inl e \<Rightarrow> Inl e
      | Inr p \<Rightarrow>
          (case get_pixmap p (Matrix z z) of
             Inl e \<Rightarrow> Inl e
           | Inr pix \<Rightarrow>
               Inr (QImage (pix_samples pix) (pix_width pix) (pix_height pix) (pix_stride pix)
                      Format_RGB888)))"

definition show_page :: "viewer \<Rightarrow> outcome \<times> viewer" where
  "show_page s =
     (case doc s of
        None \<Rightarrow> (Returned, s)
      | Some d \<Rightarrow>
          if \<not> doc_truth d then (Returned, s)
          else
            (case render_page d (current_page s) (zoom s) of
               Inl e \<Rightarrow> (Raised e, s)
             | Inr img \<Rightarrow>
                 (Returned,
                  s\<lparr>label := Some (QPixmap_fromImage img),
                    page_label := page_text (current_page s) (page_count s)\<rparr>)))"

section \<open>Navigation and zoom\<close>

definition next_page :: "viewer \<Rightarrow> outcome \<times> viewer" where
  "next_page s =
     (if truthy (doc s) \<and> current_page s < page_count s - 1
      then show_page (s\<lparr>current_page := current_page s + 1\<rparr>)
      else (Returned, s))"

definition prev_page :: "viewer \<Rightarrow> outcome \<times> viewer" where
  "prev_page s =
     (if truthy (doc s) \<and> 0 < current_page s
      then show_page (s\<lparr>current_page := current_page s - 1\<rparr>)
      else (Returned, s))"

definition zoom_in :: "viewer \<Rightarrow> outcome \<times> viewer" where
  "zoom_in s =
     (if truthy (doc s)
      then show_page (s\<lparr>zoom := fmul (zoom s) (Finite (5 / 4))\<rparr>)
      else (Returned, s))"

definition zoom_out :: "viewer \<Rightarrow> outcome \<times> viewer" where
  "zoom_out s =
     (if truthy (doc s) \<and> fgt (zoom s) (Finite (1 / 2))
      then
        (case py_truediv (zoom s) (Finite (5 / 4)) of
           Inl e \<Rightarrow> (Raised e, s)
         | Inr z \<Rightarrow> show_page (s\<lparr>zoom := z\<rparr>))
      else (Returned, s))"

section \<open>Opening a document\<close>

text \<open>
  The body of the \<^verbatim>\<open>try\<close> (lines 72 to 76).  The first argument is
  \<^verbatim>\<open>fitz.open\<close>; when it raises, \<^verbatim>\<open>self.doc\<close> is not assigned.  \<open>opened\<close> is the
  four assignments of lines 72 to 75.
\<close>

definition opened :: "document \<Rightarrow> viewer \<Rightarrow> viewer" where
  "opened d s =
     s\<lparr>doc := Some d, page_count := doc_page_count d, current_page := 0, zoom := Finite 1\<rparr>"

definition open_body :: "fitz \<Rightarrow> string \<Rightarrow> viewer \<Rightarrow> outcome \<times> viewer" where
  "open_body lib path s =
     (case lib path of
        Inl e \<Rightarrow> (Raised e, s)
      | Inr d \<Rightarrow> show_page (opened d s))"

text \<open>
  \<^verbatim>\<open>except Exception as e\<close> (lines 77, 78): an \<^verbatim>\<open>Exception\<close> ends in the error
  dialog and the method returns; any other exception passes through.
\<close>

definition failed_to_open :: "string \<Rightarrow> message_box" where
  "failed_to_open msg = Critical ''Error'' (''Failed to open PDF:'' @ [CHR 0x0A] @ msg)"

fun except_Exception :: "outcome \<times> viewer \<Rightarrow> outcome \<times> viewer" where
  "except_Exception (Raised (Exception msg), s) =
     (Returned, s\<lparr>messages := messages s @ [failed_to_open msg]\<rparr>)"
| "except_Exception (r, s) = (r, s)"

text \<open>
  The arguments of \<^verbatim>\<open>QFileDialog.getOpenFileName\<close> (line 68): caption, start directory
  and filter.
\<close>

definition file_dialog_request :: "string \<times> string \<times> string" where
  "file_dialog_request = (''Open PDF'', [], ''PDF Files (*.pdf)'')"

text \<open>
  What the user does with the dialog: dismiss it, or accept it with a file name, which
  the dialog does not accept empty.  \<^verbatim>\<open>getOpenFileName\<close> returns the selected file and
  the selected filter, and two empty strings when the dialog was dismissed; the filter
  only restricts what the dialog lists, not what can be typed.
\<close>

datatype dialog_answer = Dismissed | Accepted string

definition getOpenFileName :: "string \<times> string \<times> string \<Rightarrow> dialog_answer \<Rightarrow> string \<times> string" where
  "getOpenFileName request answer =
     (case answer of
        Dismissed \<Rightarrow> ([], [])
      | Accepted file \<Rightarrow> (file, snd (snd request)))"

text \<open>\<^verbatim>\<open>path, _ = QFileDialog.getOpenFileName(...)\<close> (line 68).\<close>

definition chosen_path :: "dialog_answer \<Rightarrow> string" where
  "chosen_path answer = fst (getOpenFileName file_dialog_request answer)"

text \<open>
  \<^verbatim>\<open>open_pdf\<close> (lines 67 to 78).  \<open>path\<close> is the first component of what
  \<^verbatim>\<open>QFileDialog.getOpenFileName\<close> returned: the empty string when the user cancelled.
\<close>

definition open_pdf :: "fitz \<Rightarrow> string \<Rightarrow> viewer \<Rightarrow> outcome \<times> viewer" where
  "open_pdf lib path s =
     (if path = [] then (Returned, s) else except_Exception (open_body lib path s))"

section \<open>The state invariant\<close>

text \<open>
  \<open>zoom_floor\<close> is the binary64 number nearest to 0.4, the least value a zoom-out can
  leave: the guard of \<^verbatim>\<open>zoom_out\<close> tests the zoom before the division.  The
  invariant says that the page index is never negative and is below the page count
  unless it is 0, that the zoom is a float that is not NaN and not below
  \<open>zoom_floor\<close>, that \<open>page_count\<close> is the count of the open document (0 when there
  is none), and that the zoom is 1.0 as long as no document was opened.
\<close>

definition zoom_floor :: rat where
  "zoom_floor = 3602879701896397 / 9007199254740992"

definition zoom_ok :: "pyfloat \<Rightarrow> bool" where
  "zoom_ok z \<longleftrightarrow> is_float z \<and> fle (Finite zoom_floor) z"

fun doc_count :: "document option \<Rightarrow> int" where
  "doc_count None = 0"
| "doc_count (Some d) = doc_page_count d"

definition viewer_inv :: "viewer \<Rightarrow> bool" where
  "viewer_inv s \<longleftrightarrow>
     0 \<le> current_page s \<and> (current_page s = 0 \<or> current_page s < page_count s) \<and>
     zoom_ok (zoom s) \<and>
     page_count s = doc_count (doc s) \<and>
     (doc s = None \<longrightarrow> zoom s = Finite 1)"

lemmas [viewer_defs] =
  show_page_def next_page_def prev_page_def zoom_in_def zoom_out_def open_body_def open_pdf_def

section \<open>What \<open>show_page\<close> does\<close>

lemma show_page_falsy [simp]: "\<not> truthy (doc s) \<Longrightarrow> show_page s = (Returned, s)"
  by (cases "doc s") (simp_all add: show_page_def)

lemma show_page_raises:
  "doc s = Some d \<Longrightarrow> doc_truth d \<Longrightarrow> render_page d (current_page s) (zoom s) = Inl e \<Longrightarrow>
     show_page s = (Raised e, s)"
  by (simp add: show_page_def)

lemma show_page_renders:
  "doc s = Some d \<Longrightarrow> doc_truth d \<Longrightarrow> render_page d (current_page s) (zoom s) = Inr img \<Longrightarrow>
     show_page s =
       (Returned,
        s\<lparr>label := Some (QPixmap_fromImage img),
          page_label := page_text (current_page s) (page_count s)\<rparr>)"
  by (simp add: show_page_def)

text \<open>It writes the two widgets and nothing else.\<close>

lemma show_page_frame [frame, simp]:
  "doc (snd (show_page s)) = doc s"
  "page_count (snd (show_page s)) = page_count s"
  "current_page (snd (show_page s)) = current_page s"
  "zoom (snd (show_page s)) = zoom s"
  "messages (snd (show_page s)) = messages s"
  by (simp_all add: show_page_def split: sum.splits option.splits)

text \<open>When it raises it has written nothing.\<close>

lemma show_page_Raised: "fst (show_page s) = Raised e \<Longrightarrow> snd (show_page s) = s"
  by (auto simp: show_page_def split: sum.splits option.splits if_splits)

text \<open>The three ways a call can go, as a case rule for the proofs about the handlers.\<close>

lemma show_page_cases [case_names skip raised shown]:
  obtains (skip) "\<not> truthy (doc s)" "show_page s = (Returned, s)"
  | (raised) d e where "doc s = Some d" "doc_truth d" "show_page s = (Raised e, s)"
      "render_page d (current_page s) (zoom s) = Inl e"
  | (shown) d img where "doc s = Some d" "doc_truth d"
      "render_page d (current_page s) (zoom s) = Inr img"
      "show_page s =
         (Returned,
          s\<lparr>label := Some (QPixmap_fromImage img),
            page_label := page_text (current_page s) (page_count s)\<rparr>)"
proof (cases "doc s")
  case None
  then show ?thesis by (intro skip) simp_all
next
  case (Some d)
  show ?thesis
  proof (cases "doc_truth d")
    case False
    with Some show ?thesis by (intro skip) simp_all
  next
    case True
    with Some show ?thesis
      by (cases "render_page d (current_page s) (zoom s)")
        (auto intro: raised shown simp: show_page_def)
  qed
qed

section \<open>Frame properties of the handlers\<close>

lemma next_page_frame [frame, simp]:
  "doc (snd (next_page s)) = doc s"
  "page_count (snd (next_page s)) = page_count s"
  "zoom (snd (next_page s)) = zoom s"
  "messages (snd (next_page s)) = messages s"
  by (simp_all add: next_page_def)

lemma prev_page_frame [frame, simp]:
  "doc (snd (prev_page s)) = doc s"
  "page_count (snd (prev_page s)) = page_count s"
  "zoom (snd (prev_page s)) = zoom s"
  "messages (snd (prev_page s)) = messages s"
  by (simp_all add: prev_page_def)

lemma zoom_in_frame [frame, simp]:
  "doc (snd (zoom_in s)) = doc s"
  "page_count (snd (zoom_in s)) = page_count s"
  "current_page (snd (zoom_in s)) = current_page s"
  "messages (snd (zoom_in s)) = messages s"
  by (simp_all add: zoom_in_def)

lemma zoom_out_frame [frame, simp]:
  "doc (snd (zoom_out s)) = doc s"
  "page_count (snd (zoom_out s)) = page_count s"
  "current_page (snd (zoom_out s)) = current_page s"
  "messages (snd (zoom_out s)) = messages s"
  by (simp_all add: zoom_out_def py_truediv_def)

text \<open>The new values of the fields the handlers do write.\<close>

lemma current_page_next_page:
  "current_page (snd (next_page s)) =
     (if truthy (doc s) \<and> current_page s < page_count s - 1 then current_page s + 1
      else current_page s)"
  by (simp add: next_page_def)

lemma current_page_prev_page:
  "current_page (snd (prev_page s)) =
     (if truthy (doc s) \<and> 0 < current_page s then current_page s - 1 else current_page s)"
  by (simp add: prev_page_def)

lemma zoom_zoom_in:
  "zoom (snd (zoom_in s)) = (if truthy (doc s) then fmul (zoom s) (Finite (5 / 4)) else zoom s)"
  by (simp add: zoom_in_def)

lemma zoom_zoom_out:
  "zoom (snd (zoom_out s)) =
     (if truthy (doc s) \<and> fgt (zoom s) (Finite (1 / 2)) then fdiv (zoom s) (Finite (5 / 4))
      else zoom s)"
  by (simp add: zoom_out_def py_truediv_def)

section \<open>The parts of \<open>open_pdf\<close>\<close>

text \<open>
  The handler of the \<^verbatim>\<open>except\<close> clause, the cancelled dialog, and what every
  successful \<^verbatim>\<open>fitz.open\<close> leaves in the four attributes.
\<close>

lemma except_Exception_simps [simp]:
  "except_Exception (Returned, s) = (Returned, s)"
  "\<not> is_Exception e \<Longrightarrow> except_Exception (Raised e, s) = (Raised e, s)"
  by (cases e; simp)+

lemma except_Exception_frame [frame, simp]:
  "doc (snd (except_Exception r)) = doc (snd r)"
  "page_count (snd (except_Exception r)) = page_count (snd r)"
  "current_page (snd (except_Exception r)) = current_page (snd r)"
  "zoom (snd (except_Exception r)) = zoom (snd r)"
  "label (snd (except_Exception r)) = label (snd r)"
  "page_label (snd (except_Exception r)) = page_label (snd r)"
  by (cases r rule: except_Exception.cases; simp)+

lemma except_Exception_not_Exception: "fst (except_Exception r) \<noteq> Raised (Exception msg)"
  by (cases r rule: except_Exception.cases) auto

lemma open_pdf_cancel [simp]: "open_pdf lib [] s = (Returned, s)"
  by (simp add: open_pdf_def)

text \<open>
  The path that \<^verbatim>\<open>open_pdf\<close> works with: empty exactly when the dialog was dismissed,
  given that the dialog accepts no empty file name, and otherwise the file name as the
  user gave it, whether or not it matches the filter.
\<close>

lemma chosen_path_simps [simp]:
  "chosen_path Dismissed = []" "chosen_path (Accepted file) = file"
  by (simp_all add: chosen_path_def getOpenFileName_def)

lemma open_pdf_dismissed: "open_pdf lib (chosen_path Dismissed) s = (Returned, s)"
  by simp

lemma open_pdf_accepted:
  "file \<noteq> [] \<Longrightarrow>
   open_pdf lib (chosen_path (Accepted file)) s = except_Exception (open_body lib file s)"
  by (simp add: open_pdf_def)

lemma open_body_Inr: "lib path = Inr d \<Longrightarrow> open_body lib path s = show_page (opened d s)"
  by (simp add: open_body_def)

lemma open_pdf_resets:
  assumes "path \<noteq> []" and "lib path = Inr d"
  shows "doc (snd (open_pdf lib path s)) = Some d"
    and "page_count (snd (open_pdf lib path s)) = doc_page_count d"
    and "current_page (snd (open_pdf lib path s)) = 0"
    and "zoom (snd (open_pdf lib path s)) = Finite 1"
  using assms by (simp_all add: open_pdf_def open_body_Inr opened_def)

lemma opened_simps [simp]:
  "doc (opened d s) = Some d" "page_count (opened d s) = doc_page_count d"
  "current_page (opened d s) = 0" "zoom (opened d s) = Finite 1"
  "label (opened d s) = label s" "page_label (opened d s) = page_label s"
  "messages (opened d s) = messages s"
  by (simp_all add: opened_def)

section \<open>The zoom stays in range\<close>

lemma round_double_zoom_floor: "round_double (2 / 5) = Finite zoom_floor"
  by (simp add: zoom_floor_def round_double_two_fifths)

lemma is_double_zoom_floor [simp]: "is_double zoom_floor"
  using is_float_round_double [of "2 / 5"] by (simp add: round_double_zoom_floor)

lemma zoom_floor_bounds: "2 / 5 < zoom_floor" "zoom_floor < 1 / 2"
  by (simp_all add: zoom_floor_def)

lemma is_double_1 [simp]: "is_double 1"
  using is_double_pow2 [of 0] by simp

lemma zoom_ok_1 [simp]: "zoom_ok (Finite 1)"
  by (simp add: zoom_ok_def zoom_floor_def)

lemma zoom_ok_fmul:
  assumes "zoom_ok z"
  shows "zoom_ok (fmul z (Finite (5 / 4)))"
proof -
  have "0 \<le> zoom_floor" by (simp add: zoom_floor_def)
  moreover from assms have "fle (Finite zoom_floor) z" by (simp add: zoom_ok_def)
  ultimately have "fle (Finite zoom_floor) (fmul z (Finite (5 / 4)))"
    by (intro fmul_ge) simp_all
  then show ?thesis by (simp add: zoom_ok_def)
qed

lemma zoom_ok_fdiv:
  assumes "fgt z (Finite (1 / 2))"
  shows "zoom_ok (fdiv z (Finite (5 / 4)))"
proof (cases z)
  case (Finite a)
  with assms have "2 / 5 \<le> a / (5 / 4)" by simp
  then have "fle (round_double (2 / 5)) (round_double (a / (5 / 4)))" by (rule round_double_mono)
  with Finite show ?thesis by (simp add: zoom_ok_def round_double_zoom_floor)
next
  case PInf
  then show ?thesis by (simp add: zoom_ok_def signed_inf_def)
qed (use assms in simp_all)

text \<open>
  The first zoom steps from \<open>1.0\<close>, rounded: \<open>1.25\<close> is exact, four divisions give
  the binary64 numbers nearest to \<open>0.8\<close>, \<open>0.64\<close>, \<open>0.512\<close> and \<open>0.4096\<close>, and
  \<open>1.25 / 1.25\<close> is \<open>1.0\<close>.
\<close>

lemma fmul_five_quarters: "fmul (Finite 1) (Finite (5 / 4)) = Finite (5 / 4)"
  by (simp, subst round_double_normal [where e = 0]) (simp_all add: float_eval)

lemma fdiv_trace:
  "fdiv (Finite 1) (Finite (5 / 4)) = Finite (3602879701896397 / 4503599627370496)"
  "fdiv (Finite (3602879701896397 / 4503599627370496)) (Finite (5 / 4)) =
     Finite (5764607523034235 / 9007199254740992)"
  "fdiv (Finite (5764607523034235 / 9007199254740992)) (Finite (5 / 4)) =
     Finite (1152921504606847 / 2251799813685248)"
  "fdiv (Finite (1152921504606847 / 2251799813685248)) (Finite (5 / 4)) =
     Finite (7378697629483821 / 18014398509481984)"
  "fdiv (Finite (5 / 4)) (Finite (5 / 4)) = Finite 1"
  subgoal by (simp, subst round_double_normal [where e = "- 1"]) (simp_all add: float_eval)
  subgoal by (simp, subst round_double_normal [where e = "- 1"]) (simp_all add: float_eval)
  subgoal by (simp, subst round_double_normal [where e = "- 1"]) (simp_all add: float_eval)
  subgoal by (simp, subst round_double_normal [where e = "- 2"]) (simp_all add: float_eval)
  subgoal by (simp add: round_double_exact)
  done

section \<open>Every handler keeps the invariant\<close>

text \<open>
  The rules speak of the state a call leaves, whether it returned or raised, and hold
  for every document and every library behaviour.
\<close>

lemma viewer_inv_init: "viewer_inv init_viewer"
  by (simp add: viewer_inv_def init_viewer_def)

text \<open>The conjuncts of the invariant, for use as facts.\<close>

lemma viewer_invD:
  assumes "viewer_inv s"
  shows "0 \<le> current_page s" and "current_page s = 0 \<or> current_page s < page_count s"
    and "is_float (zoom s)" and "fle (Finite zoom_floor) (zoom s)"
    and "page_count s = doc_count (doc s)"
  using assms by (auto simp: viewer_inv_def zoom_ok_def)

text \<open>The invariant reads four fields only; an operation that keeps them keeps it.\<close>

lemma viewer_inv_cong:
  assumes "doc t = doc s" and "page_count t = page_count s"
    and "current_page t = current_page s" and "zoom t = zoom s"
  shows "viewer_inv t \<longleftrightarrow> viewer_inv s"
  by (simp add: viewer_inv_def assms)

lemma viewer_inv_show_page [inv_intros]: "viewer_inv s \<Longrightarrow> viewer_inv (snd (show_page s))"
  by (simp add: viewer_inv_cong [of "snd (show_page s)" s])

lemma viewer_inv_next_page [inv_intros]: "viewer_inv s \<Longrightarrow> viewer_inv (snd (next_page s))"
  by (auto simp: viewer_inv_def current_page_next_page)

lemma viewer_inv_prev_page [inv_intros]: "viewer_inv s \<Longrightarrow> viewer_inv (snd (prev_page s))"
  by (auto simp: viewer_inv_def current_page_prev_page)

lemma viewer_inv_zoom_in [inv_intros]: "viewer_inv s \<Longrightarrow> viewer_inv (snd (zoom_in s))"
  by (auto simp: viewer_inv_def zoom_zoom_in zoom_ok_fmul dest: truthy_SomeD)

lemma viewer_inv_zoom_out [inv_intros]: "viewer_inv s \<Longrightarrow> viewer_inv (snd (zoom_out s))"
  by (auto simp: viewer_inv_def zoom_zoom_out zoom_ok_fdiv dest: truthy_SomeD)

lemma viewer_inv_except_Exception:
  "viewer_inv (snd r) \<Longrightarrow> viewer_inv (snd (except_Exception r))"
  by (simp add: viewer_inv_cong [of "snd (except_Exception r)" "snd r"])

lemma viewer_inv_opened: "viewer_inv (opened d s)"
  by (simp add: viewer_inv_def opened_def)

lemma viewer_inv_open_body: "viewer_inv s \<Longrightarrow> viewer_inv (snd (open_body lib path s))"
  by (cases "lib path") (simp_all add: open_body_def viewer_inv_show_page viewer_inv_opened)

lemma viewer_inv_open_pdf [inv_intros]: "viewer_inv s \<Longrightarrow> viewer_inv (snd (open_pdf lib path s))"
  by (simp add: open_pdf_def viewer_inv_except_Exception viewer_inv_open_body)

section \<open>Opening: every way through \<open>open_pdf\<close>\<close>

text \<open>
  C2. Opening a document whose first page renders: \<^verbatim>\<open>open_pdf\<close> returns, the document
  is installed, the page count is the document's, the page index is 0, the zoom is
  1.0, the image shown is the rendering of page 0 at zoom 1.0 and the indicator reads
  page 1 of the count.  Nothing else changes, whatever the state was before.
\<close>

theorem open_pdf_shown:
  assumes "path \<noteq> []" and "lib path = Inr d" and "doc_truth d"
    and "render_page d 0 (Finite 1) = Inr img"
  shows "open_pdf lib path s =
     (Returned,
      s\<lparr>doc := Some d, page_count := doc_page_count d, current_page := 0, zoom := Finite 1,
        label := Some (QPixmap_fromImage img),
        page_label := page_text 0 (doc_page_count d)\<rparr>)"
  using assms by (simp add: open_pdf_def open_body_Inr show_page_def opened_def)

theorem open_pdf_shown_witness:
  "open_pdf sample_lib ''a.pdf'' init_viewer =
     (Returned,
      \<lparr>page_label = ''Page: 1 / 3'',
       label = Some (QPixmap_fromImage (QImage [0, 0, 0] 1 1 3 Format_RGB888)),
       doc = Some (sample_doc 3), page_count = 3, current_page = 0, zoom = Finite 1,
       messages = []\<rparr>)"
  using open_pdf_shown [of "''a.pdf''" sample_lib "sample_doc 3"
      "QImage [0, 0, 0] 1 1 3 Format_RGB888" init_viewer]
  by (simp add: sample_defs render_page_def page_text_def init_viewer_def opened_def)

text \<open>
  C3. When \<^verbatim>\<open>fitz.open\<close> raises an \<^verbatim>\<open>Exception\<close>, \<^verbatim>\<open>open_pdf\<close> returns normally,
  shows one error dialog titled "Error" whose text is "Failed to open PDF:", a line
  break and the exception's message, and leaves every attribute and both widgets as
  they were.
\<close>

theorem open_pdf_fitz_raises:
  assumes "path \<noteq> []" and "lib path = Inl (Exception msg)"
  shows "open_pdf lib path s =
     (Returned,
      s\<lparr>messages := messages s @ [Critical ''Error'' (''Failed to open PDF:'' @ [CHR 0x0A] @ msg)]\<rparr>)"
  using assms by (simp add: open_pdf_def open_body_def failed_to_open_def)

theorem open_pdf_fitz_raises_witness:
  "open_pdf sample_lib ''missing.pdf'' (opened (sample_doc 3) init_viewer) =
     (Returned,
      (opened (sample_doc 3) init_viewer)
        \<lparr>messages := [Critical ''Error'' (''Failed to open PDF:'' @ [CHR 0x0A] @ ''no such file'')]\<rparr>)"
  using open_pdf_fitz_raises [of "''missing.pdf''" sample_lib "''no such file''"
      "opened (sample_doc 3) init_viewer"]
  by (simp add: sample_lib_def init_viewer_def)

text \<open>
  C23. Opening is not atomic.  When \<^verbatim>\<open>fitz.open\<close> succeeds and the first page then fails
  to render with an \<^verbatim>\<open>Exception\<close>, the error dialog is shown and \<^verbatim>\<open>open_pdf\<close> returns,
  but the new document, its page count, page index 0 and zoom 1.0 are already
  installed; the image and the indicator still show what they showed before.
\<close>

theorem open_pdf_render_raises:
  assumes "path \<noteq> []" and "lib path = Inr d" and "doc_truth d"
    and "render_page d 0 (Finite 1) = Inl (Exception msg)"
  shows "open_pdf lib path s =
     (Returned,
      s\<lparr>doc := Some d, page_count := doc_page_count d, current_page := 0, zoom := Finite 1,
        messages := messages s @
          [Critical ''Error'' (''Failed to open PDF:'' @ [CHR 0x0A] @ msg)]\<rparr>)"
  using assms
  by (simp add: open_pdf_def open_body_Inr show_page_def failed_to_open_def opened_def)

theorem open_pdf_render_raises_witness:
  "open_pdf sample_lib ''locked.pdf'' (opened (sample_doc 3) init_viewer) =
     (Returned,
      \<lparr>page_label = ''Page: 0 / 0'', label = None, doc = Some locked_doc, page_count = 2,
       current_page = 0, zoom = Finite 1,
       messages = [Critical ''Error''
         (''Failed to open PDF:'' @ [CHR 0x0A] @ ''document closed or encrypted'')]\<rparr>)"
  using open_pdf_render_raises [of "''locked.pdf''" sample_lib locked_doc
      "''document closed or encrypted''" "opened (sample_doc 3) init_viewer"]
  by (simp add: sample_lib_def locked_doc_def render_page_def init_viewer_def opened_def)

text \<open>
  C24. A document that is false as a Python value (for PyMuPDF, one without pages) is
  installed without being shown: \<^verbatim>\<open>open_pdf\<close> returns, the four attributes are those of
  the new document, and the image and the indicator keep showing the previous
  document's page.
\<close>

theorem open_pdf_falsy:
  assumes "path \<noteq> []" and "lib path = Inr d" and "\<not> doc_truth d"
  shows "open_pdf lib path s =
    (Returned,
     s\<lparr>doc := Some d, page_count := doc_page_count d, current_page := 0, zoom := Finite 1\<rparr>)"
  using assms by (simp add: open_pdf_def open_body_Inr opened_def)

theorem open_pdf_falsy_witness:
  "open_pdf sample_lib ''empty.pdf''
     (init_viewer\<lparr>page_label := ''Page: 2 / 3'', doc := Some (sample_doc 3), page_count := 3,
        current_page := 1\<rparr>) =
     (Returned,
      \<lparr>page_label = ''Page: 2 / 3'', label = None, doc = Some (sample_doc 0), page_count = 0,
       current_page = 0, zoom = Finite 1, messages = []\<rparr>)"
  using open_pdf_falsy [of "''empty.pdf''" sample_lib "sample_doc 0"
      "init_viewer\<lparr>page_label := ''Page: 2 / 3'', doc := Some (sample_doc 3), page_count := 3,
        current_page := 1\<rparr>"]
  by (simp add: sample_lib_def sample_doc_def init_viewer_def opened_def)

text \<open>
  C25. \<^verbatim>\<open>open_pdf\<close> never lets an \<^verbatim>\<open>Exception\<close> escape: whatever the library does, the
  call returns or raises one of the exceptions that are not instances of
  \<^verbatim>\<open>Exception\<close>.
\<close>

theorem open_pdf_raises_only_base_exceptions:
  "fst (open_pdf lib path s) = Returned \<or>
   fst (open_pdf lib path s) = Raised SystemExit \<or>
   fst (open_pdf lib path s) = Raised KeyboardInterrupt"
proof (cases "fst (open_pdf lib path s)")
  case (Raised e)
  then have "\<not> is_Exception e"
    using except_Exception_not_Exception [of "open_body lib path s"]
    by (cases e) (auto simp: open_pdf_def split: if_splits)
  with Raised show ?thesis by (simp add: not_is_Exception_iff)
qed simp

section \<open>Navigation: every way through \<open>next_page\<close> and \<open>prev_page\<close>\<close>

text \<open>
  C4. With a document open and the page index below the last page, \<^verbatim>\<open>next_page\<close>
  moves to the next page and shows it: the index grows by one, the image is the
  rendering of the new page at the current zoom and the indicator names the new page.
\<close>

theorem next_page_advances:
  assumes "doc s = Some d" and "doc_truth d" and "current_page s < page_count s - 1"
    and "render_page d (current_page s + 1) (zoom s) = Inr img"
  shows "next_page s =
     (Returned,
      s\<lparr>current_page := current_page s + 1, label := Some (QPixmap_fromImage img),
        page_label := page_text (current_page s + 1) (page_count s)\<rparr>)"
  using assms by (simp add: next_page_def show_page_def)

theorem next_page_advances_witness:
  "next_page (opened (sample_doc 3) init_viewer) =
     (Returned,
      (opened (sample_doc 3) init_viewer)
        \<lparr>current_page := 1,
         label := Some (QPixmap_fromImage (QImage [0, 0, 0] 1 1 3 Format_RGB888)),
         page_label := ''Page: 2 / 3''\<rparr>)"
  using next_page_advances [of "opened (sample_doc 3) init_viewer" "sample_doc 3"
      "QImage [0, 0, 0] 1 1 3 Format_RGB888"]
  by (simp add: sample_defs render_page_def page_text_def)

text \<open>
  C5. On the last page (and beyond it, and with no page at all) \<^verbatim>\<open>next_page\<close> does
  nothing: it returns and the state is the one it was called in.  There is no
  wrap-around.
\<close>

theorem next_page_last:
  assumes "page_count s - 1 \<le> current_page s"
  shows "next_page s = (Returned, s)"
  using assms by (simp add: next_page_def)

theorem next_page_last_witness:
  "next_page ((opened (sample_doc 3) init_viewer)\<lparr>current_page := 2\<rparr>) =
     (Returned, (opened (sample_doc 3) init_viewer)\<lparr>current_page := 2\<rparr>)"
  using next_page_last [of "(opened (sample_doc 3) init_viewer)\<lparr>current_page := 2\<rparr>"]
  by (simp add: sample_defs)

text \<open>
  C6. With a document open and the page index above 0, \<^verbatim>\<open>prev_page\<close> moves to the
  page before and shows it: the index shrinks by one, the image is the rendering of
  that page at the current zoom and the indicator names it.
\<close>

theorem prev_page_goes_back:
  assumes "doc s = Some d" and "doc_truth d" and "0 < current_page s"
    and "render_page d (current_page s - 1) (zoom s) = Inr img"
  shows "prev_page s =
     (Returned,
      s\<lparr>current_page := current_page s - 1, label := Some (QPixmap_fromImage img),
        page_label := page_text (current_page s - 1) (page_count s)\<rparr>)"
  using assms by (simp add: prev_page_def show_page_def)

theorem prev_page_goes_back_witness:
  "prev_page ((opened (sample_doc 3) init_viewer)\<lparr>current_page := 2\<rparr>) =
     (Returned,
      (opened (sample_doc 3) init_viewer)
        \<lparr>current_page := 1,
         label := Some (QPixmap_fromImage (QImage [0, 0, 0] 1 1 3 Format_RGB888)),
         page_label := ''Page: 2 / 3''\<rparr>)"
  using prev_page_goes_back [of "(opened (sample_doc 3) init_viewer)\<lparr>current_page := 2\<rparr>"
      "sample_doc 3" "QImage [0, 0, 0] 1 1 3 Format_RGB888"]
  by (simp add: sample_defs render_page_def page_text_def)

text \<open>
  C7. On the first page \<^verbatim>\<open>prev_page\<close> does nothing: for a page index of 0 or below
  it returns and the state is the one it was called in.
\<close>

theorem prev_page_first:
  assumes "current_page s \<le> 0"
  shows "prev_page s = (Returned, s)"
  using assms by (simp add: prev_page_def)

theorem prev_page_first_witness:
  "prev_page (opened (sample_doc 3) init_viewer) = (Returned, opened (sample_doc 3) init_viewer)"
  using prev_page_first [of "opened (sample_doc 3) init_viewer"] by simp

text \<open>
  C38. A page that fails to render leaves the viewer between two pages: \<^verbatim>\<open>next_page\<close>
  raises what the library raised, the page index is already advanced, and the image
  and the indicator still show the page before.
\<close>

theorem next_page_render_raises:
  assumes "doc s = Some d" and "doc_truth d" and "current_page s < page_count s - 1"
    and "render_page d (current_page s + 1) (zoom s) = Inl e"
  shows "next_page s = (Raised e, s\<lparr>current_page := current_page s + 1\<rparr>)"
  using assms by (simp add: next_page_def show_page_def)

theorem next_page_render_raises_witness:
  "next_page (opened locked_doc init_viewer) =
     (Raised (Exception ''document closed or encrypted''),
      (opened locked_doc init_viewer)\<lparr>current_page := 1\<rparr>)"
  using next_page_render_raises [of "opened locked_doc init_viewer" locked_doc
      "Exception ''document closed or encrypted''"]
  by (simp add: locked_doc_def render_page_def)

text \<open>
  Going forward and back returns to the page: from a page that is not the last,
  \<^verbatim>\<open>next_page\<close> followed by \<^verbatim>\<open>prev_page\<close> ends on the page index it started from.
\<close>

theorem next_then_prev:
  assumes "truthy (doc s)" and "0 \<le> current_page s"
    and "current_page s < page_count s - 1"
  shows "current_page (snd (prev_page (snd (next_page s)))) = current_page s"
  using assms by (simp add: current_page_prev_page current_page_next_page)

theorem next_then_prev_witness:
  "current_page (snd (prev_page (snd (next_page (opened (sample_doc 3) init_viewer))))) = 0"
  using next_then_prev [of "opened (sample_doc 3) init_viewer"]
  by (simp add: sample_doc_def)

section \<open>Zoom: every way through \<open>zoom_in\<close> and \<open>zoom_out\<close>\<close>

text \<open>
  C10. At a zoom of 0.5 or less, and at NaN, \<^verbatim>\<open>zoom_out\<close> does nothing: it returns
  and the state is the one it was called in.
\<close>

theorem zoom_out_rejected:
  assumes "\<not> fgt (zoom s) (Finite (1 / 2))"
  shows "zoom_out s = (Returned, s)"
  using assms by (simp add: zoom_out_def)

theorem zoom_out_rejected_witness:
  "zoom_out ((opened (sample_doc 3) init_viewer)\<lparr>zoom := Finite (1 / 2)\<rparr>) =
     (Returned, (opened (sample_doc 3) init_viewer)\<lparr>zoom := Finite (1 / 2)\<rparr>)"
  using zoom_out_rejected [of "(opened (sample_doc 3) init_viewer)\<lparr>zoom := Finite (1 / 2)\<rparr>"]
  by simp

text \<open>
  C21. With a document open, \<^verbatim>\<open>zoom_in\<close> multiplies the zoom by 1.25 in binary64
  arithmetic and shows the current page at the new zoom; the page index is unchanged
  and there is no upper bound.
\<close>

theorem zoom_in_scales:
  assumes "doc s = Some d" and "doc_truth d"
    and "render_page d (current_page s) (fmul (zoom s) (Finite (5 / 4))) = Inr img"
  shows "zoom_in s =
     (Returned,
      s\<lparr>zoom := fmul (zoom s) (Finite (5 / 4)), label := Some (QPixmap_fromImage img),
        page_label := page_text (current_page s) (page_count s)\<rparr>)"
  using assms by (simp add: zoom_in_def show_page_def)

theorem zoom_in_scales_witness:
  "zoom_in (opened (sample_doc 3) init_viewer) =
     (Returned,
      (opened (sample_doc 3) init_viewer)
        \<lparr>zoom := Finite (5 / 4),
         label := Some (QPixmap_fromImage (QImage [0, 0, 0] 1 1 3 Format_RGB888)),
         page_label := ''Page: 1 / 3''\<rparr>)"
  using zoom_in_scales [of "opened (sample_doc 3) init_viewer" "sample_doc 3"
      "QImage [0, 0, 0] 1 1 3 Format_RGB888"]
  by (simp add: sample_defs render_page_def page_text_def fmul_five_quarters
      del: fmul.simps(1))

text \<open>
  C22. With a document open and a zoom above 0.5, \<^verbatim>\<open>zoom_out\<close> divides the zoom by
  1.25 in binary64 arithmetic and shows the current page at the new zoom.  The guard
  looks at the zoom before the division, never at the result.
\<close>

theorem zoom_out_scales:
  assumes "doc s = Some d" and "doc_truth d" and "fgt (zoom s) (Finite (1 / 2))"
    and "render_page d (current_page s) (fdiv (zoom s) (Finite (5 / 4))) = Inr img"
  shows "zoom_out s =
     (Returned,
      s\<lparr>zoom := fdiv (zoom s) (Finite (5 / 4)), label := Some (QPixmap_fromImage img),
        page_label := page_text (current_page s) (page_count s)\<rparr>)"
  using assms by (simp add: zoom_out_def show_page_def)

theorem zoom_out_scales_witness:
  "zoom_out (opened (sample_doc 3) init_viewer) =
     (Returned,
      (opened (sample_doc 3) init_viewer)
        \<lparr>zoom := Finite (3602879701896397 / 4503599627370496),
         label := Some (QPixmap_fromImage (QImage [0, 0, 0] 1 1 3 Format_RGB888)),
         page_label := ''Page: 1 / 3''\<rparr>)"
  using zoom_out_scales [of "opened (sample_doc 3) init_viewer" "sample_doc 3"
      "QImage [0, 0, 0] 1 1 3 Format_RGB888"]
  by (simp add: sample_defs render_page_def page_text_def fdiv_trace del: fdiv.simps(1))

section \<open>The page indicator\<close>

text \<open>
  The text of the page indicator determines the page index and the page count it
  was made from: two indicators are equal only for the same index and the same count.
\<close>

theorem page_text_inj: "page_text c n = page_text c' n' \<longleftrightarrow> c = c' \<and> n = n'"
proof
  assume "page_text c n = page_text c' n'"
  then have "str_int (c + 1) @ CHR '' '' # (''/ '' @ str_int n) =
      str_int (c' + 1) @ CHR '' '' # (''/ '' @ str_int n')"
    by (simp add: page_text_def)
  then have "str_int (c + 1) = str_int (c' + 1) \<and> ''/ '' @ str_int n = ''/ '' @ str_int n'"
    by (simp only: append_Cons_eq_first [OF str_int_no_space str_int_no_space])
  then show "c = c' \<and> n = n'" by (auto dest: str_int_inj)
qed simp

end
