(* ===== verification/Events.thy ===== *)
theory Events
  imports Viewer
begin

text \<open>
  The wiring that \<^verbatim>\<open>PDFViewer.__init__\<close> sets up (lines 14 to 65 of
  \<^verbatim>\<open>src/PDFViewer1/pdf_viewer.py\<close>): the window, the five buttons and the page
  indicator in the toolbar, and the table that binds a click on a button or a
  keyboard shortcut to a method.  On top of it, the viewer as a state machine: an
  event calls the method it is bound to, a step is any such call under any answer of
  the file dialog and any behaviour of the library, and the reachable states are
  those that steps lead to from the state after \<^verbatim>\<open>__init__\<close>.  A run handles a list
  of events, each with the path that the dialog would return; \<open>answered\<close> makes
  such a list from the answers of the user.  Strings are the bytes of the source
  file, which is UTF-8: an arrow on a button is three bytes.
\<close>

section \<open>The window and its toolbar\<close>

definition window_title :: string where
  "window_title = ''Python PDF Viewer''"

definition window_size :: "int \<times> int" where
  "window_size = (900, 700)"

datatype button = open_btn | prev_btn | next_btn | zoom_in_btn | zoom_out_btn

fun button_text :: "button \<Rightarrow> string" where
  "button_text open_btn = ''Open PDF''"
| "button_text prev_btn = [CHR 0xE2, CHR 0x86, CHR 0x90] @ '' Prev''"
| "button_text next_btn = ''Next '' @ [CHR 0xE2, CHR 0x86, CHR 0x92]"
| "button_text zoom_in_btn = ''Zoom In''"
| "button_text zoom_out_btn = ''Zoom Out''"

text \<open>The list that the loop of lines 31 and 32 adds to the toolbar, in its order.\<close>

definition toolbar_buttons :: "button list" where
  "toolbar_buttons = [open_btn, prev_btn, next_btn, zoom_in_btn, zoom_out_btn]"

text \<open>
  The same list is the enumeration of the type, so that statements about all buttons
  can be evaluated.
\<close>

instantiation button :: enum
begin

definition enum_button :: "button list" where
  "enum_button = toolbar_buttons"

definition enum_all_button :: "(button \<Rightarrow> bool) \<Rightarrow> bool" where
  "enum_all_button P \<longleftrightarrow> list_all P [open_btn, prev_btn, next_btn, zoom_in_btn, zoom_out_btn]"

definition enum_ex_button :: "(button \<Rightarrow> bool) \<Rightarrow> bool" where
  "enum_ex_button P \<longleftrightarrow> list_ex P [open_btn, prev_btn, next_btn, zoom_in_btn, zoom_out_btn]"

instance
proof
  show univ: "(UNIV :: button set) = set enum_class.enum"
    by (auto simp: enum_button_def toolbar_buttons_def intro: button.exhaust)
  show "distinct (enum_class.enum :: button list)" by (simp add: enum_button_def toolbar_buttons_def)
  show "enum_class.enum_all P = Ball (UNIV :: button set) P" for P
    unfolding univ by (simp add: enum_all_button_def enum_button_def toolbar_buttons_def)
  show "enum_class.enum_ex P = Bex (UNIV :: button set) P" for P
    unfolding univ by (simp add: enum_ex_button_def enum_button_def toolbar_buttons_def)
qed

end

text \<open>The toolbar from left to right (lines 31 to 37).\<close>

datatype toolbar_item = Button button | Stretch | Page_label

definition topbar :: "toolbar_item list" where
  "topbar = map Button toolbar_buttons @ [Stretch, Page_label]"

text \<open>
  The window from top to bottom (lines 20 to 22 and 40 to 46): the toolbar, and a
  scroll area that resizes its widget, the centred label that shows the page.
\<close>

datatype alignment = AlignCenter

datatype layout_item = HBox "toolbar_item list" | ScrollArea bool alignment

definition window_layout :: "layout_item list" where
  "window_layout = [HBox topbar, ScrollArea True AlignCenter]"

section \<open>Signals and slots\<close>

text \<open>
  The five methods a signal can be connected to, the \<^verbatim>\<open>clicked.connect\<close> calls of
  lines 55 to 59 and the four \<^verbatim>\<open>QShortcut\<close>s of lines 62 to 65.
\<close>

datatype slot = Open_pdf | Prev_page | Next_page | Zoom_in | Zoom_out

fun clicked :: "button \<Rightarrow> slot" where
  "clicked open_btn = Open_pdf"
| "clicked prev_btn = Prev_page"
| "clicked next_btn = Next_page"
| "clicked zoom_in_btn = Zoom_in"
| "clicked zoom_out_btn = Zoom_out"

datatype shortcut = Key_Right | Key_Left | Key_Ctrl_Plus | Key_Ctrl_Minus

fun key_sequence :: "shortcut \<Rightarrow> string" where
  "key_sequence Key_Right = ''Right''"
| "key_sequence Key_Left = ''Left''"
| "key_sequence Key_Ctrl_Plus = ''Ctrl++''"
| "key_sequence Key_Ctrl_Minus = ''Ctrl+-''"

fun activated :: "shortcut \<Rightarrow> slot" where
  "activated Key_Right = Next_page"
| "activated Key_Left = Prev_page"
| "activated Key_Ctrl_Plus = Zoom_in"
| "activated Key_Ctrl_Minus = Zoom_out"

text \<open>
  The window that \<^verbatim>\<open>__init__\<close> leaves (lines 14 to 65): its title and size, the
  widgets from top to bottom, the \<^verbatim>\<open>clicked.connect\<close> calls and the shortcuts in
  the order of the source, each with the method it is bound to, and the attributes.
\<close>

record window =
  win_title :: string
  win_size :: "int \<times> int"
  win_layout :: "layout_item list"
  win_clicked :: "(button \<times> slot) list"
  win_shortcuts :: "(string \<times> slot) list"
  win_attrs :: viewer

definition new_window :: window where
  "new_window =
     \<lparr>win_title = window_title, win_size = window_size, win_layout = window_layout,
      win_clicked = map (\<lambda>b. (b, clicked b)) toolbar_buttons,
      win_shortcuts =
        map (\<lambda>k. (key_sequence k, activated k))
          [Key_Right, Key_Left, Key_Ctrl_Plus, Key_Ctrl_Minus],
      win_attrs = init_viewer\<rparr>"

datatype event = Clicked button | Activated shortcut

fun slot_of :: "event \<Rightarrow> slot" where
  "slot_of (Clicked b) = clicked b"
| "slot_of (Activated k) = activated k"

section \<open>Dispatch\<close>

text \<open>
  Calling a slot.  \<open>lib\<close> is \<^verbatim>\<open>fitz.open\<close> and \<open>path\<close> what the file dialog answers;
  only \<^verbatim>\<open>open_pdf\<close> looks at them.
\<close>

fun call_slot :: "fitz \<Rightarrow> string \<Rightarrow> slot \<Rightarrow> viewer \<Rightarrow> outcome \<times> viewer" where
  "call_slot lib path Open_pdf s = open_pdf lib path s"
| "call_slot lib path Prev_page s = prev_page s"
| "call_slot lib path Next_page s = next_page s"
| "call_slot lib path Zoom_in s = zoom_in s"
| "call_slot lib path Zoom_out s = zoom_out s"

definition handle :: "fitz \<Rightarrow> string \<Rightarrow> event \<Rightarrow> viewer \<Rightarrow> outcome \<times> viewer" where
  "handle lib path ev s = call_slot lib path (slot_of ev) s"

section \<open>The viewer as a state machine\<close>

text \<open>
  A step is the state change of one handler call.  The state after a call that raised
  is a state too: what happens to the exception is up to the event loop, the writes
  are done.
\<close>

inductive step :: "viewer \<Rightarrow> viewer \<Rightarrow> bool" where
  dispatch: "step s (snd (handle lib path ev s))"

inductive reachable :: "viewer \<Rightarrow> bool" where
  init: "reachable init_viewer"
| step: "reachable s \<Longrightarrow> step s t \<Longrightarrow> reachable t"

inductive_cases stepE: "step s t"

text \<open>A run over a list of events, each with the dialog's answer, against one library.\<close>

fun run :: "fitz \<Rightarrow> viewer \<Rightarrow> (event \<times> string) list \<Rightarrow> viewer" where
  "run lib s [] = s"
| "run lib s ((ev, path) # evs) = run lib (snd (handle lib path ev s)) evs"

text \<open>
  The same run under an event loop that does not survive an exception: it ends with the
  first call that raises, in the state that call left.  PyQt before version 5.5 prints
  the traceback of an exception that leaves a slot and goes on, which is \<open>run\<close>; from
  5.5 on it ends the process there, which is \<open>run_strict\<close>.
\<close>

fun run_strict :: "fitz \<Rightarrow> viewer \<Rightarrow> (event \<times> string) list \<Rightarrow> outcome \<times> viewer" where
  "run_strict lib s [] = (Returned, s)"
| "run_strict lib s ((ev, path) # evs) =
     (case handle lib path ev s of
        (Returned, t) \<Rightarrow> run_strict lib t evs
      | (Raised e, t) \<Rightarrow> (Raised e, t))"

text \<open>
  A session as the user sees it: every event with what the user would do with the
  file dialog if the event opened one.  \<open>answered\<close> gives the events with the paths
  that \<^verbatim>\<open>open_pdf\<close> reads from the dialog.
\<close>

definition answered :: "(event \<times> dialog_answer) list \<Rightarrow> (event \<times> string) list" where
  "answered evs = map (\<lambda>(ev, answer). (ev, chosen_path answer)) evs"

section \<open>Steps keep the invariant\<close>

lemma call_slot_inv: "viewer_inv s \<Longrightarrow> viewer_inv (snd (call_slot lib path sl s))"
  by (cases sl) (simp_all add: inv_intros)

lemma handle_inv: "viewer_inv s \<Longrightarrow> viewer_inv (snd (handle lib path ev s))"
  by (simp add: handle_def call_slot_inv)

lemma step_inv: "step s t \<Longrightarrow> viewer_inv s \<Longrightarrow> viewer_inv t"
  by (auto elim!: stepE intro: handle_inv)

lemma reachable_inv: "reachable s \<Longrightarrow> viewer_inv s"
  by (induction rule: reachable.induct) (auto intro: viewer_inv_init step_inv)

text \<open>
  Induction over the reachable states by handler: a property of the initial state that
  every method keeps, for every library and dialog answer, holds in all of them.
\<close>

lemma reachable_handlers_induct [consumes 1, case_names init open_pdf prev_page next_page
    zoom_in zoom_out]:
  assumes "reachable s" and "P init_viewer"
    and "\<And>s lib path. reachable s \<Longrightarrow> P s \<Longrightarrow> P (snd (open_pdf lib path s))"
    and "\<And>s. reachable s \<Longrightarrow> P s \<Longrightarrow> P (snd (prev_page s))"
    and "\<And>s. reachable s \<Longrightarrow> P s \<Longrightarrow> P (snd (next_page s))"
    and "\<And>s. reachable s \<Longrightarrow> P s \<Longrightarrow> P (snd (zoom_in s))"
    and "\<And>s. reachable s \<Longrightarrow> P s \<Longrightarrow> P (snd (zoom_out s))"
  shows "P s"
  using assms(1)
proof (induction rule: reachable.induct)
  case init
  show ?case by (rule assms(2))
next
  case (step s t)
  from step.hyps(2) obtain lib path ev where "t = snd (handle lib path ev s)"
    by (rule stepE)
  with step.hyps(1) step.IH assms(3-7) show ?case
    by (cases "slot_of ev") (simp_all add: handle_def)
qed

lemma reachable_handle: "reachable s \<Longrightarrow> reachable (snd (handle lib path ev s))"
  by (blast intro: reachable.step step.dispatch)

lemma reachable_run: "reachable s \<Longrightarrow> reachable (run lib s evs)"
  by (induction lib s evs rule: run.induct) (simp_all add: reachable_handle)

lemma run_append: "run lib s (evs @ evs') = run lib (run lib s evs) evs'"
  by (induction evs arbitrary: s) auto

lemma run_inv: "viewer_inv s \<Longrightarrow> viewer_inv (run lib s evs)"
  by (induction lib s evs rule: run.induct) (simp_all add: handle_inv)

text \<open>Only \<^verbatim>\<open>open_pdf\<close> opens the dialog: the other handlers do not depend on the answer.\<close>

lemma handle_answer:
  "slot_of ev \<noteq> Open_pdf \<Longrightarrow> handle lib path ev s = handle lib [] ev s"
  by (cases "slot_of ev") (simp_all add: handle_def)

lemma answered_simps [simp]:
  "answered [] = []" "answered ((ev, answer) # evs) = (ev, chosen_path answer) # answered evs"
  by (simp_all add: answered_def)

lemma run_answered_dismissed:
  "run lib s (answered [(Clicked open_btn, Dismissed)]) = s"
  by (simp add: handle_def)

text \<open>
  The strict loop handles a prefix of the events as the lenient one does, and all of
  them when no call raises.
\<close>

lemma run_strict_prefix:
  "\<exists>n\<le>length evs. snd (run_strict lib s evs) = run lib s (take n evs) \<and>
     (fst (run_strict lib s evs) = Returned \<longrightarrow> n = length evs)"
proof (induction lib s evs rule: run_strict.induct)
  case (1 lib s)
  then show ?case by simp
next
  case (2 lib s ev path evs)
  show ?case
  proof (cases "handle lib path ev s")
    case (Pair r t)
    show ?thesis
    proof (cases r)
      case Returned
      with 2 Pair obtain n where "n \<le> length evs"
        "snd (run_strict lib t evs) = run lib t (take n evs)"
        "fst (run_strict lib t evs) = Returned \<longrightarrow> n = length evs" by auto
      with Pair Returned show ?thesis by (intro exI [of _ "Suc n"]) simp
    next
      case (Raised e)
      with Pair show ?thesis by (intro exI [of _ 1]) simp
    qed
  qed
qed

lemma run_strict_Returned:
  "fst (run_strict lib s evs) = Returned \<Longrightarrow> snd (run_strict lib s evs) = run lib s evs"
  using run_strict_prefix [of evs lib s] by auto

lemma reachable_run_strict: "reachable s \<Longrightarrow> reachable (snd (run_strict lib s evs))"
  using run_strict_prefix [of evs lib s] by (auto simp: reachable_run)

section \<open>The controls\<close>

lemma UNIV_button: "UNIV = {open_btn, prev_btn, next_btn, zoom_in_btn, zoom_out_btn}"
  by (simp add: UNIV_enum enum_button_def toolbar_buttons_def)

lemma UNIV_slot: "UNIV = {Open_pdf, Prev_page, Next_page, Zoom_in, Zoom_out}"
  by (auto intro: slot.exhaust)

lemma UNIV_shortcut: "UNIV = {Key_Right, Key_Left, Key_Ctrl_Plus, Key_Ctrl_Minus}"
  by (auto intro: shortcut.exhaust)

text \<open>
  The controls cover the methods: the toolbar holds each of the five buttons once,
  in the order of the source, and each is connected once; the buttons and the five
  methods correspond one to one; the four shortcuts have four different key sequences
  and are bound to four different methods, all but \<^verbatim>\<open>open_pdf\<close>.
\<close>

theorem controls_cover_methods:
  "[b. Button b \<leftarrow> topbar] = toolbar_buttons \<and>
   distinct toolbar_buttons \<and> set toolbar_buttons = UNIV \<and>
   map fst (win_clicked new_window) = toolbar_buttons \<and> bij clicked \<and>
   distinct (map fst (win_shortcuts new_window)) \<and>
   inj activated \<and> range activated = UNIV - {Open_pdf}"
  by (auto simp: topbar_def toolbar_buttons_def new_window_def bij_betw_def UNIV_button UNIV_slot
      UNIV_shortcut)

section \<open>Dispatch: what the controls do\<close>

text \<open>
  Each keyboard shortcut does exactly what its button does: Right and the next
  button, Left and the previous button, Ctrl++ and the zoom-in button, Ctrl+- and the
  zoom-out button run the same handler, so they agree on every state, library and
  outcome.
\<close>

theorem shortcuts_agree_with_buttons:
  "handle lib path (Activated Key_Right) = handle lib path (Clicked next_btn) \<and>
   handle lib path (Activated Key_Left) = handle lib path (Clicked prev_btn) \<and>
   handle lib path (Activated Key_Ctrl_Plus) = handle lib path (Clicked zoom_in_btn) \<and>
   handle lib path (Activated Key_Ctrl_Minus) = handle lib path (Clicked zoom_out_btn)"
  by (simp add: handle_def fun_eq_iff)

text \<open>
  Without a document, every control but the open button is inert: the handler
  returns and the state is unchanged, for the four shortcuts and the four other
  buttons.
\<close>

theorem empty_state_ignores:
  assumes "doc s = None" and "ev \<noteq> Clicked open_btn"
  shows "handle lib path ev s = (Returned, s)"
proof (cases ev)
  case (Clicked b)
  with assms show ?thesis by (cases b) (simp_all add: handle_def viewer_defs)
next
  case (Activated k)
  with assms show ?thesis by (cases k) (simp_all add: handle_def viewer_defs)
qed

theorem empty_state_ignores_witness:
  "handle sample_lib ''a.pdf'' (Activated Key_Ctrl_Plus) init_viewer = (Returned, init_viewer)"
  using empty_state_ignores [of init_viewer "Activated Key_Ctrl_Plus" sample_lib "''a.pdf''"]
  by (simp add: init_viewer_def)

text \<open>
  A document, once loaded, is only ever replaced by another document: no step of
  the viewer goes back to the state without a document, whether the handler returns
  or raises.
\<close>

theorem document_never_unloaded:
  assumes "step s t" and "doc s \<noteq> None"
  shows "doc t \<noteq> None"
  using assms
proof (cases rule: step.cases)
  case (dispatch lib path ev)
  show ?thesis
  proof (cases "slot_of ev")
    case Open_pdf
    with dispatch assms(2) show ?thesis
      by (cases "lib path") (auto simp: handle_def open_pdf_def open_body_def)
  qed (use dispatch assms(2) in \<open>simp_all add: handle_def\<close>)
qed

theorem document_never_unloaded_witness:
  "doc (snd (handle sample_lib ''missing.pdf'' (Clicked open_btn)
     (opened (sample_doc 3) init_viewer))) \<noteq> None"
  using document_never_unloaded [OF step.dispatch,
      of "opened (sample_doc 3) init_viewer" sample_lib "''missing.pdf''" "Clicked open_btn"]
  by simp

end
