(* ===== verification/Scenarios.thy ===== *)
theory Scenarios
  imports Events
begin

text \<open>
  Two sessions of the viewer against the sample library of \<open>Fitz\<close>, evaluated: the
  scenario that the specification gives as a test (section 8 of \<^verbatim>\<open>spec.md\<close>), and a
  session that touches every control.  The closed instances of the theorems on
  reachable states and on runs are taken at these sessions.
\<close>

section \<open>The sessions\<close>

text \<open>
  The scenario of the specification (section 8): open a document of three pages, go
  forward three times, zoom in once, zoom out five times.
\<close>

definition spec_scenario :: "(event \<times> string) list" where
  "spec_scenario =
     [(Clicked open_btn, ''a.pdf''), (Clicked next_btn, []), (Activated Key_Right, []),
      (Clicked next_btn, []), (Clicked zoom_in_btn, []), (Clicked zoom_out_btn, []),
      (Activated Key_Ctrl_Minus, []), (Clicked zoom_out_btn, []),
      (Activated Key_Ctrl_Minus, []), (Clicked zoom_out_btn, [])]"

text \<open>
  A session that presses next before anything is open, opens the document, goes
  forward three times (the third press is on the last page), back once, cancels an
  open dialog and zooms in.
\<close>

definition browse_trace :: "(event \<times> string) list" where
  "browse_trace =
     [(Clicked next_btn, []), (Clicked open_btn, ''a.pdf''), (Activated Key_Right, []),
      (Clicked next_btn, []), (Activated Key_Right, []), (Clicked prev_btn, []),
      (Clicked open_btn, []), (Activated Key_Ctrl_Plus, [])]"

lemmas run_eval =
  handle_def viewer_defs sample_defs render_page_def page_text_def init_viewer_def opened_def

lemma run_browse_trace:
  "run sample_lib init_viewer browse_trace =
     \<lparr>page_label = ''Page: 2 / 3'',
      label = Some (QPixmap_fromImage (QImage [0, 0, 0] 1 1 3 Format_RGB888)),
      doc = Some (sample_doc 3), page_count = 3, current_page = 1, zoom = Finite (5 / 4),
      messages = []\<rparr>"
  by (simp add: browse_trace_def run_eval fmul_five_quarters del: fmul.simps(1))

lemma reachable_browse_trace: "reachable (run sample_lib init_viewer browse_trace)"
  by (rule reachable_run [OF reachable.init])

lemma viewer_inv_sample [simp]: "viewer_inv (opened (sample_doc 3) init_viewer)"
  by (rule viewer_inv_opened)

lemma is_double_trace [simp]:
  "is_double (5 / 4)" "is_double (3602879701896397 / 4503599627370496)"
  "is_double (5764607523034235 / 9007199254740992)"
  "is_double (1152921504606847 / 2251799813685248)"
  "is_double (7378697629483821 / 18014398509481984)"
  using is_float_fmul [of "Finite 1" "Finite (5 / 4)"]
    is_float_fdiv [of "Finite 1" "Finite (5 / 4)"]
    is_float_fdiv [of "Finite (3602879701896397 / 4503599627370496)" "Finite (5 / 4)"]
    is_float_fdiv [of "Finite (5764607523034235 / 9007199254740992)" "Finite (5 / 4)"]
    is_float_fdiv [of "Finite (1152921504606847 / 2251799813685248)" "Finite (5 / 4)"]
  by (simp_all only: fmul_five_quarters fdiv_trace is_float.simps)

end
