(* ===== verification/Session.thy ===== *)
theory Session
  imports Scenarios
begin

text \<open>
  The Document Session that the specification describes (section 4.1 of
  \<^verbatim>\<open>spec.md\<close>), as an abstract state machine, and the sense in which the handlers of
  \<^verbatim>\<open>PDFViewer\<close> implement it.  The abstract state forgets the document handle, the
  widgets and the dialogs; an abstract action is what the specification calls
  \<^verbatim>\<open>open\<close>, \<^verbatim>\<open>advance\<close> and \<^verbatim>\<open>setZoom\<close>.  The refinement theorem says that a handler
  call changes the abstract state as the action it stands for does, and names the two
  cases in which it does not.
\<close>

section \<open>The abstract session\<close>

text \<open>
  \<open>Empty\<close> is the state without a document, \<open>Loaded n i z\<close> a document of \<open>n\<close>
  pages at page index \<open>i\<close> and zoom \<open>z\<close>.
\<close>

datatype session = Empty | Loaded int int pyfloat

text \<open>
  \<^verbatim>\<open>advance(delta)\<close> moves the index if the result stays within \<open>[0, pageCount)\<close>; it
  does nothing otherwise and in \<open>Empty\<close>.
\<close>

fun advance :: "int \<Rightarrow> session \<Rightarrow> session" where
  "advance k Empty = Empty"
| "advance k (Loaded n i z) = (if 0 \<le> i + k \<and> i + k < n then Loaded n (i + k) z else Loaded n i z)"

text \<open>
  \<^verbatim>\<open>setZoom\<close>: zooming in multiplies by 1.25; zooming out divides by 1.25 and is
  rejected if the result would be below 0.5.
\<close>

fun zoom_in_session :: "session \<Rightarrow> session" where
  "zoom_in_session Empty = Empty"
| "zoom_in_session (Loaded n i z) = Loaded n i (fmul z (Finite (5 / 4)))"

fun zoom_out_session :: "session \<Rightarrow> session" where
  "zoom_out_session Empty = Empty"
| "zoom_out_session (Loaded n i z) =
     (if fle (Finite (1 / 2)) (fdiv z (Finite (5 / 4))) then Loaded n i (fdiv z (Finite (5 / 4)))
      else Loaded n i z)"

text \<open>
  \<^verbatim>\<open>open\<close>: a success installs the document's page count and resets index and zoom; a
  failure leaves the state as it was.
\<close>

datatype action = Open_ok int | Open_failed | Advance int | Zoom_in_step | Zoom_out_step | Skip

fun apply_action :: "action \<Rightarrow> session \<Rightarrow> session" where
  "apply_action (Open_ok n) t = Loaded n 0 (Finite 1)"
| "apply_action Open_failed t = t"
| "apply_action (Advance k) t = advance k t"
| "apply_action Zoom_in_step t = zoom_in_session t"
| "apply_action Zoom_out_step t = zoom_out_session t"
| "apply_action Skip t = t"

section \<open>Abstraction\<close>

text \<open>
  The abstract state of a window.  A document that is false as a Python value counts
  as no document: the handlers treat it so.
\<close>

definition session_of :: "viewer \<Rightarrow> session" where
  "session_of s =
     (if truthy (doc s) then Loaded (page_count s) (current_page s) (zoom s) else Empty)"

text \<open>
  The action that a slot stands for, given what the file dialog and the library
  answer: a cancelled dialog is no action, an \<^verbatim>\<open>Exception\<close> of \<^verbatim>\<open>fitz.open\<close> a failed
  open.  Exceptions of \<^verbatim>\<open>fitz.open\<close> that are no \<^verbatim>\<open>Exception\<close> do not change the state
  either.
\<close>

fun action_of :: "fitz \<Rightarrow> string \<Rightarrow> slot \<Rightarrow> action" where
  "action_of lib path Open_pdf =
     (if path = [] then Skip
      else case lib path of Inl e \<Rightarrow> Open_failed | Inr d \<Rightarrow> Open_ok (doc_page_count d))"
| "action_of lib path Prev_page = Advance (- 1)"
| "action_of lib path Next_page = Advance 1"
| "action_of lib path Zoom_in = Zoom_in_step"
| "action_of lib path Zoom_out = Zoom_out_step"

text \<open>
  The two ways in which a call leaves the specification: the library hands back a
  document that is false as a Python value, and a zoom-out whose result is below 0.5.
\<close>

definition opens_falsy :: "fitz \<Rightarrow> string \<Rightarrow> slot \<Rightarrow> bool" where
  "opens_falsy lib path sl \<longleftrightarrow>
     sl = Open_pdf \<and> path \<noteq> [] \<and> (case lib path of Inl e \<Rightarrow> False | Inr d \<Rightarrow> \<not> doc_truth d)"

definition zooms_below_half :: "slot \<Rightarrow> viewer \<Rightarrow> bool" where
  "zooms_below_half sl s \<longleftrightarrow>
     sl = Zoom_out \<and> truthy (doc s) \<and> fgt (zoom s) (Finite (1 / 2)) \<and>
     \<not> fle (Finite (1 / 2)) (fdiv (zoom s) (Finite (5 / 4)))"

section \<open>Runs\<close>

text \<open>
  The actions that a list of events stands for, the abstract run over a list of
  actions, and the runs of the window on which neither exceptional case occurs.
\<close>

definition actions :: "fitz \<Rightarrow> (event \<times> string) list \<Rightarrow> action list" where
  "actions lib evs = map (\<lambda>(ev, path). action_of lib path (slot_of ev)) evs"

definition session_run :: "session \<Rightarrow> action list \<Rightarrow> session" where
  "session_run t as = foldl (\<lambda>t a. apply_action a t) t as"

fun well_behaved :: "fitz \<Rightarrow> viewer \<Rightarrow> (event \<times> string) list \<Rightarrow> bool" where
  "well_behaved lib s [] \<longleftrightarrow> True"
| "well_behaved lib s ((ev, path) # evs) \<longleftrightarrow>
     \<not> opens_falsy lib path (slot_of ev) \<and> \<not> zooms_below_half (slot_of ev) s \<and>
     well_behaved lib (snd (handle lib path ev s)) evs"

section \<open>Facts about the abstraction\<close>

lemma session_of_Empty [simp]: "\<not> truthy (doc s) \<Longrightarrow> session_of s = Empty"
  by (simp add: session_of_def)

lemma session_of_Loaded [simp]:
  "truthy (doc s) \<Longrightarrow> session_of s = Loaded (page_count s) (current_page s) (zoom s)"
  by (simp add: session_of_def)

lemma session_of_cong:
  "doc t = doc s \<Longrightarrow> page_count t = page_count s \<Longrightarrow> current_page t = current_page s \<Longrightarrow>
   zoom t = zoom s \<Longrightarrow> session_of t = session_of s"
  by (simp add: session_of_def)

lemma session_of_messages [simp]: "session_of (s\<lparr>messages := m\<rparr>) = session_of s"
  by (simp add: session_of_def)

lemma session_of_show_page [simp]: "session_of (snd (show_page s)) = session_of s"
  by (rule session_of_cong) simp_all

lemma session_of_next_page:
  "0 \<le> current_page s \<Longrightarrow> session_of (snd (next_page s)) = advance 1 (session_of s)"
  by (cases "truthy (doc s)") (auto simp: next_page_def session_of_def)

lemma session_of_prev_page:
  "current_page s = 0 \<or> current_page s < page_count s \<Longrightarrow>
   session_of (snd (prev_page s)) = advance (- 1) (session_of s)"
  by (cases "truthy (doc s)") (auto simp: prev_page_def session_of_def)

lemma session_of_zoom_in: "session_of (snd (zoom_in s)) = zoom_in_session (session_of s)"
  by (cases "truthy (doc s)") (auto simp: zoom_in_def session_of_def)

lemma fgt_half_if_quotient_ge:
  "fle (Finite (1 / 2)) (fdiv z (Finite (5 / 4))) \<Longrightarrow> is_float z \<Longrightarrow> fgt z (Finite (1 / 2))"
proof (cases z)
  case (Finite a)
  assume le: "fle (Finite (1 / 2)) (fdiv z (Finite (5 / 4)))" and "is_float z"
  show ?thesis
  proof (rule ccontr)
    assume "\<not> fgt z (Finite (1 / 2))"
    with Finite have "a / (5 / 4) \<le> 2 / 5" by simp
    then have "fle (round_double (a / (5 / 4))) (round_double (2 / 5))" by (rule round_double_mono)
    with le Finite have "fle (Finite (1 / 2)) (round_double (2 / 5))"
      by (auto intro: fle_trans)
    then show False by (simp add: round_double_two_fifths)
  qed
qed (simp_all add: signed_inf_def)

lemma session_of_zoom_out:
  assumes "is_float (zoom s)" and "\<not> zooms_below_half Zoom_out s"
  shows "session_of (snd (zoom_out s)) = zoom_out_session (session_of s)"
proof (cases "truthy (doc s)")
  case True
  show ?thesis
  proof (cases "fgt (zoom s) (Finite (1 / 2))")
    case gt: True
    with True assms(2) have "fle (Finite (1 / 2)) (fdiv (zoom s) (Finite (5 / 4)))"
      by (simp add: zooms_below_half_def)
    with True gt show ?thesis by (simp add: session_of_def zoom_out_def)
  next
    case False
    with assms(1) have "\<not> fle (Finite (1 / 2)) (fdiv (zoom s) (Finite (5 / 4)))"
      using fgt_half_if_quotient_ge by blast
    with True False show ?thesis by (simp add: zoom_out_def)
  qed
qed (simp add: zoom_out_def)

lemma session_of_open_pdf:
  assumes "\<not> opens_falsy lib path Open_pdf"
  shows "session_of (snd (open_pdf lib path s)) =
    apply_action (action_of lib path Open_pdf) (session_of s)"
proof (cases "path = []")
  case False
  show ?thesis
  proof (cases "lib path")
    case (Inl e)
    with False show ?thesis
      by (cases e) (simp_all add: open_pdf_def open_body_def)
  next
    case (Inr d)
    with False assms have "doc_truth d" by (simp add: opens_falsy_def)
    with False Inr show ?thesis
      by (simp add: open_pdf_resets [of path lib d] session_of_def)
  qed
qed simp

lemma zooms_below_half_simps [simp]:
  "\<not> zooms_below_half Open_pdf s" "\<not> zooms_below_half Next_page s"
  "\<not> zooms_below_half Prev_page s" "\<not> zooms_below_half Zoom_in s"
  by (simp_all add: zooms_below_half_def)

lemma opens_falsy_simps [simp]:
  "\<not> opens_falsy lib path Zoom_out" "\<not> opens_falsy lib path Next_page"
  "\<not> opens_falsy lib path Prev_page" "\<not> opens_falsy lib path Zoom_in"
  by (simp_all add: opens_falsy_def)

lemma session_of_call_slot:
  assumes "viewer_inv s" and "\<not> opens_falsy lib path sl" and "\<not> zooms_below_half sl s"
  shows "session_of (snd (call_slot lib path sl s)) =
    apply_action (action_of lib path sl) (session_of s)"
proof -
  note inv = viewer_invD [OF assms(1)]
  show ?thesis
  proof (cases sl)
    case Open_pdf
    with assms(2) show ?thesis by (simp add: session_of_open_pdf del: action_of.simps)
  next
    case Zoom_out
    with assms(3) inv(3) show ?thesis by (simp add: session_of_zoom_out)
  next
    case Prev_page
    with session_of_prev_page [OF inv(2)] show ?thesis by simp
  next
    case Next_page
    with session_of_next_page [OF inv(1)] show ?thesis by simp
  qed (simp add: session_of_zoom_in)
qed

section \<open>Refinement\<close>

text \<open>
  C13. Every handler implements the action of the specification it stands for: from a
  state that satisfies the invariant, the abstract state after the call is the
  abstract state before it changed by \<^verbatim>\<open>open\<close>, \<^verbatim>\<open>advance\<close> or \<^verbatim>\<open>setZoom\<close>, whether the
  handler returns or raises, unless the library opened a document that is false as a
  Python value or a zoom-out gives a result below 0.5.
\<close>

theorem handlers_refine_session:
  assumes "viewer_inv s" and "\<not> opens_falsy lib path (slot_of ev)"
    and "\<not> zooms_below_half (slot_of ev) s"
  shows "session_of (snd (handle lib path ev s)) =
    apply_action (action_of lib path (slot_of ev)) (session_of s)"
  using assms by (simp add: handle_def session_of_call_slot)

theorem handlers_refine_session_witness:
  "session_of (snd (handle sample_lib [] (Activated Key_Right) (opened (sample_doc 3) init_viewer))) =
     Loaded 3 1 (Finite 1)"
  using handlers_refine_session [of "opened (sample_doc 3) init_viewer" sample_lib "[]"
      "Activated Key_Right"]
  by (simp add: viewer_inv_opened sample_doc_def session_of_def)

text \<open>
  C14. A whole run of the window implements the run of the specification over the
  actions its events stand for, as long as neither exceptional case occurs on the way.
\<close>

theorem run_refines_session:
  assumes "viewer_inv s" and "well_behaved lib s evs"
  shows "session_of (run lib s evs) = session_run (session_of s) (actions lib evs)"
  using assms
proof (induction lib s evs rule: run.induct)
  case (2 lib s ev path evs)
  then show ?case
    by (simp add: actions_def session_run_def call_slot_inv handle_def session_of_call_slot
        del: action_of.simps)
qed (simp add: actions_def session_run_def)

theorem run_refines_session_witness:
  "session_run Empty (actions sample_lib browse_trace) = Loaded 3 1 (Finite (5 / 4)) \<and>
   session_of (run sample_lib init_viewer browse_trace) = Loaded 3 1 (Finite (5 / 4))"
proof -
  have wb: "well_behaved sample_lib init_viewer browse_trace"
    by (simp add: browse_trace_def run_eval opens_falsy_def zooms_below_half_def)
  have abs: "session_run Empty (actions sample_lib browse_trace) = Loaded 3 1 (Finite (5 / 4))"
    by (simp add: browse_trace_def actions_def session_run_def sample_lib_def sample_doc_def
        fmul_five_quarters del: fmul.simps(1))
  have init: "session_of init_viewer = Empty"
    by (simp add: session_of_def init_viewer_def)
  have "session_of (run sample_lib init_viewer browse_trace) =
      session_run (session_of init_viewer) (actions sample_lib browse_trace)"
    using viewer_inv_init wb by (rule run_refines_session)
  with init abs show ?thesis by (simp only: simp_thms)
qed

text \<open>
  C15. The zoom-out of the window implements the zoom-out of the specification exactly
  when the result is not below 0.5: for a zoom above 0.5 whose quotient by 1.25 rounds
  below 0.5 the window zooms and the specification does not.
\<close>

theorem zoom_out_refines_iff:
  assumes "is_float (zoom s)"
  shows "session_of (snd (zoom_out s)) = zoom_out_session (session_of s) \<longleftrightarrow>
    \<not> zooms_below_half Zoom_out s"
proof
  assume eq: "session_of (snd (zoom_out s)) = zoom_out_session (session_of s)"
  show "\<not> zooms_below_half Zoom_out s"
  proof
    assume w: "zooms_below_half Zoom_out s"
    then have "session_of (snd (zoom_out s)) = Loaded (page_count s) (current_page s)
        (fdiv (zoom s) (Finite (5 / 4)))"
      and "zoom_out_session (session_of s) = Loaded (page_count s) (current_page s) (zoom s)"
      by (simp_all add: zooms_below_half_def zoom_out_def session_of_def)
    with eq have "fdiv (zoom s) (Finite (5 / 4)) = zoom s" by simp
    with w show False by (auto simp: zooms_below_half_def dest: fgt_imp_fle)
  qed
qed (rule session_of_zoom_out [OF assms])

theorem zoom_out_refines_iff_witness:
  "zooms_below_half Zoom_out
     ((opened (sample_doc 3) init_viewer)\<lparr>zoom := Finite (1152921504606847 / 2251799813685248)\<rparr>) \<and>
   session_of (snd (zoom_out
     ((opened (sample_doc 3) init_viewer)\<lparr>zoom := Finite (1152921504606847 / 2251799813685248)\<rparr>))) \<noteq>
   zoom_out_session (session_of
     ((opened (sample_doc 3) init_viewer)\<lparr>zoom := Finite (1152921504606847 / 2251799813685248)\<rparr>))"
proof -
  have "zooms_below_half Zoom_out
     ((opened (sample_doc 3) init_viewer)\<lparr>zoom := Finite (1152921504606847 / 2251799813685248)\<rparr>)"
    by (simp add: zooms_below_half_def sample_doc_def fdiv_trace del: fdiv.simps(1))
  with zoom_out_refines_iff [of
      "(opened (sample_doc 3) init_viewer)\<lparr>zoom := Finite (1152921504606847 / 2251799813685248)\<rparr>"]
  show ?thesis by simp
qed


end
