(* ===== verification/Display.thy ===== *)
theory Display
  imports Scenarios
begin

text \<open>
  What the window shows against what the session holds.  The View Controller of the
  specification (section 4.2 of \<^verbatim>\<open>spec.md\<close>) promises that every action is followed by
  a render-and-display step; \<^verbatim>\<open>show_page\<close> of \<^verbatim>\<open>src/PDFViewer1/pdf_viewer.py\<close> is that
  step.  \<open>displayed\<close> says that the image is the rendering of the current page at
  the current zoom and that the indicator names the current page and the page count.
  The theorems say when a handler call establishes or keeps it, and the closed
  instances show the calls after which it fails.  \<open>holds_page\<close> is what holds of
  the widgets in every reachable state, in sync or not: image and indicator belong to
  one page that the library rendered.
\<close>

section \<open>Definitions\<close>

definition displayed :: "viewer \<Rightarrow> bool" where
  "displayed s \<longleftrightarrow>
     (case doc s of
        None \<Rightarrow> False
      | Some d \<Rightarrow>
          (case render_page d (current_page s) (zoom s) of
             Inl e \<Rightarrow> False
           | Inr img \<Rightarrow>
               label s = Some (QPixmap_fromImage img) \<and>
               page_label s = page_text (current_page s) (page_count s)))"

text \<open>
  The window is in sync when it shows the current page of a document that the
  handlers treat as loaded; without such a document nothing is required.
\<close>

definition in_sync :: "viewer \<Rightarrow> bool" where
  "in_sync s \<longleftrightarrow> \<not> truthy (doc s) \<or> displayed s"

text \<open>A call was quiet when it returned and showed no dialog.\<close>

definition quiet :: "viewer \<Rightarrow> outcome \<times> viewer \<Rightarrow> bool" where
  "quiet s r \<longleftrightarrow> fst r = Returned \<and> messages (snd r) = messages s"

fun quiet_run :: "fitz \<Rightarrow> viewer \<Rightarrow> (event \<times> string) list \<Rightarrow> bool" where
  "quiet_run lib s [] \<longleftrightarrow> True"
| "quiet_run lib s ((ev, path) # evs) \<longleftrightarrow>
     quiet s (handle lib path ev s) \<and> quiet_run lib (snd (handle lib path ev s)) evs"


section \<open>The display step\<close>

lemma displayed_show_page:
  assumes "truthy (doc s)" and "fst (show_page s) = Returned"
  shows "displayed (snd (show_page s))"
proof -
  from assms(1) obtain d where d: "doc s = Some d" "doc_truth d" by (auto simp: truthy_iff)
  with assms(2) show ?thesis
    by (cases "render_page d (current_page s) (zoom s)")
      (simp_all add: show_page_def displayed_def)
qed

lemma in_sync_show_page: "fst (show_page s) = Returned \<Longrightarrow> in_sync (snd (show_page s))"
  by (cases "truthy (doc s)") (simp_all add: in_sync_def displayed_show_page)

lemma in_sync_messages [simp]: "in_sync (s\<lparr>messages := m\<rparr>) = in_sync s"
  by (simp add: in_sync_def displayed_def split: option.split sum.split)

lemma in_sync_init: "in_sync init_viewer"
  by (simp add: in_sync_def init_viewer_def)

lemma quiet_self [simp]: "quiet s (Returned, s)"
  by (simp add: quiet_def)

lemma in_sync_guarded:
  assumes "in_sync s" and "fst (if b then show_page t else (Returned, s)) = Returned"
  shows "in_sync (snd (if b then show_page t else (Returned, s)))"
  using assms by (simp add: in_sync_show_page split: if_splits)

lemma in_sync_next_page: "in_sync s \<Longrightarrow> fst (next_page s) = Returned \<Longrightarrow> in_sync (snd (next_page s))"
  unfolding next_page_def by (rule in_sync_guarded)

lemma in_sync_prev_page: "in_sync s \<Longrightarrow> fst (prev_page s) = Returned \<Longrightarrow> in_sync (snd (prev_page s))"
  unfolding prev_page_def by (rule in_sync_guarded)

lemma in_sync_zoom_in: "in_sync s \<Longrightarrow> fst (zoom_in s) = Returned \<Longrightarrow> in_sync (snd (zoom_in s))"
  unfolding zoom_in_def by (rule in_sync_guarded)

lemma in_sync_zoom_out: "in_sync s \<Longrightarrow> fst (zoom_out s) = Returned \<Longrightarrow> in_sync (snd (zoom_out s))"
  by (cases "truthy (doc s) \<and> fgt (zoom s) (Finite (1 / 2))")
    (auto simp: zoom_out_def py_truediv_def in_sync_show_page)

lemma in_sync_open_pdf:
  assumes "in_sync s" and "quiet s (open_pdf lib path s)"
  shows "in_sync (snd (open_pdf lib path s))"
proof (cases "path = []")
  case False
  show ?thesis
  proof (cases "lib path")
    case (Inl e)
    with False assms show ?thesis by (cases e) (simp_all add: open_pdf_def open_body_def quiet_def)
  next
    case (Inr d)
    show ?thesis
    proof (cases "fst (show_page (opened d s))")
      case Returned
      then have "except_Exception (show_page (opened d s)) = show_page (opened d s)"
        by (cases "show_page (opened d s)") simp
      with False Inr Returned show ?thesis
        by (simp add: open_pdf_def open_body_def in_sync_show_page)
    next
      case (Raised e)
      then obtain t where t: "show_page (opened d s) = (Raised e, t)"
        by (cases "show_page (opened d s)") simp
      have "messages (snd (show_page (opened d s))) = messages s" by simp
      with t have "messages t = messages s" by simp
      with False Inr assms(2) t show ?thesis
        by (cases e) (simp_all add: open_pdf_def open_body_def quiet_def)
    qed
  qed
qed (use assms in simp)

lemma in_sync_call_slot:
  assumes "in_sync s" and "quiet s (call_slot lib path sl s)"
  shows "in_sync (snd (call_slot lib path sl s))"
  using assms
  by (cases sl)
    (simp_all add: in_sync_open_pdf in_sync_next_page in_sync_prev_page in_sync_zoom_in
      in_sync_zoom_out quiet_def)

section \<open>The window shows the session\<close>

text \<open>
  A handler call that returns without an error dialog leaves the window in sync:
  if the window showed the current page before the call (or no document was loaded),
  then after the call the image is the rendering of the current page at the current
  zoom and the indicator names the current page and the page count, whenever a
  document is loaded.
\<close>

theorem quiet_call_keeps_sync:
  assumes "in_sync s" and "quiet s (handle lib path ev s)"
  shows "in_sync (snd (handle lib path ev s))"
  using assms by (simp add: handle_def in_sync_call_slot)

theorem quiet_call_keeps_sync_witness:
  "in_sync (snd (handle sample_lib ''a.pdf'' (Clicked open_btn) init_viewer)) \<and>
   displayed (snd (handle sample_lib ''a.pdf'' (Clicked open_btn) init_viewer))"
  using quiet_call_keeps_sync [of init_viewer sample_lib "''a.pdf''" "Clicked open_btn"]
  by (simp add: in_sync_def quiet_def run_eval)

text \<open>
  C31. A session in which every call returns without an error dialog ends with the
  window in sync with the session state, however long it is.
\<close>

theorem quiet_run_in_sync:
  assumes "in_sync s" and "quiet_run lib s evs"
  shows "in_sync (run lib s evs)"
  using assms
proof (induction lib s evs rule: run.induct)
  case (2 lib s ev path evs)
  then show ?case by (simp add: handle_def in_sync_call_slot)
qed simp

theorem quiet_run_in_sync_witness:
  "quiet_run sample_lib init_viewer browse_trace \<and>
   displayed (run sample_lib init_viewer browse_trace)"
proof -
  have q: "quiet_run sample_lib init_viewer browse_trace"
    by (simp add: browse_trace_def quiet_def run_eval fmul_five_quarters del: fmul.simps(1))
  have "truthy (doc (run sample_lib init_viewer browse_trace))"
    by (simp add: run_browse_trace sample_doc_def)
  with quiet_run_in_sync [OF in_sync_init q] q show ?thesis by (simp add: in_sync_def)
qed

text \<open>
  An open that fails while rendering leaves the window out of sync, and quietly:
  after opening a document of three pages and then one whose pages do not load,
  \<^verbatim>\<open>open_pdf\<close> has returned both times, the session holds the second document, and the
  window still shows page 1 of 3 of the first.
\<close>

theorem failed_render_out_of_sync:
  "fst (open_pdf sample_lib ''locked.pdf'' (snd (open_pdf sample_lib ''a.pdf'' init_viewer))) =
     Returned \<and>
   in_sync (snd (open_pdf sample_lib ''a.pdf'' init_viewer)) \<and>
   \<not> in_sync
     (snd (open_pdf sample_lib ''locked.pdf'' (snd (open_pdf sample_lib ''a.pdf'' init_viewer)))) \<and>
   doc (snd (open_pdf sample_lib ''locked.pdf'' (snd (open_pdf sample_lib ''a.pdf'' init_viewer)))) =
     Some locked_doc \<and>
   page_label
     (snd (open_pdf sample_lib ''locked.pdf'' (snd (open_pdf sample_lib ''a.pdf'' init_viewer)))) =
     ''Page: 1 / 3''"
  by (simp add: in_sync_def displayed_def run_eval)

section \<open>What the widgets hold\<close>


lemma except_Exception_displayed [simp]:
  "displayed (snd (except_Exception r)) = displayed (snd r)"
  by (cases r rule: except_Exception.cases)
    (simp_all add: displayed_def split: option.split sum.split)






end
