(* ===== verification/Launcher.thy ===== *)
theory Launcher
  imports Events "HOL-Library.State_Monad"
begin

text \<open>
  \<^verbatim>\<open>launch_viewer\<close> and the \<^verbatim>\<open>__main__\<close> guard (lines 112 to 132 of
  \<^verbatim>\<open>src/PDFViewer1/pdf_viewer.py\<close>).  The launcher looks for a running
  \<^verbatim>\<open>QApplication\<close>, creates one if there is none, builds and shows the window, and
  enters the event loop through \<^verbatim>\<open>exec\<close> if the binding has that method and through
  \<^verbatim>\<open>exec_\<close> otherwise; a \<^verbatim>\<open>SystemExit\<close> from the loop is swallowed.  The calls go to
  one host, the Qt of the running interpreter, and change it: after the first launch an
  application exists.  The host is a record, every call is a computation in the state
  monad of the library over that record, and the launcher is the sequence of these
  calls, written as in the source.  The event loop is a function from the window's
  state to the way the loop ends and the state it leaves, and it starts from the
  attributes of the window that \<^verbatim>\<open>PDFViewer()\<close> builds.  The theorems give the outcome
  of a launch and show that any number of launches in one interpreter, a notebook cell
  that is run again, keeps to the rules of Qt: one application at most, and no widget
  before it.
\<close>

section \<open>The host environment\<close>

datatype qt_call =
  QApplication_instance | QApplication_new | PDFViewer_new | Widget_show | App_exec | App_exec'

text \<open>
  \<open>app_instance\<close>: an application object exists, so \<^verbatim>\<open>QApplication.instance()\<close>
  returns it (line 113); \<open>app_has_exec\<close>: \<^verbatim>\<open>hasattr(app, "exec")\<close> (line 123), a property
  of the binding; \<open>qt_calls\<close>: the calls made to Qt so far, oldest first.
\<close>

record qt =
  app_instance :: bool
  app_has_exec :: bool
  qt_calls :: "qt_call list"

type_synonym event_loop = "viewer \<Rightarrow> outcome \<times> viewer"

section \<open>The calls of the launcher\<close>

text \<open>Every call is recorded.\<close>

definition called :: "qt_call \<Rightarrow> (qt, unit) state" where
  "called c = State_Monad.update (\<lambda>q. q\<lparr>qt_calls := qt_calls q @ [c]\<rparr>)"

text \<open>\<^verbatim>\<open>QtWidgets.QApplication.instance()\<close> (line 113), read as a truth value in line 114.\<close>

definition qapp_instance :: "(qt, bool) state" where
  "qapp_instance = do {
     called QApplication_instance;
     q \<leftarrow> State_Monad.get;
     State_Monad.return (app_instance q)
   }"

text \<open>\<^verbatim>\<open>QtWidgets.QApplication(sys.argv)\<close> (line 115): from now on an application exists.\<close>

definition qapp_new :: "(qt, unit) state" where
  "qapp_new = do {
     called QApplication_new;
     State_Monad.update (\<lambda>q. q\<lparr>app_instance := True\<rparr>)
   }"

text \<open>\<^verbatim>\<open>PDFViewer()\<close> (line 117) and \<^verbatim>\<open>viewer.show()\<close> (line 118).\<close>

definition new_viewer :: "(qt, viewer) state" where
  "new_viewer = do {
     called PDFViewer_new;
     State_Monad.return (win_attrs new_window)
   }"

definition show_window :: "(qt, unit) state" where
  "show_window = called Widget_show"

text \<open>
  Lines 123 to 126: the loop is entered by the method the binding has, and runs on the
  window.
\<close>

definition enter_loop :: "event_loop \<Rightarrow> viewer \<Rightarrow> (qt, outcome \<times> viewer) state" where
  "enter_loop loop v = do {
     q \<leftarrow> State_Monad.get;
     called (if app_has_exec q then App_exec else App_exec');
     State_Monad.return (loop v)
   }"

text \<open>\<^verbatim>\<open>except SystemExit: pass\<close> (lines 127, 128).\<close>

fun except_SystemExit :: "outcome \<Rightarrow> outcome" where
  "except_SystemExit (Raised SystemExit) = Returned"
| "except_SystemExit r = r"

text \<open>
  The launcher (lines 112 to 128).  Its value is how the call ended and the state of
  the window when the loop was left.
\<close>

definition launch_viewer :: "event_loop \<Rightarrow> (qt, outcome \<times> viewer) state" where
  "launch_viewer loop = do {
     app \<leftarrow> qapp_instance;
     (if \<not> app then qapp_new else State_Monad.return ());
     viewer \<leftarrow> new_viewer;
     show_window;
     (r, v) \<leftarrow> enter_loop loop viewer;
     State_Monad.return (except_SystemExit r, v)
   }"

text \<open>
  Lines 131 and 132: the module calls the launcher when it is run as a script, and
  does nothing when it is imported.
\<close>

definition main_guard :: "string \<Rightarrow> event_loop \<Rightarrow> (qt, (outcome \<times> viewer) option) state" where
  "main_guard name loop =
     (if name = ''__main__'' then do { r \<leftarrow> launch_viewer loop; State_Monad.return (Some r) }
      else State_Monad.return None)"

section \<open>Event loops\<close>

text \<open>
  An event loop that delivers a list of events to the window, each with the answer
  the file dialog would give, and then ends as \<open>r\<close> says: it returns when the
  window is closed and raises \<^verbatim>\<open>SystemExit\<close> when the host calls \<^verbatim>\<open>sys.exit\<close>.
  \<open>deliver\<close> goes on after a handler that raised; \<open>deliver_strict\<close> ends there, with
  the exception of the handler.
\<close>

definition deliver :: "fitz \<Rightarrow> (event \<times> string) list \<Rightarrow> outcome \<Rightarrow> event_loop" where
  "deliver lib evs r v = (r, run lib v evs)"

definition deliver_strict :: "fitz \<Rightarrow> (event \<times> string) list \<Rightarrow> outcome \<Rightarrow> event_loop" where
  "deliver_strict lib evs r v =
     (case run_strict lib v evs of
        (Returned, t) \<Rightarrow> (r, t)
      | (Raised e, t) \<Rightarrow> (Raised e, t))"

section \<open>The launcher in closed form\<close>

text \<open>Lines 113 to 119: the calls before the loop is entered.\<close>

definition startup_calls :: "qt \<Rightarrow> qt_call list" where
  "startup_calls q =
     QApplication_instance # (if app_instance q then [] else [QApplication_new]) @
     [PDFViewer_new, Widget_show]"

text \<open>Lines 123 to 126: which method enters the loop.\<close>

definition exec_call :: "qt \<Rightarrow> qt_call" where
  "exec_call q = (if app_has_exec q then App_exec else App_exec')"

section \<open>The rules of Qt\<close>

text \<open>
  What Qt asks of a sequence of calls, given whether the binding has \<^verbatim>\<open>exec\<close> and
  whether an application exists at the start: a second \<^verbatim>\<open>QApplication\<close> must not be
  constructed, a widget can be constructed and shown only when an application exists,
  the loop can be entered only then, and \<^verbatim>\<open>exec\<close> only if the binding has it.
\<close>

fun qt_protocol :: "bool \<Rightarrow> bool \<Rightarrow> qt_call list \<Rightarrow> bool" where
  "qt_protocol h a [] \<longleftrightarrow> True"
| "qt_protocol h a (QApplication_instance # cs) \<longleftrightarrow> qt_protocol h a cs"
| "qt_protocol h a (QApplication_new # cs) \<longleftrightarrow> \<not> a \<and> qt_protocol h True cs"
| "qt_protocol h a (PDFViewer_new # cs) \<longleftrightarrow> a \<and> qt_protocol h a cs"
| "qt_protocol h a (Widget_show # cs) \<longleftrightarrow> a \<and> qt_protocol h a cs"
| "qt_protocol h a (App_exec # cs) \<longleftrightarrow> a \<and> h \<and> qt_protocol h a cs"
| "qt_protocol h a (App_exec' # cs) \<longleftrightarrow> a \<and> qt_protocol h a cs"

text \<open>
  A computation over the host keeps to the rules when, from every host, it only adds
  calls, leaves the binding as it is, has an application afterwards exactly when there
  was one or it made one, and the calls it adds are allowed from where it started.
\<close>

definition protocol_safe :: "(qt, 'a) state \<Rightarrow> bool" where
  "protocol_safe m \<longleftrightarrow>
     (\<forall>q. \<exists>cs. qt_calls (snd (run_state m q)) = qt_calls q @ cs \<and>
        app_has_exec (snd (run_state m q)) = app_has_exec q \<and>
        (app_instance (snd (run_state m q)) \<longleftrightarrow> app_instance q \<or> QApplication_new \<in> set cs) \<and>
        qt_protocol (app_has_exec q) (app_instance q) cs)"

text \<open>The launcher called once for each loop of a list, in the same interpreter.\<close>

definition launch_all :: "event_loop list \<Rightarrow> (qt, (outcome \<times> viewer) list) state" where
  "launch_all loops = State_Monad.traverse_list launch_viewer loops"

section \<open>Running the calls\<close>

lemma run_state_update [simp]: "run_state (State_Monad.update f) s = ((), f s)"
  by (simp add: State_Monad.update_def)

lemma run_state_called [simp]: "run_state (called c) q = ((), q\<lparr>qt_calls := qt_calls q @ [c]\<rparr>)"
  by (simp add: called_def)

lemmas launcher_defs =
  launch_viewer_def qapp_instance_def qapp_new_def new_viewer_def show_window_def enter_loop_def

text \<open>
  The sequence of calls is the closed form: the outcome of the loop with
  \<^verbatim>\<open>SystemExit\<close> swallowed, the window as the loop left it, an application in existence
  and the calls of \<open>startup_calls\<close> and \<open>exec_call\<close> added to the record.
\<close>

lemma run_state_launch_viewer:
  "run_state (launch_viewer loop) q =
     ((except_SystemExit (fst (loop init_viewer)), snd (loop init_viewer)),
      q\<lparr>app_instance := True, qt_calls := qt_calls q @ startup_calls q @ [exec_call q]\<rparr>)"
  by (simp add: launcher_defs new_window_def startup_calls_def exec_call_def split: prod.split)

lemma run_state_main_guard:
  "run_state (main_guard ''__main__'' loop) q =
     (Some (fst (run_state (launch_viewer loop) q)), snd (run_state (launch_viewer loop) q))"
  "name \<noteq> ''__main__'' \<Longrightarrow> run_state (main_guard name loop) q = (None, q)"
  by (simp_all add: main_guard_def split: prod.split)

lemma except_SystemExit_eq_Raised [simp]:
  "except_SystemExit r = Raised e \<longleftrightarrow> r = Raised e \<and> e \<noteq> SystemExit"
  by (cases r rule: except_SystemExit.cases) auto

lemma except_SystemExit_eq_Returned [simp]:
  "except_SystemExit r = Returned \<longleftrightarrow> r = Returned \<or> r = Raised SystemExit"
  by (cases r rule: except_SystemExit.cases) auto

lemma deliver_simps [simp]:
  "fst (deliver lib evs r v) = r" "snd (deliver lib evs r v) = run lib v evs"
  by (simp_all add: deliver_def)

lemma deliver_strict_Returned:
  "fst (run_strict lib v evs) = Returned \<Longrightarrow> deliver_strict lib evs r v = deliver lib evs r v"
  using run_strict_Returned [of lib v evs]
  by (cases "run_strict lib v evs") (auto simp: deliver_strict_def deliver_def)

section \<open>What the launcher does\<close>

text \<open>
  C39. The launcher never exits the interpreter: it returns when the event loop returns
  and when the loop raises \<^verbatim>\<open>SystemExit\<close>, and it raises exactly the other exceptions
  that the loop raises.
\<close>

theorem launch_viewer_outcome:
  "fst (fst (run_state (launch_viewer loop) q)) \<noteq> Raised SystemExit \<and>
   (fst (fst (run_state (launch_viewer loop) q)) = Returned \<longleftrightarrow>
      fst (loop init_viewer) = Returned \<or> fst (loop init_viewer) = Raised SystemExit) \<and>
   (fst (fst (run_state (launch_viewer loop) q)) = Raised KeyboardInterrupt \<longleftrightarrow>
      fst (loop init_viewer) = Raised KeyboardInterrupt) \<and>
   (fst (fst (run_state (launch_viewer loop) q)) = Raised (Exception msg) \<longleftrightarrow>
      fst (loop init_viewer) = Raised (Exception msg))"
  by (simp add: launcher_defs new_window_def split: prod.split)

text \<open>
  Whatever events the loop delivers and however it ends, the window that the launcher
  leaves behind is in a reachable state of the viewer, so it satisfies the state
  invariant; run as a script, the module does what the launcher does.
\<close>

lemma launched_window_reachable:
  "fst (run_state (main_guard ''__main__'' loop) q) = Some (fst (run_state (launch_viewer loop) q)) \<and>
   reachable (snd (fst (run_state (launch_viewer (deliver lib evs r)) q))) \<and>
   viewer_inv (snd (fst (run_state (launch_viewer (deliver lib evs r)) q)))"
  by (simp add: run_state_main_guard run_state_launch_viewer reachable_run reachable.init
      reachable_inv)

section \<open>Launching again\<close>

lemma qt_protocol_append:
  "qt_protocol h a (cs @ cs') \<longleftrightarrow>
     qt_protocol h a cs \<and> qt_protocol h (a \<or> QApplication_new \<in> set cs) cs'"
  by (induction h a cs rule: qt_protocol.induct) auto

lemma count_new_protocol:
  "qt_protocol h a cs \<Longrightarrow> count_list cs QApplication_new \<le> (if a then 0 else 1)"
  by (induction h a cs rule: qt_protocol.induct) (auto split: if_splits)

text \<open>
  Keeping to the rules is compositional: it holds of a sequence of computations that
  keep to them, so of a traversal of a list with one.
\<close>

lemma protocol_safe_return [simp]: "protocol_safe (State_Monad.return x)"
  by (simp add: protocol_safe_def)

lemma protocol_safeD:
  assumes "protocol_safe m"
  obtains cs where "qt_calls (snd (run_state m q)) = qt_calls q @ cs"
    and "app_has_exec (snd (run_state m q)) = app_has_exec q"
    and "app_instance (snd (run_state m q)) \<longleftrightarrow> app_instance q \<or> QApplication_new \<in> set cs"
    and "qt_protocol (app_has_exec q) (app_instance q) cs"
  using assms unfolding protocol_safe_def by blast

lemma protocol_safe_bind:
  assumes "protocol_safe m" and "\<And>x. protocol_safe (f x)"
  shows "protocol_safe (State_Monad.bind m f)"
  unfolding protocol_safe_def
proof
  fix q
  obtain x q' where m: "run_state m q = (x, q')" by (cases "run_state m q")
  from protocol_safeD [OF assms(1), of q] m obtain cs where cs: "qt_calls q' = qt_calls q @ cs"
    "app_has_exec q' = app_has_exec q"
    "app_instance q' \<longleftrightarrow> app_instance q \<or> QApplication_new \<in> set cs"
    "qt_protocol (app_has_exec q) (app_instance q) cs" by auto
  from protocol_safeD [OF assms(2), of x q'] obtain cs' where
    cs': "qt_calls (snd (run_state (f x) q')) = qt_calls q' @ cs'"
    "app_has_exec (snd (run_state (f x) q')) = app_has_exec q'"
    "app_instance (snd (run_state (f x) q')) \<longleftrightarrow> app_instance q' \<or> QApplication_new \<in> set cs'"
    "qt_protocol (app_has_exec q') (app_instance q') cs'" by blast
  let ?r = "snd (run_state (State_Monad.bind m f) q)"
  from m have r: "?r = snd (run_state (f x) q')" by simp
  have "qt_calls ?r = qt_calls q @ (cs @ cs')" using cs(1) cs'(1) r by simp
  moreover have "app_has_exec ?r = app_has_exec q" using cs(2) cs'(2) r by simp
  moreover have "app_instance ?r \<longleftrightarrow> app_instance q \<or> QApplication_new \<in> set (cs @ cs')"
    using cs(3) cs'(3) r by auto
  moreover have "qt_protocol (app_has_exec q) (app_instance q) (cs @ cs')"
    using cs(2,3,4) cs'(4) by (simp add: qt_protocol_append)
  ultimately show "\<exists>cs. qt_calls ?r = qt_calls q @ cs \<and> app_has_exec ?r = app_has_exec q \<and>
      (app_instance ?r \<longleftrightarrow> app_instance q \<or> QApplication_new \<in> set cs) \<and>
      qt_protocol (app_has_exec q) (app_instance q) cs" by blast
qed

lemma protocol_safe_traverse:
  assumes "\<And>x. protocol_safe (f x)"
  shows "protocol_safe (State_Monad.traverse_list f xs)"
  by (induction xs) (simp_all add: protocol_safe_bind assms)

text \<open>After a launch an application exists, whatever the loop did.\<close>

lemma app_instance_launch_viewer [simp]: "app_instance (snd (run_state (launch_viewer loop) q))"
  by (simp add: run_state_launch_viewer)

text \<open>
  Two launches in a fresh interpreter whose binding has \<^verbatim>\<open>exec\<close>: the application is
  made by the first and found by the second.
\<close>

lemma launch_twice:
  "qt_calls (snd (run_state (launch_all [loop, loop'])
     \<lparr>app_instance = False, app_has_exec = True, qt_calls = []\<rparr>)) =
   [QApplication_instance, QApplication_new, PDFViewer_new, Widget_show, App_exec,
    QApplication_instance, PDFViewer_new, Widget_show, App_exec]"
  by (simp add: launch_all_def run_state_launch_viewer startup_calls_def exec_call_def
      split: prod.split)

text \<open>
  C40. However often the launcher is called in one interpreter, with whatever event
  loops, whether or not an application existed before and whichever binding is
  installed, the calls it makes keep to the rules of Qt: \<^verbatim>\<open>QApplication\<close> is constructed
  at most once and never when an application exists, the window is built and shown
  and the loop entered only when one exists, and \<^verbatim>\<open>exec\<close> is called only when the
  binding has it.
\<close>

theorem launches_follow_protocol:
  "qt_protocol (app_has_exec q) (app_instance q)
     (qt_calls (snd (run_state (launch_all loops) (q\<lparr>qt_calls := []\<rparr>)))) \<and>
   count_list (qt_calls (snd (run_state (launch_all loops) (q\<lparr>qt_calls := []\<rparr>))))
     QApplication_new \<le> (if app_instance q then 0 else 1)"
proof -
  have "protocol_safe (launch_viewer loop)" for loop
    unfolding protocol_safe_def by (auto simp: launcher_defs split: prod.split)
  then have "protocol_safe (launch_all loops)"
    unfolding launch_all_def by (rule protocol_safe_traverse)
  from protocol_safeD [OF this, of "q\<lparr>qt_calls := []\<rparr>"]
  have p: "qt_protocol (app_has_exec q) (app_instance q)
      (qt_calls (snd (run_state (launch_all loops) (q\<lparr>qt_calls := []\<rparr>))))"
    by auto
  from p count_new_protocol [OF p] show ?thesis by simp
qed

end
