(* ===== verification/Rounding.thy ===== *)
theory Rounding
  imports PyFloat
begin

text \<open>
  How good the binary64 model of \<open>PyFloat\<close> is.  The operations on \<^verbatim>\<open>self.zoom\<close> in
  \<^verbatim>\<open>src/PDFViewer1/pdf_viewer.py\<close> (lines 102 and 107) round an exact product or
  quotient; this theory shows that \<open>round_double\<close> is rounding to nearest in the
  sense of IEEE 754: the result is a binary64 number closest to the exact value, its
  relative error in the normal range is at most \<open>2 powi (- 53)\<close>, and it is an
  infinity exactly from the midpoint between the largest finite number and
  \<open>2 powi 1024\<close> on.
\<close>

section \<open>Definitions\<close>

text \<open>The unit in the last place of the binade of a positive rational.\<close>

definition ulp :: "rat \<Rightarrow> rat" where
  "ulp a = 2 powi (max (ilog2 a) (- 1022) - 52)"

text \<open>
  The smallest magnitude that rounds to an infinity: the largest finite number,
  \<open>2 powi 1024 - 2 powi 971\<close>, plus half a unit.
\<close>

definition overflow_threshold :: rat where
  "overflow_threshold = overflow - 2 powi 970"

section \<open>Nearest integer\<close>

lemma abs_scaled: "0 < u \<Longrightarrow> \<bar>y * u - a\<bar> = \<bar>y - a / u\<bar> * u" for a u y :: rat
proof -
  assume u: "0 < u"
  then have "y * u - a = (y - a / u) * u" by (simp add: field_simps)
  with u show ?thesis by (simp add: abs_mult)
qed

lemma round_even_nearest: "\<bar>of_int (round_even x) - x\<bar> \<le> \<bar>of_int n - x\<bar>"
proof -
  let ?f = "\<lfloor>x\<rfloor>"
  have fx: "of_int ?f \<le> x" "x < of_int ?f + 1" by linarith+
  from round_even_cases [of x]
  have r: "of_int (round_even x) = (of_int ?f :: rat) \<or> of_int (round_even x) = (of_int ?f :: rat) + 1"
    by auto
  note e = round_even_error [of x]
  consider "n \<le> ?f" | "?f + 1 \<le> n" by linarith
  then show ?thesis
  proof cases
    case 1
    then have "(of_int n :: rat) \<le> of_int ?f" by (simp only: of_int_le_iff)
    with fx r e show ?thesis by linarith
  next
    case 2
    then have "(of_int ?f :: rat) + 1 \<le> of_int n"
      by (metis of_int_1 of_int_add of_int_le_iff)
    with fx r e show ?thesis by linarith
  qed
qed

section \<open>The error of a rounded magnitude\<close>

lemma ulp_pos [simp]: "0 < ulp a"
  by (simp add: ulp_def)

lemma ulp_nonneg [simp]: "0 \<le> ulp a"
  by (simp add: ulp_def)

lemma round_mag_ulp: "round_mag a = of_int (round_even (a / ulp a)) * ulp a"
  by (simp add: round_mag_unfold ulp_def)

lemma round_mag_error_int: "\<bar>round_mag a - a\<bar> \<le> \<bar>of_int n * ulp a - a\<bar>"
  unfolding round_mag_ulp abs_scaled [OF ulp_pos]
  by (intro mult_right_mono round_even_nearest) simp

lemma round_mag_error: "\<bar>round_mag a - a\<bar> \<le> ulp a / 2"
proof -
  have "\<bar>round_mag a - a\<bar> \<le> 1 / 2 * ulp a"
    unfolding round_mag_ulp abs_scaled [OF ulp_pos]
    by (intro mult_right_mono round_even_error) simp
  then show ?thesis by simp
qed

text \<open>In the normal range the unit is at most \<open>2 powi (- 52)\<close> times the number.\<close>

lemma ulp_le_rel:
  assumes "2 powi (- 1022) \<le> a"
  shows "ulp a \<le> a * 2 powi (- 52)"
proof -
  from assms have a: "0 < a" by (rule less_le_trans [OF pow2_pos])
  with assms have "- 1022 \<le> ilog2 a" by (simp add: ilog2_ge_iff)
  then have "ulp a = 2 powi (ilog2 a + (- 52))" by (simp add: ulp_def max_def)
  also have "\<dots> = 2 powi (ilog2 a) * 2 powi (- 52)" by (rule pow2_add)
  also have "\<dots> \<le> a * 2 powi (- 52)"
    by (intro mult_right_mono ilog2_lower a) simp
  finally show ?thesis .
qed

lemma round_mag_rel_lower:
  assumes "2 powi (- 1022) \<le> a"
  shows "a * (1 - 2 powi (- 53)) \<le> round_mag a"
proof -
  have "a - round_mag a \<le> ulp a / 2" using round_mag_error [of a] by linarith
  also have "\<dots> \<le> a * 2 powi (- 52) / 2" using ulp_le_rel [OF assms] by simp
  also have "\<dots> = a * 2 powi (- 53)"
    using pow2_Suc [of "- 53"] by simp
  finally show ?thesis by (simp add: algebra_simps)
qed

lemma round_mag_rel_upper:
  assumes "2 powi (- 1022) \<le> a"
  shows "round_mag a \<le> a * (1 + 2 powi (- 53))"
proof -
  have "round_mag a - a \<le> ulp a / 2" using round_mag_error [of a] by linarith
  also have "\<dots> \<le> a * 2 powi (- 52) / 2" using ulp_le_rel [OF assms] by simp
  also have "\<dots> = a * 2 powi (- 53)"
    using pow2_Suc [of "- 53"] by simp
  finally show ?thesis by (simp add: algebra_simps)
qed

text \<open>A binary64 magnitude in the binade of \<open>a\<close> or above is a multiple of the unit of \<open>a\<close>.\<close>

lemma is_double_multiple:
  assumes "is_double d" and "0 < d" and "max (ilog2 a) (- 1022) \<le> max (ilog2 d) (- 1022)"
  shows "\<exists>n. d = of_int n * ulp a"
proof -
  let ?ed = "max (ilog2 d) (- 1022)" and ?ea = "max (ilog2 a) (- 1022)"
  from assms(1,2) have "of_int \<lfloor>d / 2 powi (?ed - 52)\<rfloor> = d / 2 powi (?ed - 52)"
    by (simp add: is_double_def Let_def)
  then obtain m :: int where m: "d = of_int m * 2 powi (?ed - 52)"
    by (metis nonzero_divide_eq_eq pow2_neq_0)
  from assms(3) have "0 \<le> ?ed - ?ea" by simp
  then have "(2::rat) powi (?ed - ?ea) = of_int (2 ^ nat (?ed - ?ea))" by (rule pow2_of_nat)
  moreover have "(2::rat) powi (?ed - 52) = 2 powi (?ed - ?ea) * 2 powi (?ea - 52)"
    by (simp add: pow2_add [symmetric])
  ultimately have "d = of_int (m * 2 ^ nat (?ed - ?ea)) * ulp a"
    using m by (simp add: ulp_def)
  then show ?thesis ..
qed

lemma round_mag_nearest:
  assumes a: "0 < a" and d: "is_double d" "0 \<le> d"
  shows "\<bar>round_mag a - a\<bar> \<le> \<bar>d - a\<bar>"
proof -
  let ?ed = "max (ilog2 d) (- 1022)" and ?ea = "max (ilog2 a) (- 1022)"
  consider "d = 0" | "0 < d" "?ea \<le> ?ed" | "0 < d" "?ed < ?ea" using d(2) by linarith
  then show ?thesis
  proof cases
    case 1
    with round_mag_error_int [of a 0] show ?thesis by simp
  next
    case 2
    with d(1) obtain n where "d = of_int n * ulp a" by (blast dest: is_double_multiple)
    with round_mag_error_int [of a n] show ?thesis by simp
  next
    case 3
    then have ea: "?ea = ilog2 a" and lt: "ilog2 d < ilog2 a" by linarith+
    from 3(1) have "d < 2 powi (ilog2 d + 1)" by (rule ilog2_upper)
    also from lt have "\<dots> \<le> 2 powi (ilog2 a)" by simp
    finally have dk: "d < 2 powi (ilog2 a)" .
    have ka: "2 powi (ilog2 a) \<le> a" by (rule ilog2_lower [OF a])
    have "\<bar>round_mag a - a\<bar> \<le> \<bar>2 powi (ilog2 a) - a\<bar>"
      using round_mag_error_int [of a "2 ^ 52"] pow2_split [of "ilog2 a" 52]
      by (simp add: ulp_def ea)
    with dk ka show ?thesis by linarith
  qed
qed

section \<open>Rounding to nearest\<close>

lemma round_double_FiniteD:
  assumes "round_double x = Finite r"
  shows "0 < x \<Longrightarrow> r = round_mag x" and "x < 0 \<Longrightarrow> r = - round_mag (- x)"
    and "x = 0 \<Longrightarrow> r = 0"
  using assms by (auto simp: round_double_pos round_double_neg split: if_splits)

text \<open>
  C32. \<open>round_double\<close> rounds to nearest: a finite result is at least as close to the
  exact value as every binary64 number, of either sign.
\<close>

theorem round_double_nearest:
  assumes "round_double x = Finite r" and "is_double d"
  shows "\<bar>r - x\<bar> \<le> \<bar>d - x\<bar>"
proof (cases x "0::rat" rule: linorder_cases)
  case equal
  with assms(1) show ?thesis by (simp add: round_double_FiniteD)
next
  case greater
  with assms(1) have r: "r = round_mag x" by (simp add: round_double_FiniteD)
  show ?thesis
  proof (cases "0 \<le> d")
    case True
    with greater assms(2) r show ?thesis by (simp add: round_mag_nearest)
  next
    case False
    with greater r round_mag_nearest [of x 0] show ?thesis by simp
  qed
next
  case less
  with assms(1) have r: "r = - round_mag (- x)" by (simp add: round_double_FiniteD)
  show ?thesis
  proof (cases "d \<le> 0")
    case True
    with less assms(2) r round_mag_nearest [of "- x" "- d"] show ?thesis by simp
  next
    case False
    with less r round_mag_nearest [of "- x" 0] show ?thesis by simp
  qed
qed

theorem round_double_nearest_witness:
  "\<bar>3602879701896397 / 9007199254740992 - 2 / 5\<bar> \<le> \<bar>1 / 2 - 2 / (5::rat)\<bar>"
  using round_double_nearest [of "2 / 5" "3602879701896397 / 9007199254740992" "1 / 2"]
    is_double_pow2 [of "- 1"]
  by (simp add: round_double_two_fifths)

text \<open>
  In the normal range the relative error of a rounding is at most \<open>2 powi (- 53)\<close>,
  half the distance between neighbouring significands.
\<close>

theorem round_double_rel_error:
  assumes "2 powi (- 1022) \<le> \<bar>x\<bar>" and "round_double x = Finite r"
  shows "\<bar>r - x\<bar> \<le> \<bar>x\<bar> * 2 powi (- 53)"
proof -
  have *: "\<bar>round_mag a - a\<bar> \<le> a * 2 powi (- 53)" if "2 powi (- 1022) \<le> a" for a
  proof -
    have "\<bar>round_mag a - a\<bar> \<le> ulp a / 2" by (rule round_mag_error)
    also have "\<dots> \<le> a * 2 powi (- 52) / 2" using ulp_le_rel [OF that] by simp
    also have "\<dots> = a * 2 powi (- 53)" using pow2_Suc [of "- 53"] by simp
    finally show ?thesis .
  qed
  from assms(1) have "x \<noteq> 0" by auto
  then consider "0 < x" | "x < 0" by linarith
  then show ?thesis
  proof cases
    case 1
    with assms(1) round_double_FiniteD(1) [OF assms(2) 1] * [of x] show ?thesis by simp
  next
    case 2
    with assms(1) round_double_FiniteD(2) [OF assms(2) 2] * [of "- x"] show ?thesis by simp
  qed
qed

theorem round_double_rel_error_witness:
  "\<bar>3602879701896397 / 9007199254740992 - 2 / 5\<bar> \<le> \<bar>2 / (5::rat)\<bar> * 2 powi (- 53)"
  using round_double_rel_error [of "2 / 5" "3602879701896397 / 9007199254740992"]
    pow2_mono [of "- 1022" "- 2"]
  by (simp add: round_double_two_fifths)

section \<open>Overflow\<close>

lemma round_even_less_int:
  assumes "x < of_int n - 1 / 2"
  shows "round_even x < n"
proof -
  from round_even_error [of x] assms have "(of_int (round_even x) :: rat) < of_int n" by linarith
  then show ?thesis by (simp only: of_int_less_iff)
qed

lemma round_mag_top_binade:
  assumes "2 powi 1023 \<le> a" and "a < overflow"
  shows "overflow \<le> round_mag a \<longleftrightarrow> overflow_threshold \<le> a"
proof -
  define u :: rat where "u = 2 powi 971"
  have u: "0 < u" by (simp add: u_def)
  have ov: "overflow = 9007199254740992 * u"
    using pow2_split [of 1024 53] by (simp add: overflow_def u_def)
  have th: "overflow_threshold = (9007199254740992 - 1 / 2) * u"
    using pow2_Suc [of 970] by (simp add: overflow_threshold_def ov u_def algebra_simps)
  from assms have rm: "round_mag a = of_int (round_even (a / u)) * u"
    by (simp add: round_mag_normal [of 1023] overflow_def u_def)
  show ?thesis
  proof
    assume "overflow_threshold \<le> a"
    with u have "18014398509481983 / 2 \<le> a / u" by (simp add: th field_simps)
    then have "round_even (18014398509481983 / 2) \<le> round_even (a / u)" by (rule round_even_mono)
    then have "9007199254740992 \<le> round_even (a / u)" by (simp add: float_eval)
    then have "(9007199254740992 :: rat) \<le> of_int (round_even (a / u))"
      by (metis of_int_le_iff of_int_numeral)
    with u show "overflow \<le> round_mag a" by (simp add: rm ov)
  next
    assume "overflow \<le> round_mag a"
    with u have "(9007199254740992 :: rat) \<le> of_int (round_even (a / u))" by (simp add: rm ov)
    then have ge: "9007199254740992 \<le> round_even (a / u)"
      by (metis of_int_le_iff of_int_numeral)
    have "\<not> a / u < of_int 9007199254740992 - 1 / 2"
      using round_even_less_int [of "a / u" 9007199254740992] ge by auto
    with u show "overflow_threshold \<le> a" by (simp add: th field_simps not_less)
  qed
qed

lemma overflow_threshold_bounds:
  "2 powi 1023 \<le> overflow_threshold" "overflow_threshold \<le> overflow" "0 < overflow_threshold"
  by (simp_all add: overflow_threshold_def overflow_def)

lemma overflow_le_round_mag_iff:
  assumes "0 < a"
  shows "overflow \<le> round_mag a \<longleftrightarrow> overflow_threshold \<le> a"
proof -
  consider "a < 2 powi 1023" | "2 powi 1023 \<le> a" "a < overflow" | "overflow \<le> a" by linarith
  then show ?thesis
  proof cases
    case 1
    with assms have "round_mag a \<le> 2 powi 1023" by (intro round_mag_upper) simp_all
    also have "\<dots> < overflow" by (simp only: pow2_less_overflow)
    finally show ?thesis using 1 overflow_threshold_bounds(1) by simp
  next
    case 2
    then show ?thesis by (rule round_mag_top_binade)
  next
    case 3
    then have "overflow \<le> round_mag a"
      unfolding overflow_def by (intro round_mag_lower) simp_all
    with 3 overflow_threshold_bounds(2) show ?thesis by simp
  qed
qed

text \<open>
  C33. A rounding overflows exactly from the threshold on: the result is \<^verbatim>\<open>inf\<close> if and
  only if the exact value is at least \<open>overflow_threshold\<close>, and \<^verbatim>\<open>-inf\<close> if and only
  if it is at most its negation; in between the result is finite.
\<close>

theorem round_double_infinite_iff:
  "(round_double x = PInf \<longleftrightarrow> overflow_threshold \<le> x) \<and>
   (round_double x = NInf \<longleftrightarrow> x \<le> - overflow_threshold)"
proof (cases x "0::rat" rule: linorder_cases)
  case equal
  with overflow_threshold_bounds(3) show ?thesis by simp
next
  case greater
  with overflow_threshold_bounds(3) overflow_le_round_mag_iff [of x] show ?thesis
    by (simp add: round_double_pos)
next
  case less
  with overflow_threshold_bounds(3) overflow_le_round_mag_iff [of "- x"] show ?thesis
    by (auto simp: round_double_neg)
qed

end
