(* ===== verification/Overflow.thy ===== *)
theory Overflow
  imports Rounding Events
begin

text \<open>
  \<^verbatim>\<open>zoom_in\<close> of \<^verbatim>\<open>src/PDFViewer1/pdf_viewer.py\<close> has no upper bound (lines 100 to 103).
  This theory follows the zoom under repeated zoom-in: each step multiplies the zoom by
  at least \<open>9 / 8\<close> after rounding, so the product leaves the range of binary64
  and becomes \<^verbatim>\<open>inf\<close> after finitely many steps; \<open>zoom_in_limit\<close> is a number of
  steps that is enough from every state the viewer can be in.  From the zoom of a
  document that was just opened the number of steps is known exactly:
  \<open>zoom_in_count\<close>, 3181, and not one less.
\<close>

section \<open>Definitions\<close>

text \<open>Pressing the zoom-in button \<open>n\<close> times.\<close>

definition zoom_in_presses :: "nat \<Rightarrow> (event \<times> string) list" where
  "zoom_in_presses n = replicate n (Clicked zoom_in_btn, [])"

text \<open>One zoom-in step on the zoom factor: \<^verbatim>\<open>self.zoom *= 1.25\<close>.\<close>

definition scale_up :: "pyfloat \<Rightarrow> pyfloat" where
  "scale_up z = fmul z (Finite (5 / 4))"

definition zoom_in_limit :: nat where
  "zoom_in_limit = 6 * 1026"

text \<open>
  The number of zoom-in steps after which a zoom of \<open>1.0\<close>, the zoom of a document
  that was just opened, is \<^verbatim>\<open>inf\<close>.
\<close>

definition zoom_in_count :: nat where
  "zoom_in_count = 3181"

section \<open>One step\<close>

lemma fmul_grows:
  assumes "1 / 4 \<le> a"
  shows "fmul (Finite a) (Finite (5 / 4)) = PInf \<or>
    (\<exists>b. fmul (Finite a) (Finite (5 / 4)) = Finite b \<and> a * (9 / 8) \<le> b)"
proof -
  let ?x = "a * (5 / 4)"
  from assms have x: "0 < ?x" by simp
  have "(2::rat) powi (- 1022) \<le> 1 / 4" using pow2_mono [of "- 1022" "- 2"] by simp
  also from assms have "\<dots> \<le> ?x" by simp
  finally have "?x * (1 - 2 powi (- 53)) \<le> round_mag ?x" by (rule round_mag_rel_lower)
  moreover from assms have "a * (9 / 8) \<le> ?x * (1 - 2 powi (- 53))" by simp
  ultimately have "a * (9 / 8) \<le> round_mag ?x" by (rule order_trans [rotated])
  with x show ?thesis by (simp add: round_double_pos)
qed

lemma scale_up_grows:
  assumes "1 / 4 \<le> a"
  shows "scale_up (Finite a) = PInf \<or> (\<exists>b. scale_up (Finite a) = Finite b \<and> a * (9 / 8) \<le> b)"
  unfolding scale_up_def by (rule fmul_grows [OF assms])

lemma scale_up_PInf [simp]: "scale_up PInf = PInf"
  by (simp add: scale_up_def signed_inf_def)

lemma is_float_scale_up [simp]: "is_float (scale_up z)"
  by (simp add: scale_up_def)

lemma fmul_iterate_grows:
  assumes "1 / 4 \<le> a"
  shows "(scale_up ^^ n) (Finite a) = PInf \<or>
    (\<exists>b. (scale_up ^^ n) (Finite a) = Finite b \<and> a * (9 / 8) ^ n \<le> b)"
proof (induction n)
  case 0
  show ?case by simp
next
  case (Suc n)
  then show ?case
  proof
    assume "(scale_up ^^ n) (Finite a) = PInf"
    then show ?thesis by simp
  next
    assume "\<exists>b. (scale_up ^^ n) (Finite a) = Finite b \<and> a * (9 / 8) ^ n \<le> b"
    then obtain b where b: "(scale_up ^^ n) (Finite a) = Finite b"
      and le: "a * (9 / 8) ^ n \<le> b" by blast
    from assms have "1 / 4 \<le> a * (9 / 8) ^ n"
      using mult_mono [of "1 / 4" a 1 "(9 / 8) ^ n"] by (simp add: one_le_power)
    with le have "1 / 4 \<le> b" by simp
    from scale_up_grows [OF this] le b show ?thesis
      by (auto intro: order_trans [of _ "b * (9 / 8)"])
  qed
qed

lemma is_float_iterate: "0 < n \<Longrightarrow> is_float ((scale_up ^^ n) z)"
  by (cases n) simp_all

lemma power_nine_eighths: "(2::rat) ^ k \<le> (9 / 8) ^ (6 * k)"
proof -
  have "(2::rat) ^ k \<le> ((9 / 8) ^ 6) ^ k" by (rule power_mono) (simp_all add: power_divide)
  then show ?thesis by (simp only: power_mult)
qed

lemma fmul_iterate_overflows:
  assumes "1 / 4 \<le> a"
  shows "(scale_up ^^ zoom_in_limit) (Finite a) = PInf"
proof (rule ccontr)
  let ?z = "(scale_up ^^ zoom_in_limit) (Finite a)"
  assume "?z \<noteq> PInf"
  with fmul_iterate_grows [OF assms, of zoom_in_limit]
  obtain b where b: "?z = Finite b" and le: "a * (9 / 8) ^ zoom_in_limit \<le> b" by blast
  have "is_float ?z" by (rule is_float_iterate) (simp add: zoom_in_limit_def)
  with b have "\<bar>b\<bar> < overflow" by (auto simp: is_double_def)
  moreover have "overflow \<le> a * (9 / 8) ^ zoom_in_limit"
  proof -
    have "overflow = 1 / 4 * 2 ^ 1026" by (simp add: overflow_def)
    also have "\<dots> \<le> a * (9 / 8) ^ (6 * 1026)"
      using assms by (intro mult_mono power_nine_eighths) simp_all
    finally show ?thesis by (simp only: zoom_in_limit_def)
  qed
  ultimately show False using le by linarith
qed

lemma fmul_iterate_PInf [simp]: "(scale_up ^^ n) PInf = PInf"
  by (induction n) simp_all

section \<open>The exact count from a zoom of one\<close>

text \<open>
  Every step multiplies the zoom by \<open>5 / 4\<close> and rounds, which changes the product by
  a factor between \<open>1 - 2 powi (- 53)\<close> and \<open>1 + 2 powi (- 53)\<close>.  After \<open>n\<close>
  steps the zoom lies between the \<open>n\<close>-th powers of the two bounds of one step.  The
  upper bound is below the overflow threshold for \<open>n = 3180\<close> and the lower bound
  times \<open>5 / 4\<close> is above it.  The two powers are compared with powers of two
  through \<open>2 ^ 47 \<le> (5 / 4) ^ 146\<close> and \<open>(5 / 4) ^ 205 \<le> 2 ^ 66\<close>, which keeps the
  numerals small, and the accumulated rounding error is bounded by Bernoulli's
  inequality.
\<close>

text \<open>Bernoulli's inequality, below and above.\<close>

lemma one_minus_power_ge: "0 \<le> x \<Longrightarrow> x \<le> 1 \<Longrightarrow> 1 - of_nat n * x \<le> (1 - x) ^ n" for x :: rat
proof (induction n)
  case (Suc n)
  show ?case
  proof (cases "of_nat n * x \<le> 1")
    case True
    with Suc have "(1 - of_nat n * x) * (1 - x) \<le> (1 - x) ^ n * (1 - x)"
      by (intro mult_right_mono) simp_all
    moreover have "1 - of_nat (Suc n) * x \<le> (1 - of_nat n * x) * (1 - x)"
      using Suc.prems by (simp add: algebra_simps)
    ultimately show ?thesis by (simp add: mult.commute)
  next
    case False
    with Suc.prems have "1 - of_nat (Suc n) * x \<le> 0" by (simp add: algebra_simps)
    also from Suc.prems have "0 \<le> (1 - x) ^ Suc n" by (intro zero_le_power) simp
    finally show ?thesis .
  qed
qed simp

lemma one_plus_power_le: "0 \<le> x \<Longrightarrow> (1 + x) ^ n * (1 - of_nat n * x) \<le> 1" for x :: rat
proof (induction n)
  case (Suc n)
  have "(1 + x) * (1 - of_nat (Suc n) * x) \<le> 1 - of_nat n * x"
    using Suc.prems by (simp add: algebra_simps)
  then have "(1 + x) ^ n * ((1 + x) * (1 - of_nat (Suc n) * x)) \<le> (1 + x) ^ n * (1 - of_nat n * x)"
    using Suc.prems by (intro mult_left_mono) simp_all
  also note Suc.IH [OF Suc.prems]
  finally show ?case by (simp add: mult_ac)
qed simp

lemma five_quarters_lower: "(2::rat) ^ 47 \<le> (5 / 4) ^ 146"
  by (simp add: power_divide)

lemma five_quarters_upper: "(5 / 4) ^ 205 \<le> (2::rat) ^ 66"
  by (simp add: power_divide)

text \<open>Powers of a power, with a remainder.\<close>

lemma power_chain_upper:
  fixes c d :: rat
  assumes "0 \<le> c" and "c ^ q \<le> d"
  shows "c ^ (q * k + r) \<le> d ^ k * c ^ r"
proof -
  from assms have "(c ^ q) ^ k \<le> d ^ k" by (intro power_mono) simp_all
  with assms(1) have "(c ^ q) ^ k * c ^ r \<le> d ^ k * c ^ r" by (intro mult_right_mono) simp_all
  then show ?thesis by (simp only: power_add power_mult)
qed

lemma power_chain_lower:
  fixes c d :: rat
  assumes "0 \<le> c" and "0 \<le> d" and "d \<le> c ^ q"
  shows "d ^ k * c ^ r \<le> c ^ (q * k + r)"
proof -
  from assms have "d ^ k \<le> (c ^ q) ^ k" by (intro power_mono) simp_all
  with assms(1) have "d ^ k * c ^ r \<le> (c ^ q) ^ k * c ^ r" by (intro mult_right_mono) simp_all
  then show ?thesis by (simp only: power_add power_mult)
qed

lemma zoom_in_count_split:
  "zoom_in_count - 1 = 205 * 15 + 105" "zoom_in_count = 146 * 21 + 115"
  "zoom_in_count = Suc (zoom_in_count - 1)"
  by (simp_all add: zoom_in_count_def)

lemma rel_pos: "0 < 1 - rat_of_nat (zoom_in_count - 1) * 2 powi (- 53)"
  by (simp add: zoom_in_count_def power_int_minus)

lemma before_overflow:
  "(5 / 4 * (1 + 2 powi (- 53))) ^ (zoom_in_count - 1) < overflow_threshold"
proof -
  let ?N = "zoom_in_count - 1" and ?e = "(2::rat) powi (- 53)"
  let ?r = "1 - of_nat ?N * ?e"
  have "(5 / 4 * (1 + ?e)) ^ ?N * ?r = (5 / 4) ^ ?N * ((1 + ?e) ^ ?N * ?r)"
    by (simp only: power_mult_distrib mult.assoc)
  also have "\<dots> \<le> (5 / 4) ^ ?N * 1"
    by (intro mult_left_mono one_plus_power_le) simp_all
  also have "\<dots> = (5 / 4) ^ ?N" by simp
  also have "\<dots> \<le> (2 ^ 66) ^ 15 * (5 / 4) ^ 105"
    unfolding zoom_in_count_split(1) by (rule power_chain_upper) (simp_all add: power_divide)
  also have "\<dots> < overflow_threshold * ?r"
    by (simp add: zoom_in_count_def overflow_threshold_def overflow_def power_int_minus
        power_divide)
  finally show ?thesis using rel_pos by simp
qed

lemma at_overflow:
  "overflow_threshold \<le> (5 / 4 * (1 - 2 powi (- 53))) ^ (zoom_in_count - 1) * (5 / 4)"
proof -
  let ?N = "zoom_in_count - 1" and ?e = "(2::rat) powi (- 53)"
  have e: "0 \<le> ?e" "?e \<le> 1" using pow2_mono [of "- 53" 0] by simp_all
  have "overflow_threshold \<le> (2 ^ 47) ^ 21 * (5 / 4) ^ 115 * (1 - of_nat ?N * ?e)"
    by (simp add: zoom_in_count_def overflow_threshold_def overflow_def power_int_minus
        power_divide)
  also have "\<dots> \<le> (5 / 4) ^ zoom_in_count * (1 - of_nat ?N * ?e)"
    unfolding zoom_in_count_split(2) using rel_pos
    by (intro mult_right_mono power_chain_lower) (simp_all add: power_divide)
  also have "\<dots> \<le> (5 / 4) ^ zoom_in_count * (1 - ?e) ^ ?N"
    by (intro mult_left_mono one_minus_power_ge e) simp
  also have "\<dots> = (5 / 4 * (1 - ?e)) ^ ?N * (5 / 4)"
    by (subst zoom_in_count_split(3)) (simp only: power_Suc power_mult_distrib mult_ac)
  finally show ?thesis .
qed

lemma step_factors:
  "1 \<le> 5 / 4 * (1 - (2::rat) powi (- 53))" "1 \<le> 5 / 4 * (1 + (2::rat) powi (- 53))"
  using pow2_mono [of "- 53" "- 3"] by (simp_all add: power_int_minus)

text \<open>One multiplication that stays below the threshold is finite and close.\<close>

lemma scale_up_finite:
  assumes "1 / 2 \<le> a" and "a * (5 / 4) < overflow_threshold"
  shows "\<exists>b. scale_up (Finite a) = Finite b \<and> a * (5 / 4 * (1 - 2 powi (- 53))) \<le> b \<and>
    b \<le> a * (5 / 4 * (1 + 2 powi (- 53)))"
proof -
  let ?x = "a * (5 / 4)"
  from assms(1) have x: "0 < ?x" by simp
  have "(2::rat) powi (- 1022) \<le> 1 / 2" using pow2_mono [of "- 1022" "- 1"] by simp
  also from assms(1) have "1 / 2 \<le> ?x" by simp
  finally have n: "2 powi (- 1022) \<le> ?x" .
  from assms(2) have "\<not> overflow \<le> round_mag ?x"
    by (simp only: overflow_le_round_mag_iff [OF x] not_le)
  with x have "scale_up (Finite a) = Finite (round_mag ?x)"
    by (simp add: scale_up_def round_double_pos)
  with round_mag_rel_lower [OF n] round_mag_rel_upper [OF n] show ?thesis
    by (simp add: mult.assoc)
qed

lemma scale_up_infinite:
  assumes "0 < a" and "overflow_threshold \<le> a * (5 / 4)"
  shows "scale_up (Finite a) = PInf"
proof -
  from assms(1) have x: "0 < a * (5 / 4)" by simp
  from assms(2) have "overflow \<le> round_mag (a * (5 / 4))"
    by (simp only: overflow_le_round_mag_iff [OF x])
  with x show ?thesis by (simp add: scale_up_def round_double_pos)
qed

text \<open>From a zoom of one, fewer than \<open>zoom_in_count\<close> steps stay finite.\<close>

lemma iterate_finite:
  assumes "n < zoom_in_count"
  shows "\<exists>b. (scale_up ^^ n) (Finite 1) = Finite b \<and>
    (5 / 4 * (1 - 2 powi (- 53))) ^ n \<le> b \<and> b \<le> (5 / 4 * (1 + 2 powi (- 53))) ^ n"
  using assms
proof (induction n)
  case 0
  show ?case by simp
next
  case (Suc n)
  let ?lo = "5 / 4 * (1 - (2::rat) powi (- 53))" and ?hi = "5 / 4 * (1 + (2::rat) powi (- 53))"
  from Suc obtain b where b: "(scale_up ^^ n) (Finite 1) = Finite b"
    and lo: "?lo ^ n \<le> b" and hi: "b \<le> ?hi ^ n" by auto
  have b1: "1 \<le> b" using one_le_power [OF step_factors(1), of n] lo by (rule order_trans)
  have "b * (5 / 4) \<le> b * ?hi" using b1 by (intro mult_left_mono) simp_all
  also have "\<dots> \<le> ?hi ^ n * ?hi" using hi step_factors(2) by (intro mult_right_mono) simp_all
  also have "\<dots> = ?hi ^ Suc n" by simp
  also have "\<dots> \<le> ?hi ^ (zoom_in_count - 1)"
    using Suc.prems by (intro power_increasing step_factors) simp
  also note before_overflow
  finally obtain b' where b': "scale_up (Finite b) = Finite b'"
    "b * ?lo \<le> b'" "b' \<le> b * ?hi" using scale_up_finite [of b] b1 by force
  have "?lo ^ Suc n \<le> b * ?lo" using lo step_factors(1) by (simp add: mult.commute)
  moreover have "b * ?hi \<le> ?hi ^ Suc n" using hi step_factors(2) by (simp add: mult.commute)
  ultimately show ?case using b b' by simp
qed

lemma iterate_overflows_iff:
  "(scale_up ^^ n) (Finite 1) = PInf \<longleftrightarrow> zoom_in_count \<le> n"
proof
  assume "(scale_up ^^ n) (Finite 1) = PInf"
  with iterate_finite [of n] show "zoom_in_count \<le> n" by (cases "n < zoom_in_count") auto
next
  let ?lo = "5 / 4 * (1 - (2::rat) powi (- 53))"
  assume n: "zoom_in_count \<le> n"
  from iterate_finite [of "zoom_in_count - 1"] obtain b
    where b: "(scale_up ^^ (zoom_in_count - 1)) (Finite 1) = Finite b"
      and lo: "?lo ^ (zoom_in_count - 1) \<le> b" by (auto simp: zoom_in_count_def)
  have "1 \<le> b"
    using one_le_power [OF step_factors(1), of "zoom_in_count - 1"] lo by (rule order_trans)
  then have b1: "0 < b" by simp
  have "overflow_threshold \<le> b * (5 / 4)" using at_overflow lo by simp
  with b1 have "scale_up (Finite b) = PInf" by (rule scale_up_infinite)
  with b have "(scale_up ^^ Suc (zoom_in_count - 1)) (Finite 1) = PInf" by simp
  then have c: "(scale_up ^^ zoom_in_count) (Finite 1) = PInf"
    by (simp only: zoom_in_count_split(3) [symmetric])
  from n have "n = (n - zoom_in_count) + zoom_in_count" by simp
  then have "(scale_up ^^ n) (Finite 1) = (scale_up ^^ (n - zoom_in_count)) ((scale_up ^^ zoom_in_count) (Finite 1))"
    by (metis funpow_add o_apply)
  with c show "(scale_up ^^ n) (Finite 1) = PInf" by simp
qed

section \<open>Runs of zoom steps\<close>

lemma doc_run_zoom_in [simp]: "doc (run lib s (zoom_in_presses n)) = doc s"
  by (induction n arbitrary: s) (simp_all add: zoom_in_presses_def handle_def)

lemma zoom_run_zoom_in:
  "truthy (doc s) \<Longrightarrow>
   zoom (run lib s (zoom_in_presses n)) = (scale_up ^^ n) (zoom s)"
proof (induction n arbitrary: s)
  case (Suc n)
  from Suc.prems have "truthy (doc (snd (zoom_in s)))" by simp
  from Suc.IH [OF this] Suc.prems show ?case
    by (simp add: zoom_in_presses_def handle_def zoom_zoom_in funpow_swap1 scale_up_def [symmetric]
        del: fmul.simps)
qed (simp add: zoom_in_presses_def)

lemma zoom_PInf_call_slot:
  assumes "zoom s = PInf" and "sl \<noteq> Open_pdf"
  shows "zoom (snd (call_slot lib path sl s)) = PInf"
  using assms by (cases sl) (simp_all add: zoom_zoom_in zoom_zoom_out signed_inf_def)

section \<open>The zoom overflows\<close>

text \<open>
  C34. There is no largest zoom: with a document open, pressing zoom-in
  \<open>zoom_in_limit\<close> times (6156 times) from any state that satisfies the invariant
  makes the zoom \<^verbatim>\<open>inf\<close>, whatever the library does on the way.
\<close>

theorem zoom_in_overflows:
  assumes "viewer_inv s" and "truthy (doc s)"
  shows "zoom (run lib s (zoom_in_presses zoom_in_limit)) = PInf"
proof -
  from viewer_invD(4) [OF assms(1)] consider "zoom s = PInf"
    | a where "zoom s = Finite a" "zoom_floor \<le> a"
    by (auto simp: fle_Finite_iff)
  then have "(scale_up ^^ zoom_in_limit) (zoom s) = PInf"
  proof cases
    case 2
    from 2(2) have "1 / 4 \<le> a" by (simp add: zoom_floor_def)
    with 2(1) show ?thesis by (simp only: fmul_iterate_overflows)
  qed simp
  with assms(2) show ?thesis by (simp only: zoom_run_zoom_in)
qed

theorem zoom_in_overflows_witness:
  "zoom (run sample_lib (opened (sample_doc 3) init_viewer) (zoom_in_presses zoom_in_limit)) = PInf"
  using zoom_in_overflows [of "opened (sample_doc 3) init_viewer" sample_lib]
  by (simp add: viewer_inv_opened sample_doc_def)

text \<open>
  C35. From a zoom of \<open>1.0\<close>, the zoom of a document that was just opened, the zoom
  is \<^verbatim>\<open>inf\<close> after \<open>n\<close> presses of zoom-in exactly when \<open>n\<close> is at least
  \<open>zoom_in_count\<close>, which is 3181: the first 3180 presses give a finite zoom, whatever
  the library does on the way, and press 3181 overflows.
\<close>

theorem zoom_in_overflows_at:
  assumes "truthy (doc s)" and "zoom s = Finite 1"
  shows "zoom (run lib s (zoom_in_presses n)) = PInf \<longleftrightarrow> zoom_in_count \<le> n"
  using assms by (simp only: zoom_run_zoom_in iterate_overflows_iff)

theorem zoom_in_overflows_at_witness:
  "truthy (doc (opened (sample_doc 3) init_viewer)) \<and>
   zoom (opened (sample_doc 3) init_viewer) = Finite 1 \<and>
   zoom (run sample_lib (opened (sample_doc 3) init_viewer)
     (zoom_in_presses (zoom_in_count - 1))) \<noteq> PInf \<and>
   zoom (run sample_lib (opened (sample_doc 3) init_viewer) (zoom_in_presses zoom_in_count)) = PInf"
  using zoom_in_overflows_at [of "opened (sample_doc 3) init_viewer" sample_lib "zoom_in_count - 1"]
    zoom_in_overflows_at [of "opened (sample_doc 3) init_viewer" sample_lib zoom_in_count]
  by (simp add: opened_def sample_doc_def zoom_in_count_def)

text \<open>
  C37. An infinite zoom stays: from a state whose zoom is \<^verbatim>\<open>inf\<close>, every run of
  events none of which is bound to \<^verbatim>\<open>open_pdf\<close> ends with the zoom still \<^verbatim>\<open>inf\<close>, since
  \<^verbatim>\<open>inf / 1.25\<close> and \<^verbatim>\<open>inf * 1.25\<close> are \<^verbatim>\<open>inf\<close>; no number of zoom-outs brings it
  back.
\<close>

theorem infinite_zoom_persists:
  assumes "zoom s = PInf" and "\<forall>(ev, path) \<in> set evs. slot_of ev \<noteq> Open_pdf"
  shows "zoom (run lib s evs) = PInf"
  using assms
proof (induction lib s evs rule: run.induct)
  case (2 lib s ev path evs)
  then show ?case by (simp add: handle_def zoom_PInf_call_slot)
qed simp

theorem infinite_zoom_persists_witness:
  "zoom (run sample_lib ((opened (sample_doc 3) init_viewer)\<lparr>zoom := PInf\<rparr>)
     [(Clicked zoom_out_btn, []), (Activated Key_Ctrl_Minus, []), (Clicked next_btn, [])]) = PInf"
  using infinite_zoom_persists [of "(opened (sample_doc 3) init_viewer)\<lparr>zoom := PInf\<rparr>"
      "[(Clicked zoom_out_btn, []), (Activated Key_Ctrl_Minus, []), (Clicked next_btn, [])]"
      sample_lib]
  by simp

end
