(* ===== verification/Zoom_Steps.thy ===== *)
theory Zoom_Steps
  imports Overflow
begin

text \<open>
  Zoom-in and zoom-out as a pair (\<^verbatim>\<open>zoom_in\<close> and \<^verbatim>\<open>zoom_out\<close>, lines 100 to 108 of
  \<^verbatim>\<open>src/PDFViewer1/pdf_viewer.py\<close>).  On real numbers dividing by \<open>1.25\<close> undoes
  multiplying by it.  In binary64 both operations round, and this theory shows where
  the pair is the identity on the zoom and where it is not: the zoom levels reached
  from \<open>1.0\<close> are exact up to the 22nd, the pair is the identity up to the 23rd, and
  from the 24th level a zoom-in and a zoom-out end one unit in the last place below
  the zoom they started from.  In general the pair changes the zoom by two rounding
  errors at most.  So a zoom is not determined by the number of zoom-ins and
  zoom-outs that led to it, and the zooms of the window are given as an inductive set,
  \<open>zoom_level\<close>: what the two steps generate from \<open>1.0\<close>.  The last section shows
  that these are exactly the zooms of the reachable states.
\<close>

section \<open>Definitions\<close>

text \<open>
  One zoom-out step on the zoom factor: the guard \<^verbatim>\<open>self.zoom > 0.5\<close> and
  \<^verbatim>\<open>self.zoom /= 1.25\<close> (lines 106 and 107).
\<close>

definition scale_down :: "pyfloat \<Rightarrow> pyfloat" where
  "scale_down z = (if fgt z (Finite (1 / 2)) then fdiv z (Finite (5 / 4)) else z)"

text \<open>Pressing zoom-in and then zoom-out.\<close>

definition zoom_in_out :: "(event \<times> string) list" where
  "zoom_in_out = [(Clicked zoom_in_btn, []), (Clicked zoom_out_btn, [])]"

text \<open>
  The number of zoom levels above \<open>1.0\<close> that are exact powers of \<open>5 / 4\<close> (the
  numerator \<open>5 ^ 22\<close> is the last that fits into 53 bits), and the number of zoom-ins
  from \<open>1.0\<close> after which a zoom-out no longer undoes a zoom-in.
\<close>

definition exact_zoom_levels :: nat where
  "exact_zoom_levels = 22"

definition round_trip_limit :: nat where
  "round_trip_limit = 24"

text \<open>
  The zoom levels: the zoom of a new window and of a document that was just opened,
  and what a zoom-in or a zoom-out makes of a zoom level.  Because of the rounding a
  level is not determined by the number of steps that led to it.
\<close>

inductive zoom_level :: "pyfloat \<Rightarrow> bool" where
  initial: "zoom_level (Finite 1)"
| zoomed_in: "zoom_level z \<Longrightarrow> zoom_level (scale_up z)"
| zoomed_out: "zoom_level z \<Longrightarrow> zoom_level (scale_down z)"

section \<open>The exact zoom levels\<close>

text \<open>
  An integer of at most 53 bits scaled by a power of two in the range of the format is
  a binary64 number.
\<close>

lemma is_double_scaled:
  assumes "0 < m" and "m < 2 ^ 53" and "- 1074 \<le> k" and "k \<le> 971"
  shows "is_double (of_int m * 2 powi k)"
proof -
  let ?x = "of_int m * (2::rat) powi k"
  from assms(1) have x: "0 < ?x" by simp
  from assms(2) have "(of_int m :: rat) < of_int (2 ^ 53)" by (simp only: of_int_less_iff)
  also have "(of_int (2 ^ 53) :: rat) = 2 powi 53" using pow2_of_nat [of 53] by simp
  finally have "?x < 2 powi 53 * 2 powi k" by simp
  then have lt: "?x < 2 powi (53 + k)" by (simp only: pow2_add)
  with x have "ilog2 ?x < 53 + k" using ilog2_ge_iff [OF x, of "53 + k"] by simp
  with assms(3) have e: "0 \<le> k - (max (ilog2 ?x) (- 1022) - 52)" by simp
  have "?x / 2 powi (max (ilog2 ?x) (- 1022) - 52) = of_int m * 2 powi (k - (max (ilog2 ?x) (- 1022) - 52))"
    by (simp add: pow2_diff)
  moreover note int_scaled_pow2 [OF e, of m]
  moreover from lt assms(4) have "?x < overflow"
    using pow2_mono [of "53 + k" 1024] by (simp add: overflow_def)
  ultimately show ?thesis using x by (simp add: is_double_def Let_def)
qed

lemma five_quarters_power: "(5 / 4 :: rat) ^ n = of_int (5 ^ n) * 2 powi (- int (2 * n))"
proof -
  have "(2::rat) powi (int (2 * n)) = 2 ^ (2 * n)" by (rule power_int_of_nat)
  also have "\<dots> = (2 ^ 2) ^ n" by (rule power_mult)
  also have "(2::rat) ^ 2 = 4" by simp
  finally have four: "(4::rat) ^ n = 2 powi (int (2 * n))" by (rule sym)
  have "(5 / 4 :: rat) ^ n = 5 ^ n / 4 ^ n" by (rule power_divide)
  also have "\<dots> = 5 ^ n * inverse (2 powi (int (2 * n)))" by (simp only: four divide_inverse)
  also have "\<dots> = 5 ^ n * 2 powi (- int (2 * n))" by (simp only: power_int_minus)
  also have "(5::rat) ^ n = of_int (5 ^ n)" by simp
  finally show ?thesis .
qed

lemma is_double_five_quarters:
  assumes "n \<le> exact_zoom_levels"
  shows "is_double ((5 / 4) ^ n)"
proof -
  from assms have "(5::int) ^ n \<le> 5 ^ 22"
    unfolding exact_zoom_levels_def by (intro power_increasing) simp_all
  then have "(5::int) ^ n < 2 ^ 53" by simp
  with assms show ?thesis
    unfolding five_quarters_power by (intro is_double_scaled) (simp_all add: exact_zoom_levels_def)
qed

lemma scale_up_exact:
  "0 < a \<Longrightarrow> is_double (a * (5 / 4)) \<Longrightarrow> scale_up (Finite a) = Finite (a * (5 / 4))"
  by (simp add: scale_up_def round_double_exact)

lemma scale_down_exact:
  "1 / 2 < a \<Longrightarrow> is_double (a / (5 / 4)) \<Longrightarrow> scale_down (Finite a) = Finite (a / (5 / 4))"
  by (simp add: scale_down_def round_double_exact)

lemma exact_levels:
  "n \<le> exact_zoom_levels \<Longrightarrow> (scale_up ^^ n) (Finite 1) = Finite ((5 / 4) ^ n)"
proof (induction n)
  case (Suc n)
  have "(5 / 4 :: rat) ^ n * (5 / 4) = (5 / 4) ^ Suc n" by simp
  with is_double_five_quarters [OF Suc.prems] have "is_double ((5 / 4) ^ n * (5 / 4))"
    by (simp only:)
  with Suc show ?case by (simp add: scale_up_exact del: times_divide_eq_right)
qed simp

lemma scale_down_level:
  assumes "Suc n \<le> exact_zoom_levels"
  shows "scale_down (Finite ((5 / 4) ^ Suc n)) = Finite ((5 / 4) ^ n)"
proof -
  have "(1::rat) \<le> (5 / 4) ^ Suc n" by (rule one_le_power) simp
  then have "1 / 2 < (5 / 4 :: rat) ^ Suc n" by linarith
  moreover from assms have "is_double ((5 / 4) ^ Suc n / (5 / 4))"
    using is_double_five_quarters [of n] by simp
  ultimately show ?thesis by (simp only: scale_down_exact) simp
qed

section \<open>The levels that are rounded\<close>

text \<open>The levels 22 to 25 and the zoom a zoom-out returns to from 23, 24 and 25.\<close>

lemma level_22: "(5 / 4 :: rat) ^ 22 = 2384185791015625 / 17592186044416"
  by (simp add: power_divide)

lemma scale_up_levels:
  "scale_up (Finite (2384185791015625 / 17592186044416)) =
     Finite (2980232238769531 / 17592186044416)"
  "scale_up (Finite (2980232238769531 / 17592186044416)) =
     Finite (1862645149230957 / 8796093022208)"
  "scale_up (Finite (1862645149230957 / 8796093022208)) =
     Finite (291038304567337 / 1099511627776)"
  subgoal by (simp add: scale_up_def, subst round_double_normal [where e = 7])
      (simp_all add: float_eval)
  subgoal by (simp add: scale_up_def, subst round_double_normal [where e = 7])
      (simp_all add: float_eval)
  subgoal by (simp add: scale_up_def, subst round_double_normal [where e = 8])
      (simp_all add: float_eval)
  done

lemma scale_down_levels:
  "scale_down (Finite (2980232238769531 / 17592186044416)) =
     Finite (2384185791015625 / 17592186044416)"
  "scale_down (Finite (1862645149230957 / 8796093022208)) =
     Finite (2980232238769531 / 17592186044416)"
  "scale_down (Finite (291038304567337 / 1099511627776)) =
     Finite (7450580596923827 / 35184372088832)"
  subgoal by (simp add: scale_down_def, subst round_double_normal [where e = 7])
      (simp_all add: float_eval)
  subgoal by (simp add: scale_down_def, subst round_double_normal [where e = 7])
      (simp_all add: float_eval)
  subgoal by (simp add: scale_down_def, subst round_double_normal [where e = 7])
      (simp_all add: float_eval)
  done

lemma zoom_levels:
  "(scale_up ^^ 22) (Finite 1) = Finite (2384185791015625 / 17592186044416)"
  "(scale_up ^^ 23) (Finite 1) = Finite (2980232238769531 / 17592186044416)"
  "(scale_up ^^ 24) (Finite 1) = Finite (1862645149230957 / 8796093022208)"
proof -
  show a: "(scale_up ^^ 22) (Finite 1) = Finite (2384185791015625 / 17592186044416)"
    using exact_levels [of 22] by (simp only: level_22 exact_zoom_levels_def order_refl)
  have "(scale_up ^^ 23) (Finite 1) = scale_up ((scale_up ^^ 22) (Finite 1))"
    by (simp add: numeral_eq_Suc)
  then show b: "(scale_up ^^ 23) (Finite 1) = Finite (2980232238769531 / 17592186044416)"
    by (simp only: a scale_up_levels)
  have "(scale_up ^^ 24) (Finite 1) = scale_up ((scale_up ^^ 23) (Finite 1))"
    by (simp add: numeral_eq_Suc)
  then show "(scale_up ^^ 24) (Finite 1) = Finite (1862645149230957 / 8796093022208)"
    by (simp only: b scale_up_levels)
qed

lemma round_trip_levels:
  assumes "n \<le> round_trip_limit"
  shows "scale_down (scale_up ((scale_up ^^ n) (Finite 1))) = (scale_up ^^ n) (Finite 1) \<longleftrightarrow>
    n < round_trip_limit"
proof -
  from assms consider "Suc n \<le> exact_zoom_levels" | "n = 22" | "n = 23" | "n = 24"
    unfolding round_trip_limit_def exact_zoom_levels_def by linarith
  then show ?thesis
  proof cases
    case 1
    then have "scale_up ((scale_up ^^ n) (Finite 1)) = Finite ((5 / 4) ^ Suc n)"
      using exact_levels [of "Suc n"] by simp
    moreover from 1 have "(scale_up ^^ n) (Finite 1) = Finite ((5 / 4) ^ n)"
      by (intro exact_levels) simp
    moreover from 1 have "n < round_trip_limit"
      by (simp add: round_trip_limit_def exact_zoom_levels_def)
    ultimately show ?thesis using scale_down_level [OF 1] by (simp only: simp_thms)
  qed (simp_all only: zoom_levels scale_up_levels scale_down_levels round_trip_limit_def, simp_all)
qed

section \<open>The pair in general\<close>

text \<open>
  In general a zoom-in followed by a zoom-out rounds twice, so the zoom comes back to
  within two relative errors of one rounding.
\<close>

lemma scale_down_finite:
  assumes "1 / 2 < c" and "c / (5 / 4) < overflow_threshold"
  shows "\<exists>b. scale_down (Finite c) = Finite b \<and> c / (5 / 4) * (1 - 2 powi (- 53)) \<le> b \<and>
    b \<le> c / (5 / 4) * (1 + 2 powi (- 53))"
proof -
  let ?x = "c / (5 / 4)"
  from assms(1) have x: "0 < ?x" by simp
  have "(2::rat) powi (- 1022) \<le> 2 / 5" using pow2_mono [of "- 1022" "- 2"] by simp
  also from assms(1) have "2 / 5 \<le> ?x" by simp
  finally have n: "2 powi (- 1022) \<le> ?x" .
  from assms(2) have "\<not> overflow \<le> round_mag ?x"
    by (simp only: overflow_le_round_mag_iff [OF x] not_le)
  with x assms(1) have "scale_down (Finite c) = Finite (round_mag ?x)"
    by (simp add: scale_down_def round_double_pos)
  with round_mag_rel_lower [OF n] round_mag_rel_upper [OF n] show ?thesis by simp
qed

lemma zoom_in_out_close:
  assumes "1 / 2 \<le> a" and "a * (5 / 4) < overflow_threshold"
  shows "\<exists>b. scale_down (scale_up (Finite a)) = Finite b \<and>
    a * (1 - 2 powi (- 53)) ^ 2 \<le> b \<and> b \<le> a * (1 + 2 powi (- 53)) ^ 2"
proof -
  let ?lo = "1 - (2::rat) powi (- 53)" and ?hi = "1 + (2::rat) powi (- 53)"
  have e: "2 powi (- 53) \<le> (1 / 8 :: rat)" using pow2_mono [of "- 53" "- 3"] by (simp add: power_int_minus)
  from scale_up_finite [OF assms] obtain c where c: "scale_up (Finite a) = Finite c"
    and lo: "a * (5 / 4 * ?lo) \<le> c" and hi: "c \<le> a * (5 / 4 * ?hi)" by blast
  have "1 / 2 < 1 / 2 * (5 / 4 * ?lo)" using e by simp
  also have "\<dots> \<le> a * (5 / 4 * ?lo)" using assms(1) e by (intro mult_right_mono) simp_all
  also note lo
  finally have c1: "1 / 2 < c" .
  have "c / (5 / 4) \<le> a * ?hi" using hi by (simp add: field_simps)
  also have "\<dots> \<le> a * (5 / 4)" using assms(1) e by (intro mult_left_mono) simp_all
  also note assms(2)
  finally obtain b where b: "scale_down (Finite c) = Finite b"
    and blo: "c / (5 / 4) * ?lo \<le> b" and bhi: "b \<le> c / (5 / 4) * ?hi"
    using scale_down_finite [OF c1] by blast
  have "a * ?lo \<le> c / (5 / 4)" using lo by (simp add: field_simps)
  then have "a * ?lo * ?lo \<le> c / (5 / 4) * ?lo" using e by (intro mult_right_mono) simp_all
  with blo have "a * ?lo ^ 2 \<le> b" by (simp add: power2_eq_square mult.assoc)
  moreover have "c / (5 / 4) \<le> a * ?hi" using hi by (simp add: field_simps)
  then have "c / (5 / 4) * ?hi \<le> a * ?hi * ?hi" by (intro mult_right_mono) simp_all
  with bhi have "b \<le> a * ?hi ^ 2" by (simp add: power2_eq_square mult.assoc)
  ultimately show ?thesis using b c by simp
qed

section \<open>The pair on the window\<close>

text \<open>The zoom after a zoom-in and a zoom-out.\<close>

lemma zoom_run_in_out:
  "truthy (doc t) \<Longrightarrow> zoom (run lib t zoom_in_out) = scale_down (scale_up (zoom t))"
  by (simp add: zoom_in_out_def handle_def zoom_zoom_in zoom_zoom_out scale_up_def scale_down_def
      del: fmul.simps fdiv.simps)

text \<open>
  C36. Zoom-out undoes zoom-in for the first 24 zoom levels only.  From a zoom of
  \<open>1.0\<close> and after \<open>n\<close> presses of zoom-in, with \<open>n\<close> at most 24, a zoom-in followed
  by a zoom-out gives back the zoom it started from exactly when \<open>n\<close> is less than 24:
  the zoom levels up to the 22nd are exact powers of \<open>5 / 4\<close>, the next two are
  rounded and still come back, and from the 24th level the window returns to a zoom
  that is one unit in the last place lower.
\<close>

theorem zoom_out_undoes_zoom_in_until:
  assumes "truthy (doc s)" and "zoom s = Finite 1" and "n \<le> round_trip_limit"
  shows "zoom (run lib s (zoom_in_presses n @ zoom_in_out)) = zoom (run lib s (zoom_in_presses n))
    \<longleftrightarrow> n < round_trip_limit"
  using assms
  by (simp only: run_append zoom_run_in_out doc_run_zoom_in zoom_run_zoom_in round_trip_levels)

theorem zoom_out_undoes_zoom_in_until_witness:
  "truthy (doc (opened (sample_doc 3) init_viewer)) \<and>
   zoom (opened (sample_doc 3) init_viewer) = Finite 1 \<and>
   zoom (run sample_lib (opened (sample_doc 3) init_viewer) (zoom_in_presses 3 @ zoom_in_out)) =
     zoom (run sample_lib (opened (sample_doc 3) init_viewer) (zoom_in_presses 3)) \<and>
   zoom (run sample_lib (opened (sample_doc 3) init_viewer)
     (zoom_in_presses round_trip_limit @ zoom_in_out)) \<noteq>
     zoom (run sample_lib (opened (sample_doc 3) init_viewer) (zoom_in_presses round_trip_limit))"
  using zoom_out_undoes_zoom_in_until [of "opened (sample_doc 3) init_viewer" 3 sample_lib]
    zoom_out_undoes_zoom_in_until [of "opened (sample_doc 3) init_viewer" round_trip_limit
      sample_lib]
  by (simp add: opened_def sample_doc_def round_trip_limit_def)

section \<open>The zooms a window can have\<close>

text \<open>What each method makes of the zoom, in terms of the two steps.\<close>

lemma zoom_zoom_in_level:
  "zoom (snd (zoom_in s)) = (if truthy (doc s) then scale_up (zoom s) else zoom s)"
  by (simp only: zoom_zoom_in scale_up_def)

lemma zoom_zoom_out_level:
  "zoom (snd (zoom_out s)) = (if truthy (doc s) then scale_down (zoom s) else zoom s)"
  by (simp only: zoom_zoom_out scale_down_def) simp

lemma zoom_open_pdf_cases:
  "zoom (snd (open_pdf lib path s)) = zoom s \<or> zoom (snd (open_pdf lib path s)) = Finite 1"
  by (simp add: open_pdf_def open_body_def split: sum.split)

lemma reachable_zoom_level: "reachable s \<Longrightarrow> zoom_level (zoom s)"
proof (induction rule: reachable_handlers_induct)
  case init
  show ?case by (simp add: init_viewer_def zoom_level.initial)
next
  case (open_pdf s lib path)
  with zoom_open_pdf_cases [of lib path s] show ?case by (auto intro: zoom_level.initial)
next
  case (zoom_in s)
  then show ?case by (simp add: zoom_zoom_in_level zoom_level.zoomed_in)
next
  case (zoom_out s)
  then show ?case by (simp add: zoom_zoom_out_level zoom_level.zoomed_out)
qed simp_all

text \<open>Every level is reached by pressing the buttons, once a document is open.\<close>

lemma zoom_level_run:
  assumes "path \<noteq> []" and "lib path = Inr d" and "doc_truth d" and "zoom_level z"
  shows "\<exists>evs. zoom (run lib init_viewer evs) = z \<and> truthy (doc (run lib init_viewer evs))"
  using assms(4)
proof (induction rule: zoom_level.induct)
  case initial
  from assms(1-3) have "zoom (run lib init_viewer [(Clicked open_btn, path)]) = Finite 1 \<and>
      truthy (doc (run lib init_viewer [(Clicked open_btn, path)]))"
    by (simp add: handle_def open_pdf_resets)
  then show ?case ..
next
  case (zoomed_in z)
  then obtain evs where "zoom (run lib init_viewer evs) = z"
    "truthy (doc (run lib init_viewer evs))" by blast
  then have "zoom (run lib init_viewer (evs @ [(Clicked zoom_in_btn, [])])) = scale_up z \<and>
      truthy (doc (run lib init_viewer (evs @ [(Clicked zoom_in_btn, [])])))"
    by (simp add: run_append handle_def zoom_zoom_in_level)
  then show ?case ..
next
  case (zoomed_out z)
  then obtain evs where "zoom (run lib init_viewer evs) = z"
    "truthy (doc (run lib init_viewer evs))" by blast
  then have "zoom (run lib init_viewer (evs @ [(Clicked zoom_out_btn, [])])) = scale_down z \<and>
      truthy (doc (run lib init_viewer (evs @ [(Clicked zoom_out_btn, [])])))"
    by (simp add: run_append handle_def zoom_zoom_out_level)
  then show ?case ..
qed

text \<open>
  C29. The zooms that the window can have are exactly the zoom levels.  In every
  reachable state the zoom is a zoom level, and over a library that opens some file
  as a document that is true as a Python value, every zoom level is the zoom after
  some sequence of events: no invariant of the zoom is stronger than being generated
  from \<open>1.0\<close> by the two steps.
\<close>

theorem zoom_levels_exact:
  assumes "path \<noteq> []" and "lib path = Inr d" and "doc_truth d"
  shows "((\<exists>s. reachable s \<and> zoom s = z) \<longleftrightarrow> zoom_level z) \<and>
    (zoom_level z \<longleftrightarrow> (\<exists>evs. zoom (run lib init_viewer evs) = z))"
proof -
  have run: "zoom_level z \<Longrightarrow> \<exists>evs. zoom (run lib init_viewer evs) = z"
    using zoom_level_run [of path lib d z] assms by blast
  have reach: "reachable (run lib init_viewer evs)" for evs
    by (rule reachable_run [OF reachable.init])
  have "(\<exists>s. reachable s \<and> zoom s = z) \<longleftrightarrow> zoom_level z"
    using run reach by (auto intro: reachable_zoom_level)
  moreover have "zoom_level z \<longleftrightarrow> (\<exists>evs. zoom (run lib init_viewer evs) = z)"
    using run reach by (auto dest: reachable_zoom_level)
  ultimately show ?thesis ..
qed

theorem zoom_levels_exact_witness:
  "''a.pdf'' \<noteq> [] \<and> sample_lib ''a.pdf'' = Inr (sample_doc 3) \<and> doc_truth (sample_doc 3) \<and>
   ((\<exists>s. reachable s \<and> zoom s = scale_down (scale_up (Finite 1))) \<longleftrightarrow>
      zoom_level (scale_down (scale_up (Finite 1)))) \<and>
   (zoom_level (scale_down (scale_up (Finite 1))) \<longleftrightarrow>
      (\<exists>evs. zoom (run sample_lib init_viewer evs) = scale_down (scale_up (Finite 1))))"
  using zoom_levels_exact [of "''a.pdf''" sample_lib "sample_doc 3"
      "scale_down (scale_up (Finite 1))"]
  by (simp add: sample_lib_def sample_doc_def)

text \<open>
  So what holds in every reachable state holds of every zoom level: a level is a
  binary64 number or \<^verbatim>\<open>inf\<close>, and none is below \<open>zoom_floor\<close>.
\<close>

lemma zoom_level_ok: "zoom_level z \<Longrightarrow> zoom_ok z"
proof -
  assume "zoom_level z"
  with zoom_level_run [of "''a.pdf''" sample_lib "sample_doc 3" z]
  obtain evs where z: "zoom (run sample_lib init_viewer evs) = z"
    by (auto simp: sample_lib_def sample_doc_def)
  have "viewer_inv (run sample_lib init_viewer evs)"
    by (intro reachable_inv reachable_run reachable.init)
  with z show ?thesis by (auto simp: viewer_inv_def)
qed

end
