(* ===== verification/Progress.thy ===== *)
theory Progress
  imports Overflow Display "HOL-Library.While_Combinator"
begin

text \<open>
  What repeated use of the keyboard leads to.  The four shortcuts of
  \<^verbatim>\<open>src/PDFViewer1/pdf_viewer.py\<close> (lines 62 to 65) are \<^verbatim>\<open>QShortcut\<close> objects, which
  repeat while the key is held down; each activation calls the bound method, and the
  method does something only while its condition holds (lines 91, 96, 101 and 106).
  Holding a key is therefore a loop over the state of the window, written with the
  \<open>while\<close> combinator of the library: the condition of the method is the loop
  condition and one activation is the loop body.  The theorems say for which keys and
  states the loop stops and where it stops, how many presses of zoom-out are enough to
  have the next one rejected, and that every page of the document can be reached and
  is then on display.  As in \<open>run\<close>, an activation that raises leaves the state it
  has written and the next activation starts from it.
\<close>

section \<open>Keys, their methods and their conditions\<close>

text \<open>
  The condition under which the method does anything: the \<^verbatim>\<open>if\<close> of lines 91, 96,
  101 and 106.
\<close>

fun enabled :: "shortcut \<Rightarrow> viewer \<Rightarrow> bool" where
  "enabled Key_Right s \<longleftrightarrow> truthy (doc s) \<and> current_page s < page_count s - 1"
| "enabled Key_Left s \<longleftrightarrow> truthy (doc s) \<and> 0 < current_page s"
| "enabled Key_Ctrl_Plus s \<longleftrightarrow> truthy (doc s)"
| "enabled Key_Ctrl_Minus s \<longleftrightarrow> truthy (doc s) \<and> fgt (zoom s) (Finite (1 / 2))"

text \<open>
  One activation: the event of the shortcut is handled and the state that the bound
  method leaves is kept.  No shortcut is bound to \<^verbatim>\<open>open_pdf\<close>, so the file dialog
  gives no answer; the library is passed on as \<open>handle\<close> wants it and is not used.
\<close>

definition press :: "fitz \<Rightarrow> shortcut \<Rightarrow> viewer \<Rightarrow> viewer" where
  "press lib k s = snd (handle lib [] (Activated k) s)"

text \<open>
  The key held down for as long as it has an effect: \<open>Some\<close> of the state in which
  the method's condition fails for the first time, \<open>None\<close> when it never fails.
\<close>

definition hold :: "fitz \<Rightarrow> shortcut \<Rightarrow> viewer \<Rightarrow> viewer option" where
  "hold lib k = while_option (enabled k) (press lib k)"

text \<open>A list of key presses as events; the file dialog is not involved.\<close>

definition keys :: "shortcut list \<Rightarrow> (event \<times> string) list" where
  "keys ks = map (\<lambda>k. (Activated k, [])) ks"

text \<open>The presses that lead from page index \<open>cur\<close> to page index \<open>k\<close>.\<close>

definition goto_keys :: "int \<Rightarrow> int \<Rightarrow> shortcut list" where
  "goto_keys cur k =
     (if cur \<le> k then replicate (nat (k - cur)) Key_Right
      else replicate (nat (cur - k)) Key_Left)"

text \<open>
  A number of zoom-out presses after which the next one is rejected: four for every
  binade between the zoom and one half, since four divisions by 1.25 more than halve
  a number, rounding included.
\<close>

definition zoom_out_limit :: "pyfloat \<Rightarrow> nat" where
  "zoom_out_limit z =
     (case z of Finite a \<Rightarrow> if 1 / 2 < a then 4 * nat (ilog2 a + 2) else 0 | _ \<Rightarrow> 0)"

section \<open>Keys and handlers\<close>

text \<open>
  The event of a shortcut runs its method; a method whose condition fails returns
  without a change, and one whose condition holds makes its assignment and ends in the
  display step: this is what ties \<open>enabled\<close> to the handlers.
\<close>

lemma press_simps:
  "press lib Key_Right s = snd (next_page s)" "press lib Key_Left s = snd (prev_page s)"
  "press lib Key_Ctrl_Plus s = snd (zoom_in s)" "press lib Key_Ctrl_Minus s = snd (zoom_out s)"
  by (simp_all add: press_def handle_def)

lemma handle_disabled: "\<not> enabled k s \<Longrightarrow> handle lib path (Activated k) s = (Returned, s)"
  by (cases k) (auto simp: handle_def viewer_defs)

lemma handle_enabled:
  "enabled Key_Right s \<Longrightarrow>
     handle lib path (Activated Key_Right) s = show_page (s\<lparr>current_page := current_page s + 1\<rparr>)"
  "enabled Key_Left s \<Longrightarrow>
     handle lib path (Activated Key_Left) s = show_page (s\<lparr>current_page := current_page s - 1\<rparr>)"
  "enabled Key_Ctrl_Plus s \<Longrightarrow>
     handle lib path (Activated Key_Ctrl_Plus) s =
       show_page (s\<lparr>zoom := fmul (zoom s) (Finite (5 / 4))\<rparr>)"
  "enabled Key_Ctrl_Minus s \<Longrightarrow>
     handle lib path (Activated Key_Ctrl_Minus) s =
       show_page (s\<lparr>zoom := fdiv (zoom s) (Finite (5 / 4))\<rparr>)"
  by (simp_all add: handle_def viewer_defs del: fmul.simps(1) fdiv.simps(1))

lemma press_disabled [simp]: "\<not> enabled k s \<Longrightarrow> press lib k s = s"
  by (simp add: press_def handle_disabled)

lemma press_frame [simp]:
  "doc (press lib k s) = doc s" "page_count (press lib k s) = page_count s"
  "messages (press lib k s) = messages s"
  by (cases k; simp add: press_simps)+

lemma run_keys_Nil [simp]: "run lib s (keys []) = s"
  by (simp add: keys_def)

lemma run_keys_Cons [simp]: "run lib s (keys (k # ks)) = run lib (press lib k s) (keys ks)"
  by (simp add: keys_def press_def)

lemma run_keys_append: "run lib s (keys (ks @ ks')) = run lib (run lib s (keys ks)) (keys ks')"
  by (simp add: keys_def run_append)

lemma run_keys_replicate: "run lib s (keys (replicate n k)) = (press lib k ^^ n) s"
  by (induction n arbitrary: s) (simp_all add: funpow_swap1)

lemma funpow_press_disabled [simp]: "\<not> enabled k s \<Longrightarrow> (press lib k ^^ n) s = s"
  by (induction n) simp_all

lemma funpow_press_frame [simp]:
  "doc ((press lib k ^^ n) s) = doc s" "page_count ((press lib k ^^ n) s) = page_count s"
  by (induction n) simp_all

section \<open>Loops that stop\<close>



lemma hold_disabled [simp]: "\<not> enabled k s \<Longrightarrow> hold lib k s = Some s"
  by (simp add: hold_def while_option_unfold)




section \<open>Paging\<close>

lemma current_page_press_Right:
  "enabled Key_Right s \<Longrightarrow> current_page (press lib Key_Right s) = current_page s + 1"
  by (simp add: press_simps current_page_next_page)

lemma current_page_press_Left:
  "enabled Key_Left s \<Longrightarrow> current_page (press lib Key_Left s) = current_page s - 1"
  by (simp add: press_simps current_page_prev_page)

lemma zoom_press_paging [simp]:
  "zoom (press lib Key_Right s) = zoom s" "zoom (press lib Key_Left s) = zoom s"
  by (simp_all add: press_simps)



text \<open>The loop runs: on the sample document of three pages it ends on page index 2.\<close>

lemma hold_Key_Right_sample:
  "map_option current_page (hold lib Key_Right (opened (sample_doc 3) init_viewer)) = Some 2"
  unfolding hold_def
  apply (subst while_option_unfold, simp add: press_simps run_eval)
  apply (subst while_option_unfold, simp add: press_simps run_eval)
  apply (subst while_option_unfold, simp add: press_simps run_eval)
  done




section \<open>Zooming out\<close>

text \<open>
  One division by 1.25 of a binary64 number above one half gives a positive binary64
  number that is at most five sixths of it: the rounding adds less than one part in
  \<open>2 ^ 53\<close>.
\<close>

lemma fdiv_shrinks:
  assumes "1 / 2 < a" and "a < overflow"
  shows "\<exists>b. fdiv (Finite a) (Finite (5 / 4)) = Finite b \<and> 0 < b \<and> b \<le> a * (5 / 6)"
proof -
  let ?x = "a / (5 / 4)"
  from assms have x: "0 < ?x" by simp
  have "(2::rat) powi (- 1022) \<le> 1 / 4" using pow2_mono [of "- 1022" "- 2"] by simp
  also from assms have "\<dots> \<le> ?x" by simp
  finally have n: "(2::rat) powi (- 1022) \<le> ?x" .
  have "round_mag ?x \<le> ?x * (1 + 2 powi (- 53))" using n by (rule round_mag_rel_upper)
  also from assms have "\<dots> \<le> a * (5 / 6)" by simp
  finally have up: "round_mag ?x \<le> a * (5 / 6)" .
  have "0 < ?x * (1 - 2 powi (- 53))" using x by simp
  also have "\<dots> \<le> round_mag ?x" using n by (rule round_mag_rel_lower)
  finally have pos: "0 < round_mag ?x" .
  from up assms have "round_mag ?x < overflow" by simp
  with x up pos show ?thesis by (simp add: round_double_pos)
qed

lemma zoom_press_Minus:
  assumes "truthy (doc s)" and "zoom s = Finite a" and "1 / 2 < a" and "a < overflow"
  shows "\<exists>b. zoom (press lib Key_Ctrl_Minus s) = Finite b \<and> 0 < b \<and> b \<le> a * (5 / 6)"
  using assms fdiv_shrinks [of a] by (simp add: press_simps zoom_zoom_out del: fdiv.simps(1))

lemma press_Minus_rejected:
  "\<not> fgt (zoom s) (Finite (1 / 2)) \<Longrightarrow> (press lib Key_Ctrl_Minus ^^ n) s = s"
  by (induction n) (simp_all add: press_simps zoom_out_def)

lemma zoom_funpow_Minus:
  assumes "truthy (doc s)" and "zoom s = Finite a" and "a < overflow"
    and "a \<le> 1 / 2 * (6 / 5) ^ n"
  shows "\<not> fgt (zoom ((press lib Key_Ctrl_Minus ^^ n) s)) (Finite (1 / 2))"
  using assms
proof (induction n arbitrary: s a)
  case 0
  then show ?case by simp
next
  case (Suc n)
  show ?case
  proof (cases "1 / 2 < a")
    case True
    from zoom_press_Minus [OF Suc.prems(1,2) True Suc.prems(3)]
    obtain b where b: "zoom (press lib Key_Ctrl_Minus s) = Finite b" "b \<le> a * (5 / 6)" by blast
    from b(2) Suc.prems(3) True have "b < overflow" by simp
    moreover from b(2) Suc.prems(4) have "b \<le> 1 / 2 * (6 / 5) ^ n" by simp
    moreover from Suc.prems(1) have "truthy (doc (press lib Key_Ctrl_Minus s))" by simp
    ultimately have "\<not> fgt (zoom ((press lib Key_Ctrl_Minus ^^ n) (press lib Key_Ctrl_Minus s)))
        (Finite (1 / 2))"
      using b(1) by (intro Suc.IH)
    then show ?thesis by (simp add: funpow_swap1)
  next
    case False
    with Suc.prems(2) have "\<not> fgt (zoom s) (Finite (1 / 2))" by simp
    then show ?thesis by (simp add: press_Minus_rejected del: funpow.simps)
  qed
qed

text \<open>Four divisions more than halve the zoom, so the binade of the zoom bounds the presses.\<close>

lemma power_six_fifths: "(2::rat) ^ k \<le> (6 / 5) ^ (4 * k)"
proof -
  have "(2::rat) ^ k \<le> ((6 / 5) ^ 4) ^ k" by (rule power_mono) (simp_all add: power_divide)
  then show ?thesis by (simp only: power_mult)
qed

lemma zoom_out_limit_enough:
  assumes "0 < a" and "zoom_out_limit (Finite a) \<le> n"
  shows "a \<le> 1 / 2 * (6 / 5) ^ n"
proof (cases "1 / 2 < a")
  case True
  let ?k = "nat (ilog2 a + 2)"
  from True have "(2::rat) powi (- 1) \<le> a" by simp
  with assms(1) have k: "- 1 \<le> ilog2 a" by (simp add: ilog2_ge_iff)
  have "a < 2 powi (ilog2 a + 1)" by (rule ilog2_upper [OF assms(1)])
  also have "\<dots> = 1 / 2 * 2 powi (ilog2 a + 1 + 1)" by (simp only: pow2_Suc)
  also have "\<dots> = 1 / 2 * 2 powi (ilog2 a + 2)" by (simp add: add.assoc)
  also have "\<dots> = 1 / 2 * 2 ^ ?k" using k by (simp add: power_int_def)
  also have "\<dots> \<le> 1 / 2 * (6 / 5) ^ (4 * ?k)" by (intro mult_left_mono power_six_fifths) simp
  also have "\<dots> \<le> 1 / 2 * (6 / 5) ^ n"
    using assms(2) True by (intro mult_left_mono power_increasing) (simp_all add: zoom_out_limit_def)
  finally show ?thesis by simp
next
  case False
  have "(1::rat) \<le> (6 / 5) ^ n" by (rule one_le_power) simp
  with False show ?thesis by linarith
qed

section \<open>Zoom keys held down\<close>




lemma zoom_out_rejected_after:
  assumes "truthy (doc s)" and "is_float (zoom s)" and "zoom s \<noteq> PInf"
    and "zoom_out_limit (zoom s) \<le> n"
  shows "\<not> fgt (zoom ((press lib Key_Ctrl_Minus ^^ n) s)) (Finite (1 / 2))"
proof (cases "fgt (zoom s) (Finite (1 / 2))")
  case True
  with assms(3) obtain a where a: "zoom s = Finite a" "1 / 2 < a" by (auto simp: fgt_Finite_iff)
  with assms(2) have "a < overflow" by (auto simp: is_double_def)
  moreover from a assms(4) have "a \<le> 1 / 2 * (6 / 5) ^ n" by (intro zoom_out_limit_enough) simp_all
  ultimately show ?thesis by (intro zoom_funpow_Minus [OF assms(1) a(1)])
qed (simp add: press_Minus_rejected)



section \<open>Zoom-out is eventually rejected\<close>

text \<open>
  C20. Zoom-out is eventually rejected, and the zoom says when: with a document loaded
  and a zoom that is a binary64 number, after \<open>zoom_out_limit\<close> presses of Ctrl+-
  or more the zoom is not above 0.5 and \<^verbatim>\<open>zoom_out\<close> returns without a change.
\<close>

theorem zoom_out_eventually_rejected:
  assumes "truthy (doc s)" and "is_float (zoom s)" and "zoom s \<noteq> PInf"
    and "zoom_out_limit (zoom s) \<le> n"
  shows "\<not> fgt (zoom (run lib s (keys (replicate n Key_Ctrl_Minus)))) (Finite (1 / 2)) \<and>
    zoom_out (run lib s (keys (replicate n Key_Ctrl_Minus))) =
      (Returned, run lib s (keys (replicate n Key_Ctrl_Minus)))"
proof -
  let ?t = "run lib s (keys (replicate n Key_Ctrl_Minus))"
  have "\<not> fgt (zoom ?t) (Finite (1 / 2))"
    unfolding run_keys_replicate by (rule zoom_out_rejected_after [OF assms])
  then show ?thesis by (simp add: zoom_out_def)
qed

theorem zoom_out_eventually_rejected_witness:
  "truthy (doc (opened (sample_doc 3) init_viewer)) \<and>
   is_float (zoom (opened (sample_doc 3) init_viewer)) \<and>
   zoom (opened (sample_doc 3) init_viewer) \<noteq> PInf \<and>
   zoom_out_limit (zoom (opened (sample_doc 3) init_viewer)) \<le> 8 \<and>
   \<not> fgt (zoom (run sample_lib (opened (sample_doc 3) init_viewer)
            (keys (replicate 8 Key_Ctrl_Minus)))) (Finite (1 / 2))"
  using zoom_out_eventually_rejected [of "opened (sample_doc 3) init_viewer" 8 sample_lib]
  by (simp add: opened_def sample_doc_def zoom_out_limit_def)

section \<open>Reaching a page\<close>

lemma funpow_press_Right:
  assumes "truthy (doc s)" and "current_page s + int n \<le> page_count s - 1"
  shows "current_page ((press lib Key_Right ^^ n) s) = current_page s + int n \<and>
    zoom ((press lib Key_Right ^^ n) s) = zoom s"
  using assms by (induction n) (simp_all add: current_page_press_Right)

lemma funpow_press_Left:
  assumes "truthy (doc s)" and "int n \<le> current_page s"
  shows "current_page ((press lib Key_Left ^^ n) s) = current_page s - int n \<and>
    zoom ((press lib Key_Left ^^ n) s) = zoom s"
  using assms by (induction n) (simp_all add: current_page_press_Left)

lemma run_goto_keys:
  assumes "truthy (doc s)" and "0 \<le> k" and "k < page_count s"
    and "0 \<le> current_page s" and "current_page s < page_count s"
  shows "current_page (run lib s (keys (goto_keys (current_page s) k))) = k \<and>
    zoom (run lib s (keys (goto_keys (current_page s) k))) = zoom s"
proof (cases "current_page s \<le> k")
  case True
  with assms funpow_press_Right [of s "nat (k - current_page s)"] show ?thesis
    by (simp add: goto_keys_def run_keys_replicate)
next
  case False
  with assms funpow_press_Left [of s "nat (current_page s - k)"] show ?thesis
    by (simp add: goto_keys_def run_keys_replicate)
qed

text \<open>The last press of a run of presses draws the page the run ends on.\<close>

lemma displayed_show_page_renders:
  assumes "doc s = Some d" and "doc_truth d"
    and "render_page d (current_page s) (zoom s) = Inr img"
  shows "displayed (snd (show_page s))"
  using assms by (intro displayed_show_page) (simp_all add: show_page_renders)

lemma displayed_funpow_Right:
  assumes "doc s = Some d" and "doc_truth d" and "0 < n"
    and "current_page s + int n = k" and "k \<le> page_count s - 1"
    and "render_page d k (zoom s) = Inr img"
  shows "displayed ((press lib Key_Right ^^ n) s)"
proof -
  from assms(3) obtain m where n: "n = Suc m" by (cases n) auto
  let ?t = "(press lib Key_Right ^^ m) s"
  from assms(1,2,4,5) n have t: "current_page ?t = k - 1" "zoom ?t = zoom s"
    using funpow_press_Right [of s m] by simp_all
  let ?u = "?t\<lparr>current_page := k\<rparr>"
  from assms(1,2,5) t have "press lib Key_Right ?t = snd (show_page ?u)"
    by (simp add: press_simps next_page_def)
  moreover have "displayed (snd (show_page ?u))"
    using assms(1,2,6) t by (intro displayed_show_page_renders [of _ d img]) simp_all
  ultimately show ?thesis by (simp add: n)
qed

lemma displayed_funpow_Left:
  assumes "doc s = Some d" and "doc_truth d" and "0 < n"
    and "current_page s - int n = k" and "0 \<le> k"
    and "render_page d k (zoom s) = Inr img"
  shows "displayed ((press lib Key_Left ^^ n) s)"
proof -
  from assms(3) obtain m where n: "n = Suc m" by (cases n) auto
  let ?t = "(press lib Key_Left ^^ m) s"
  from assms(1,2,4,5) n have t: "current_page ?t = k + 1" "zoom ?t = zoom s"
    using funpow_press_Left [of s m] by simp_all
  let ?u = "?t\<lparr>current_page := k\<rparr>"
  from assms(1,2,5) t have "press lib Key_Left ?t = snd (show_page ?u)"
    by (simp add: press_simps prev_page_def)
  moreover have "displayed (snd (show_page ?u))"
    using assms(1,2,6) t by (intro displayed_show_page_renders [of _ d img]) simp_all
  ultimately show ?thesis by (simp add: n)
qed

lemma displayed_goto_keys:
  assumes "doc s = Some d" and "doc_truth d" and "0 \<le> k" and "k < page_count s"
    and "render_page d k (zoom s) = Inr img" and "in_sync s"
  shows "displayed (run lib s (keys (goto_keys (current_page s) k)))"
proof (cases "current_page s" k rule: linorder_cases)
  case equal
  with assms(1,2,6) show ?thesis by (simp add: goto_keys_def in_sync_def)
next
  case less
  with assms show ?thesis
    by (simp add: goto_keys_def run_keys_replicate displayed_funpow_Right [of s d _ k img])
next
  case greater
  with assms show ?thesis
    by (simp add: goto_keys_def run_keys_replicate displayed_funpow_Left [of s d _ k img])
qed

text \<open>
  C17. Every page can be reached and is then on display: from a state that satisfies the
  invariant and shows its current page, the presses of Right or Left that
  \<open>goto_keys\<close> gives lead to any page \<open>k\<close> of the document, whatever happens to the
  pages in between, and if page \<open>k\<close> renders at the current zoom then the window shows
  its image and the indicator names it.
\<close>

theorem every_page_reachable:
  assumes "viewer_inv s" and "doc s = Some d" and "doc_truth d"
    and "0 \<le> k" and "k < page_count s"
    and "render_page d k (zoom s) = Inr img" and "in_sync s"
  shows "current_page (run lib s (keys (goto_keys (current_page s) k))) = k \<and>
    displayed (run lib s (keys (goto_keys (current_page s) k)))"
proof -
  from assms(1,5,4) have "0 \<le> current_page s" "current_page s < page_count s"
    by (auto simp: viewer_inv_def)
  with assms show ?thesis by (simp add: run_goto_keys displayed_goto_keys)
qed

theorem every_page_reachable_witness:
  "viewer_inv (snd (open_pdf sample_lib ''a.pdf'' init_viewer)) \<and>
   in_sync (snd (open_pdf sample_lib ''a.pdf'' init_viewer)) \<and>
   goto_keys (current_page (snd (open_pdf sample_lib ''a.pdf'' init_viewer))) 2 =
     [Key_Right, Key_Right] \<and>
   current_page (run sample_lib (snd (open_pdf sample_lib ''a.pdf'' init_viewer))
     (keys [Key_Right, Key_Right])) = 2 \<and>
   displayed (run sample_lib (snd (open_pdf sample_lib ''a.pdf'' init_viewer))
     (keys [Key_Right, Key_Right]))"
proof -
  let ?s = "snd (open_pdf sample_lib ''a.pdf'' init_viewer)"
  have s: "?s = (opened (sample_doc 3) init_viewer)
      \<lparr>label := Some (QPixmap_fromImage (QImage [0, 0, 0] 1 1 3 Format_RGB888)),
       page_label := ''Page: 1 / 3''\<rparr>"
    by (simp add: run_eval)
  have inv: "viewer_inv ?s" by (intro viewer_inv_open_pdf viewer_inv_init)
  have sync: "in_sync ?s" unfolding s by (simp add: in_sync_def displayed_def run_eval)
  have g: "goto_keys (current_page ?s) 2 = [Key_Right, Key_Right]"
    unfolding s by (simp add: goto_keys_def opened_def numeral_2_eq_2)
  from every_page_reachable [OF inv, of "sample_doc 3" 2
      "QImage [0, 0, 0] 1 1 3 Format_RGB888" sample_lib] sync inv g
  show ?thesis by (simp add: s opened_def render_page_def sample_defs)
qed

end
