(* ===== verification/Dialogs.thy ===== *)
theory Dialogs
  imports Scenarios
begin

text \<open>
  The error dialogs (\<^verbatim>\<open>QMessageBox.critical\<close>, line 78 of
  \<^verbatim>\<open>src/PDFViewer1/pdf_viewer.py\<close>).  The only dialog of the program is shown by the
  \<^verbatim>\<open>except\<close> clause of \<^verbatim>\<open>open_pdf\<close>.  Whether an open ends in it depends on the path and
  the library alone, not on the state of the window: \<^verbatim>\<open>fitz.open\<close> raises an
  \<^verbatim>\<open>Exception\<close>, or the first page of the new document, at zoom \<open>1.0\<close>, raises one
  while it is rendered.  So the dialogs that a session has shown can be read off its
  events, and this theory proves that they are exactly those.
\<close>

section \<open>Definitions\<close>

text \<open>
  The message of the \<^verbatim>\<open>Exception\<close> in which the \<^verbatim>\<open>try\<close> block of \<^verbatim>\<open>open_pdf\<close> ends for
  a path (lines 72 to 76), if it ends in one.
\<close>

fun exception_message :: "pyexc \<Rightarrow> string option" where
  "exception_message (Exception msg) = Some msg"
| "exception_message e = None"

definition open_error :: "fitz \<Rightarrow> string \<Rightarrow> string option" where
  "open_error lib path =
     (case lib path of
        Inl e \<Rightarrow> exception_message e
      | Inr d \<Rightarrow>
          if doc_truth d
          then (case render_page d 0 (Finite 1) of
                  Inl e \<Rightarrow> exception_message e
                | Inr img \<Rightarrow> None)
          else None)"

text \<open>The dialogs of one call of \<^verbatim>\<open>open_pdf\<close> (lines 69, 70, 77 and 78).\<close>

definition open_dialogs :: "fitz \<Rightarrow> string \<Rightarrow> message_box list" where
  "open_dialogs lib path =
     (if path = [] then []
      else case open_error lib path of None \<Rightarrow> [] | Some msg \<Rightarrow> [failed_to_open msg])"

text \<open>The dialogs of a session, oldest first.\<close>

fun dialogs_of :: "fitz \<Rightarrow> (event \<times> string) list \<Rightarrow> message_box list" where
  "dialogs_of lib [] = []"
| "dialogs_of lib ((ev, path) # evs) =
     (if slot_of ev = Open_pdf then open_dialogs lib path else []) @ dialogs_of lib evs"

section \<open>One call\<close>

lemma exception_message_eq [simp]:
  "exception_message e = Some msg \<longleftrightarrow> e = Exception msg"
  "exception_message e = None \<longleftrightarrow> \<not> is_Exception e"
  by (cases e; simp)+

lemma messages_except_Exception:
  "messages (snd (except_Exception (r, s))) =
     messages s @ (case r of Raised (Exception msg) \<Rightarrow> [failed_to_open msg] | _ \<Rightarrow> [])"
  by (cases "(r, s)" rule: except_Exception.cases) simp_all

lemma messages_open_pdf:
  "messages (snd (open_pdf lib path s)) = messages s @ open_dialogs lib path"
proof (cases "path = []")
  case False
  show ?thesis
  proof (cases "lib path")
    case (Inl e)
    with False show ?thesis
      by (cases e) (simp_all add: open_pdf_def open_body_def open_dialogs_def open_error_def)
  next
    case (Inr d)
    show ?thesis
    proof (cases "opened d s" rule: show_page_cases)
      case (raised d' e)
      with False Inr show ?thesis
        by (cases e) (simp_all add: open_pdf_def open_body_def open_dialogs_def open_error_def)
    qed (use False Inr in \<open>simp_all add: open_pdf_def open_body_def open_dialogs_def open_error_def\<close>)
  qed
qed (simp add: open_dialogs_def)

lemma messages_call_slot:
  "messages (snd (call_slot lib path sl s)) =
     messages s @ (if sl = Open_pdf then open_dialogs lib path else [])"
  by (cases sl) (simp_all add: messages_open_pdf)

section \<open>A session\<close>

text \<open>
  C26. The error dialogs of a session are exactly those of its failed opens.  For
  every library, after any events the dialogs shown are the ones that were there
  before followed by one dialog for each call of \<^verbatim>\<open>open_pdf\<close> whose dialog was not
  dismissed and whose \<^verbatim>\<open>try\<close> block ended in an \<^verbatim>\<open>Exception\<close>, in the order of the
  calls and with the message of that exception; no other handler and no other
  exception shows a dialog, and no dialog is ever taken back.
\<close>

theorem error_dialogs_exact:
  "messages (run lib s evs) = messages s @ dialogs_of lib evs"
  by (induction lib s evs rule: run.induct) (simp_all add: handle_def messages_call_slot)

text \<open>At most one dialog for every call of \<^verbatim>\<open>open_pdf\<close>.\<close>

lemma dialogs_of_bounded:
  "length (dialogs_of lib evs) \<le> length (filter (\<lambda>(ev, path). slot_of ev = Open_pdf) evs)"
  by (induction lib evs rule: dialogs_of.induct)
    (simp_all add: open_dialogs_def split: option.split)

text \<open>
  A session against the sample library: a file that does not exist, a document whose
  pages do not load, a document that opens, and a dismissed dialog.
\<close>

lemma dialogs_of_sample:
  "dialogs_of sample_lib
     [(Clicked open_btn, ''x.pdf''), (Clicked open_btn, ''locked.pdf''), (Clicked next_btn, []),
      (Clicked open_btn, ''a.pdf''), (Clicked open_btn, [])] =
   [failed_to_open ''no such file'', failed_to_open ''document closed or encrypted'']"
  by (simp add: open_dialogs_def open_error_def render_page_def sample_defs)

end
