(* ===== verification/Contract.thy ===== *)
theory Contract
  imports Display Dialogs
begin

text \<open>
  The viewer on top of a library that behaves.  The theorems of \<open>Viewer\<close>,
  \<open>Events\<close> and \<open>Display\<close> hold for every library, so they have to allow for a call
  that raises at any point.  Here the library is held to what PyMuPDF documents: a
  document is true exactly when it has pages, every index from \<open>0\<close> below the page
  count loads a page, a loaded page rasterises to RGB without alpha, and \<^verbatim>\<open>fitz.open\<close> fails with an
  \<^verbatim>\<open>Exception\<close> only.  Under this contract the guards of
  \<^verbatim>\<open>src/PDFViewer1/pdf_viewer.py\<close> are enough: no method of the window ever raises,
  the window always shows the current page, the only dialogs are those of failed opens,
  the page index is a valid page whenever a document is loaded, and the buffer handed
  to \<^verbatim>\<open>QImage\<close> in line 86 is as large as the width, height and stride passed with
  it say.  The proof is an invariant, \<open>sound\<close>, that every handler keeps; the
  dialogs are those that \<open>Dialogs\<close> computes for any library, which the contract
  narrows to failures of \<^verbatim>\<open>fitz.open\<close>.
\<close>

section \<open>A library that keeps its promises\<close>

text \<open>
  What the program relies on when it calls \<^verbatim>\<open>load_page\<close> (line 83) and \<^verbatim>\<open>get_pixmap\<close>
  (line 85) without a \<^verbatim>\<open>try\<close>, and when it tests \<^verbatim>\<open>self.doc\<close> (lines 81, 91, 96, 101
  and 106).
\<close>

text \<open>
  A pixmap in RGB without alpha, as \<^verbatim>\<open>get_pixmap\<close> returns it by default: three bytes
  for a pixel, rows without padding, and a buffer of exactly \<open>height * stride\<close> bytes.
\<close>

definition rgb_pixmap :: "pixmap \<Rightarrow> bool" where
  "rgb_pixmap pix \<longleftrightarrow>
     0 \<le> pix_width pix \<and> 0 \<le> pix_height pix \<and> pix_stride pix = 3 * pix_width pix \<and>
     int (length (pix_samples pix)) = pix_height pix * pix_stride pix"

definition reliable_doc :: "document \<Rightarrow> bool" where
  "reliable_doc d \<longleftrightarrow>
     0 \<le> doc_page_count d \<and> (doc_truth d \<longleftrightarrow> doc_page_count d \<noteq> 0) \<and>
     (\<forall>i. 0 \<le> i \<and> i < doc_page_count d \<longrightarrow>
        (\<exists>p. load_page d i = Inr p \<and>
           (\<forall>m. \<exists>pix. get_pixmap p m = Inr pix \<and> rgb_pixmap pix)))"

text \<open>
  What the constructor \<^verbatim>\<open>QImage(data, width, height, bytesPerLine, format)\<close> of line 86
  asks of its caller: Qt reads \<open>height\<close> rows of \<open>bytesPerLine\<close> bytes from the
  buffer, which it does not copy, and a row of \<^verbatim>\<open>Format_RGB888\<close> has three bytes for
  every pixel.
\<close>

fun qimage_in_bounds :: "qimage \<Rightarrow> bool" where
  "qimage_in_bounds (QImage buf w h bpl Format_RGB888) \<longleftrightarrow>
     0 \<le> w \<and> 0 \<le> h \<and> 3 * w \<le> bpl \<and> h * bpl \<le> int (length buf)"

text \<open>\<^verbatim>\<open>fitz.open\<close> (line 72) returns such a document or raises an \<^verbatim>\<open>Exception\<close>.\<close>

definition reliable_lib :: "fitz \<Rightarrow> bool" where
  "reliable_lib lib \<longleftrightarrow>
     (\<forall>path. case lib path of Inl e \<Rightarrow> is_Exception e | Inr d \<Rightarrow> reliable_doc d)"

text \<open>
  The invariant of the window over a reliable library: the state invariant, the
  window in sync, and the loaded document one that keeps the contract.
\<close>

definition sound :: "viewer \<Rightarrow> bool" where
  "sound s \<longleftrightarrow>
     viewer_inv s \<and> in_sync s \<and> (case doc s of None \<Rightarrow> True | Some d \<Rightarrow> reliable_doc d)"

text \<open>A sample library of two documents, with and without pages, for the closed instance.\<close>

definition plain_lib :: fitz where
  "plain_lib path =
     (if path = ''a.pdf'' then Inr (sample_doc 3)
      else if path = ''empty.pdf'' then Inr (sample_doc 0)
      else Inl (Exception ''no such file''))"

text \<open>The dialogs that report a failure of \<^verbatim>\<open>fitz.open\<close> with the library's own message.\<close>

definition open_failures :: "fitz \<Rightarrow> message_box set" where
  "open_failures lib = {failed_to_open msg |msg path. lib path = Inl (Exception msg)}"

section \<open>Rendering succeeds\<close>

lemma render_page_reliable:
  assumes "reliable_doc d" and "0 \<le> i" and "i < doc_page_count d"
  shows "\<exists>img. render_page d i z = Inr img \<and> qimage_in_bounds img"
proof -
  from assms obtain p where p: "load_page d i = Inr p"
    "\<forall>m. \<exists>pix. get_pixmap p m = Inr pix \<and> rgb_pixmap pix"
    unfolding reliable_doc_def by blast
  from p(2) obtain pix where "get_pixmap p (Matrix z z) = Inr pix" "rgb_pixmap pix" by blast
  with p(1) show ?thesis by (simp add: render_page_def rgb_pixmap_def)
qed

text \<open>A window in sync over a reliable document shows an image that Qt can read.\<close>

lemma displayed_in_bounds:
  assumes "viewer_inv s" and "doc s = Some d" and "reliable_doc d" and "doc_truth d"
    and "in_sync s"
  shows "\<exists>img. label s = Some (QPixmap_fromImage img) \<and> qimage_in_bounds img"
proof -
  from assms(3,4) have "0 < doc_page_count d" by (auto simp: reliable_doc_def)
  with viewer_invD(1,2,5) [OF assms(1)] assms(2)
  have "0 \<le> current_page s" "current_page s < doc_page_count d" by auto
  from render_page_reliable [OF assms(3) this, of "zoom s"] assms(2,4,5) show ?thesis
    by (auto simp: in_sync_def displayed_def)
qed

lemma show_page_reliable:
  assumes "viewer_inv s" and "case doc s of None \<Rightarrow> True | Some d \<Rightarrow> reliable_doc d"
  shows "fst (show_page s) = Returned"
proof (cases s rule: show_page_cases)
  case (raised d e)
  from raised(1) assms(2) have r: "reliable_doc d" by simp
  with raised(2) have "0 < doc_page_count d" by (auto simp: reliable_doc_def)
  with viewer_invD(1,2,5) [OF assms(1)] raised(1)
  have "0 \<le> current_page s" "current_page s < doc_page_count d" by auto
  from render_page_reliable [OF r this, of "zoom s"] raised(4) show ?thesis by auto
qed simp_all

lemma sound_show_page:
  assumes "viewer_inv s" and "case doc s of None \<Rightarrow> True | Some d \<Rightarrow> reliable_doc d"
  shows "fst (show_page s) = Returned \<and> sound (snd (show_page s))"
  using assms show_page_reliable [OF assms]
  by (simp add: sound_def viewer_inv_show_page in_sync_show_page)

lemma sound_guarded:
  assumes "sound s" and "b \<Longrightarrow> viewer_inv t \<and> doc t = doc s"
  shows "fst (if b then show_page t else (Returned, s)) = Returned \<and>
    sound (snd (if b then show_page t else (Returned, s)))"
proof (cases b)
  case True
  with assms have "viewer_inv t" "case doc t of None \<Rightarrow> True | Some d \<Rightarrow> reliable_doc d"
    by (simp_all add: sound_def)
  with True show ?thesis by (simp add: sound_show_page)
qed (use assms(1) in simp)

section \<open>Every handler returns and keeps the invariant\<close>

lemma five_quarters_nonzero: "Finite (5 / 4) \<noteq> Finite 0"
  by simp

lemma sound_next_page:
  "sound s \<Longrightarrow> fst (next_page s) = Returned \<and> sound (snd (next_page s))"
  unfolding next_page_def by (rule sound_guarded) (auto simp: sound_def viewer_inv_def)

lemma sound_prev_page:
  "sound s \<Longrightarrow> fst (prev_page s) = Returned \<and> sound (snd (prev_page s))"
  unfolding prev_page_def by (rule sound_guarded) (auto simp: sound_def viewer_inv_def)

lemma sound_zoom_in:
  "sound s \<Longrightarrow> fst (zoom_in s) = Returned \<and> sound (snd (zoom_in s))"
  unfolding zoom_in_def
  by (rule sound_guarded) (auto simp: sound_def viewer_inv_def zoom_ok_fmul truthy_iff)

lemma sound_zoom_out:
  "sound s \<Longrightarrow> fst (zoom_out s) = Returned \<and> sound (snd (zoom_out s))"
  unfolding zoom_out_def py_truediv_nonzero [OF five_quarters_nonzero] sum.case
  by (rule sound_guarded) (auto simp: sound_def viewer_inv_def zoom_ok_fdiv truthy_iff)

lemma sound_open_pdf:
  assumes "sound s" and "reliable_lib lib"
  shows "fst (open_pdf lib path s) = Returned \<and> sound (snd (open_pdf lib path s))"
proof (cases "lib path")
  case (Inl e)
  with assms(2) obtain msg where "e = Exception msg"
    by (auto simp: reliable_lib_def is_Exception_iff split: sum.splits dest: spec [of _ path])
  with Inl assms(1) show ?thesis by (auto simp: open_pdf_def open_body_def sound_def viewer_inv_def)
next
  case (Inr d)
  with assms(2) have "reliable_doc d"
    by (auto simp: reliable_lib_def split: sum.splits dest: spec [of _ path])
  then have "fst (show_page (opened d s)) = Returned \<and> sound (snd (show_page (opened d s)))"
    by (intro sound_show_page) (simp_all add: viewer_inv_opened)
  moreover then have "except_Exception (show_page (opened d s)) = show_page (opened d s)"
    by (cases "show_page (opened d s)") simp
  ultimately show ?thesis using Inr assms(1) by (simp add: open_pdf_def open_body_def)
qed

lemma sound_handle:
  assumes "sound s" and "reliable_lib lib"
  shows "fst (handle lib path ev s) = Returned \<and> sound (snd (handle lib path ev s))"
  using assms
  by (cases "slot_of ev")
    (simp_all add: handle_def sound_open_pdf sound_next_page sound_prev_page sound_zoom_in
      sound_zoom_out)

lemma sound_init: "sound init_viewer"
  by (simp add: sound_def viewer_inv_init in_sync_init) (simp add: init_viewer_def)

lemma sound_run: "sound s \<Longrightarrow> reliable_lib lib \<Longrightarrow> sound (run lib s evs)"
  by (induction lib s evs rule: run.induct) (simp_all add: sound_handle)

text \<open>No call raises, so the loop that ends at the first exception never ends early.\<close>

lemma run_strict_sound:
  "sound s \<Longrightarrow> reliable_lib lib \<Longrightarrow> run_strict lib s evs = (Returned, run lib s evs)"
proof (induction lib s evs rule: run_strict.induct)
  case (2 lib s ev path evs)
  from sound_handle [OF "2.prems", of path ev] obtain t
    where t: "handle lib path ev s = (Returned, t)" "sound t"
    by (cases "handle lib path ev s") auto
  with 2 show ?case by simp
qed simp

section \<open>The dialogs\<close>

text \<open>
  Every dialog comes from a failed \<^verbatim>\<open>fitz.open\<close> and carries the message of the library:
  over a reliable library the first page of a document that opened renders, so the
  \<^verbatim>\<open>try\<close> block fails in its first line or not at all.
\<close>

lemma open_dialogs_reliable:
  assumes "reliable_lib lib"
  shows "set (open_dialogs lib path) \<subseteq> open_failures lib"
proof (cases "lib path")
  case (Inl e)
  then show ?thesis
    by (cases e) (auto simp: open_dialogs_def open_error_def open_failures_def)
next
  case (Inr d)
  with assms have d: "reliable_doc d"
    by (auto simp: reliable_lib_def split: sum.splits dest: spec [of _ path])
  then have "doc_truth d \<Longrightarrow> \<exists>img. render_page d 0 (Finite 1) = Inr img"
    using render_page_reliable [OF d, of 0 "Finite 1"] by (auto simp: reliable_doc_def)
  with Inr show ?thesis by (auto simp: open_dialogs_def open_error_def)
qed

lemma messages_run_sound:
  assumes "reliable_lib lib"
  shows "set (messages (run lib s evs)) \<subseteq> set (messages s) \<union> open_failures lib"
  using open_dialogs_reliable [OF assms]
  by (induction lib s evs rule: run.induct) (auto simp: handle_def messages_call_slot)

section \<open>Sample libraries\<close>

text \<open>
  The contract can be met, and it is a restriction: the sample library of \<open>Fitz\<close>
  has a document whose pages do not load.
\<close>

lemma reliable_plain_lib: "reliable_lib plain_lib"
  by (auto simp: reliable_lib_def plain_lib_def reliable_doc_def rgb_pixmap_def sample_defs)

lemma not_reliable_sample_lib: "\<not> reliable_lib sample_lib"
proof
  assume "reliable_lib sample_lib"
  then have "reliable_doc locked_doc"
    by (auto simp: reliable_lib_def sample_lib_def split: sum.splits dest: spec [of _ "''locked.pdf''"])
  then show False by (auto simp: reliable_doc_def locked_doc_def dest: spec [of _ 0])
qed

lemma run_plain_lib_browse_trace:
  "run plain_lib init_viewer browse_trace = run sample_lib init_viewer browse_trace"
  by (simp add: browse_trace_def handle_def open_pdf_def open_body_def plain_lib_def sample_lib_def)

section \<open>With a reliable library\<close>

text \<open>
  C11. Over a library that keeps the contract of PyMuPDF, after any sequence of clicks
  and shortcuts with any answers of the file dialog, every method of the window
  returns (none raises), the window shows the current page of the loaded document, the
  only dialogs shown are those of failed opens with the message of the library, and,
  whenever a document is loaded, the page index is a valid page (the specification's
  invariant \<open>0 \<le> currentPageIndex < pageCount\<close>) and the image on display is one
  whose rows Qt reads inside the buffer it was given.
\<close>

theorem reliable_library_never_raises:
  assumes "reliable_lib lib"
  shows "fst (handle lib path ev (run lib init_viewer evs)) = Returned \<and>
    in_sync (run lib init_viewer evs) \<and>
    set (messages (run lib init_viewer evs)) \<subseteq> open_failures lib \<and>
    (truthy (doc (run lib init_viewer evs)) \<longrightarrow>
       0 \<le> current_page (run lib init_viewer evs) \<and>
       current_page (run lib init_viewer evs) < page_count (run lib init_viewer evs) \<and>
       (\<exists>img. label (run lib init_viewer evs) = Some (QPixmap_fromImage img) \<and>
          qimage_in_bounds img))"
proof -
  let ?t = "run lib init_viewer evs"
  have s: "sound ?t" using sound_init assms by (rule sound_run)
  then have "truthy (doc ?t) \<longrightarrow> 0 < page_count ?t"
    by (auto simp: sound_def viewer_inv_def truthy_iff reliable_doc_def)
  moreover have "set (messages ?t) \<subseteq> open_failures lib"
    using messages_run_sound [OF assms, of init_viewer evs] by (simp add: init_viewer_def)
  moreover have "truthy (doc ?t) \<longrightarrow>
      (\<exists>img. label ?t = Some (QPixmap_fromImage img) \<and> qimage_in_bounds img)"
    using s by (auto simp: sound_def truthy_iff intro: displayed_in_bounds)
  ultimately show ?thesis using s sound_handle [OF s assms] by (auto simp: sound_def viewer_inv_def)
qed

theorem reliable_library_never_raises_witness:
  "reliable_lib plain_lib \<and>
   fst (handle plain_lib ''b.pdf'' (Clicked open_btn) (run plain_lib init_viewer browse_trace)) =
     Returned \<and>
   in_sync (run plain_lib init_viewer browse_trace) \<and>
   truthy (doc (run plain_lib init_viewer browse_trace)) \<and>
   current_page (run plain_lib init_viewer browse_trace) < 3 \<and>
   qimage_in_bounds (QImage [0, 0, 0] 1 1 3 Format_RGB888)"
  using reliable_library_never_raises [OF reliable_plain_lib, of "''b.pdf''" "Clicked open_btn"
      browse_trace] reliable_plain_lib
  by (simp add: run_plain_lib_browse_trace run_browse_trace sample_doc_def)

end
