(* ===== verification/Ordering.thy ===== *)
theory Ordering
  imports Contract Zoom_Steps
begin

text \<open>
  The order of handler calls.  Paging (\<^verbatim>\<open>prev_page\<close>, \<^verbatim>\<open>next_page\<close>) writes the page
  index and zooming (\<^verbatim>\<open>zoom_in\<close>, \<^verbatim>\<open>zoom_out\<close>) writes the zoom, and the guard of
  each reads only what the method itself writes, so a paging call and a zoom call can
  be exchanged (lines 90 to 108 of \<^verbatim>\<open>src/PDFViewer1/pdf_viewer.py\<close>).  The attributes
  agree after either order for every library; the widgets agree when the last
  rendering succeeds, which a reliable library guarantees.  Two calls of the same
  kind cannot be exchanged in general, because of the guards at the ends.
\<close>

section \<open>Definitions\<close>

fun paging :: "slot \<Rightarrow> bool" where
  "paging Prev_page \<longleftrightarrow> True"
| "paging Next_page \<longleftrightarrow> True"
| "paging sl \<longleftrightarrow> False"

fun zooming :: "slot \<Rightarrow> bool" where
  "zooming Zoom_in \<longleftrightarrow> True"
| "zooming Zoom_out \<longleftrightarrow> True"
| "zooming sl \<longleftrightarrow> False"

text \<open>The paging events and the zoom events of a list, in their order.\<close>

definition paging_events :: "(event \<times> string) list \<Rightarrow> (event \<times> string) list" where
  "paging_events evs = filter (\<lambda>(ev, path). paging (slot_of ev)) evs"

definition zoom_events :: "(event \<times> string) list \<Rightarrow> (event \<times> string) list" where
  "zoom_events evs = filter (\<lambda>(ev, path). zooming (slot_of ev)) evs"

text \<open>The attributes of two states agree; the widgets may differ.\<close>

definition same_attributes :: "viewer \<Rightarrow> viewer \<Rightarrow> bool" where
  "same_attributes s t \<longleftrightarrow>
     doc s = doc t \<and> page_count s = page_count t \<and> current_page s = current_page t \<and>
     zoom s = zoom t \<and> messages s = messages t"

text \<open>
  A sample document of two pages whose second page cannot be rendered at a zoom of
  \<open>1.25\<close>, for the closed instance in which the widgets depend on the order.
\<close>

definition fussy_page :: page where
  "fussy_page =
     \<lparr>get_pixmap = (\<lambda>m. if m = Matrix (Finite (5 / 4)) (Finite (5 / 4))
        then Inl (Exception ''out of memory'') else Inr blank_pixmap)\<rparr>"

definition fussy_doc :: document where
  "fussy_doc =
     \<lparr>doc_page_count = 2, doc_truth = True,
      load_page = (\<lambda>i. if i = 1 then Inr fussy_page else Inr blank_page)\<rparr>"

section \<open>Exchanging a paging call and a zoom call\<close>

lemma slot_kinds: "sl = Open_pdf \<or> paging sl \<or> zooming sl"
  by (cases sl) simp_all

lemma same_attributes_refl [simp]: "same_attributes s s"
  by (simp add: same_attributes_def)

text \<open>The attributes after the two orders agree, whatever the library does.\<close>

lemma exchange_attributes:
  assumes "paging a" and "zooming b"
  shows "same_attributes (snd (call_slot lib p b (snd (call_slot lib q a s))))
    (snd (call_slot lib q a (snd (call_slot lib p b s))))"
  using assms
  by (cases a; cases b)
    (simp_all add: same_attributes_def current_page_next_page current_page_prev_page
      zoom_zoom_in zoom_zoom_out)

text \<open>A window that shows its current page is determined by its attributes.\<close>

lemma displayed_determined:
  assumes "displayed s" and "displayed t" and "same_attributes s t"
  shows "s = t"
  using assms
  by (cases s; cases t)
    (auto simp: displayed_def same_attributes_def split: option.splits sum.splits)

lemma sound_call_slot:
  "sound s \<Longrightarrow> sl \<noteq> Open_pdf \<Longrightarrow> sound (snd (call_slot lib path sl s))"
  by (cases sl) (simp_all add: sound_next_page sound_prev_page sound_zoom_in sound_zoom_out)

lemma call_slot_not_truthy:
  "\<not> truthy (doc s) \<Longrightarrow> sl \<noteq> Open_pdf \<Longrightarrow> call_slot lib path sl s = (Returned, s)"
  by (cases sl) (simp_all add: viewer_defs)

lemma doc_call_slot: "sl \<noteq> Open_pdf \<Longrightarrow> doc (snd (call_slot lib path sl s)) = doc s"
  by (cases sl) simp_all

lemma exchange_calls:
  assumes "sound s" and "paging a" and "zooming b"
  shows "snd (call_slot lib p b (snd (call_slot lib q a s))) =
    snd (call_slot lib q a (snd (call_slot lib p b s)))"
proof -
  let ?l = "snd (call_slot lib p b (snd (call_slot lib q a s)))"
    and ?r = "snd (call_slot lib q a (snd (call_slot lib p b s)))"
  from assms(2,3) have ab: "a \<noteq> Open_pdf" "b \<noteq> Open_pdf" by auto
  show ?thesis
  proof (cases "truthy (doc s)")
    case False
    with ab show ?thesis by (simp add: call_slot_not_truthy)
  next
    case True
    from ab assms(1) have "sound ?l" "sound ?r" by (simp_all add: sound_call_slot)
    moreover from True ab have "truthy (doc ?l)" "truthy (doc ?r)"
      by (simp_all add: doc_call_slot)
    ultimately have "displayed ?l" "displayed ?r" by (simp_all add: sound_def in_sync_def)
    then show ?thesis using exchange_attributes [OF assms(2,3)] by (rule displayed_determined)
  qed
qed

section \<open>The attributes alone\<close>

lemma same_attributes_sym: "same_attributes s t \<Longrightarrow> same_attributes t s"
  by (simp add: same_attributes_def)

lemma same_attributes_trans:
  "same_attributes s t \<Longrightarrow> same_attributes t u \<Longrightarrow> same_attributes s u"
  by (simp add: same_attributes_def)

text \<open>What a paging or zoom call writes to the attributes depends on the attributes only.\<close>

lemma call_slot_attributes:
  assumes "same_attributes s t" and "sl \<noteq> Open_pdf"
  shows "same_attributes (snd (call_slot lib p sl s)) (snd (call_slot lib q sl t))"
  using assms
  by (cases sl)
    (simp_all add: same_attributes_def current_page_next_page current_page_prev_page
      zoom_zoom_in zoom_zoom_out)

lemma run_attributes:
  assumes "same_attributes s t" and "\<forall>(ev, path) \<in> set evs. slot_of ev \<noteq> Open_pdf"
  shows "same_attributes (run lib s evs) (run lib t evs)"
  using assms
  by (induction evs arbitrary: s t) (auto simp: handle_def call_slot_attributes)

section \<open>Moving a zoom event past paging events\<close>

lemma paging_not_open: "paging sl \<Longrightarrow> sl \<noteq> Open_pdf"
  by auto

lemma zooming_not_paging: "zooming sl \<Longrightarrow> \<not> paging sl"
  by (cases sl) simp_all

lemma run_zoom_past_paging:
  assumes "sound s" and "zooming (slot_of e)" and "\<forall>(ev, path) \<in> set ps. paging (slot_of ev)"
  shows "run lib s ((e, p) # ps) = run lib s (ps @ [(e, p)])"
  using assms(1,3)
proof (induction ps arbitrary: s)
  case (Cons x ps)
  obtain e' p' where x: "x = (e', p')" by (cases x)
  with Cons.prems have a: "paging (slot_of e')" by simp
  from Cons.prems(1) a have "sound (snd (handle lib p' e' s))"
    by (simp add: handle_def sound_call_slot paging_not_open)
  moreover from Cons.prems(2) have "\<forall>(ev, path) \<in> set ps. paging (slot_of ev)" by simp
  ultimately have "run lib (snd (handle lib p' e' s)) ((e, p) # ps) =
      run lib (snd (handle lib p' e' s)) (ps @ [(e, p)])" by (rule Cons.IH)
  with exchange_calls [OF Cons.prems(1) a assms(2), of lib p p'] x show ?case
    by (simp add: handle_def)
qed simp

lemma run_zoom_past_paging_attributes:
  assumes "zooming (slot_of e)" and "\<forall>(ev, path) \<in> set ps. paging (slot_of ev)"
  shows "same_attributes (run lib s ((e, p) # ps)) (run lib s (ps @ [(e, p)]))"
  using assms(2)
proof (induction ps arbitrary: s)
  case (Cons x ps)
  obtain e' p' where x: "x = (e', p')" by (cases x)
  with Cons.prems have a: "paging (slot_of e')" by simp
  from Cons.prems have ps: "\<forall>(ev, path) \<in> set ps. paging (slot_of ev)" by simp
  then have no: "\<forall>(ev, path) \<in> set ps. slot_of ev \<noteq> Open_pdf" by (auto dest: paging_not_open)
  let ?l = "snd (handle lib p' e' (snd (handle lib p e s)))"
    and ?r = "snd (handle lib p e (snd (handle lib p' e' s)))"
  have "same_attributes ?l ?r"
    using exchange_attributes [OF a assms(1), of lib p p' s]
    by (simp add: handle_def same_attributes_sym)
  then have "same_attributes (run lib ?l ps) (run lib ?r ps)" using no by (rule run_attributes)
  moreover have "same_attributes (run lib ?r ps)
      (run lib (snd (handle lib p' e' s)) (ps @ [(e, p)]))"
    using Cons.IH [OF ps, of "snd (handle lib p' e' s)"] by simp
  ultimately show ?case using x by (auto intro: same_attributes_trans)
qed simp

section \<open>Any order of paging and zooming\<close>

lemma events_split:
  assumes "slot_of ev \<noteq> Open_pdf"
  shows "paging (slot_of ev) \<and> paging_events ((ev, path) # evs) = (ev, path) # paging_events evs \<and>
      zoom_events ((ev, path) # evs) = zoom_events evs \<or>
    zooming (slot_of ev) \<and> paging_events ((ev, path) # evs) = paging_events evs \<and>
      zoom_events ((ev, path) # evs) = (ev, path) # zoom_events evs"
  using assms by (cases "slot_of ev") (simp_all add: paging_events_def zoom_events_def)

lemma paging_events_paging: "\<forall>(ev, path) \<in> set (paging_events evs). paging (slot_of ev)"
  by (auto simp: paging_events_def)

lemma zoom_events_not_open: "\<forall>(ev, path) \<in> set (zoom_events evs). slot_of ev \<noteq> Open_pdf"
  by (auto simp: zoom_events_def)

lemma events_Nil [simp]: "paging_events [] = []" "zoom_events [] = []"
  by (simp_all add: paging_events_def zoom_events_def)

lemma events_not_open:
  "\<forall>(ev, path) \<in> set (paging_events evs @ zoom_events evs). slot_of ev \<noteq> Open_pdf"
  by (auto simp: paging_events_def zoom_events_def)

lemma run_sorted_attributes:
  assumes "\<forall>(ev, path) \<in> set evs. slot_of ev \<noteq> Open_pdf"
  shows "same_attributes (run lib s evs) (run lib s (paging_events evs @ zoom_events evs))"
  using assms
proof (induction evs arbitrary: s)
  case (Cons x evs)
  obtain ev path where x: "x = (ev, path)" by (cases x)
  let ?t = "snd (handle lib path ev s)"
  from Cons.prems have IH: "same_attributes (run lib ?t evs)
      (run lib ?t (paging_events evs @ zoom_events evs))" by (intro Cons.IH) simp
  from Cons.prems x have "slot_of ev \<noteq> Open_pdf" by simp
  from events_split [OF this, of path evs] show ?case
  proof (elim disjE conjE)
    assume "zooming (slot_of ev)" and p: "paging_events ((ev, path) # evs) = paging_events evs"
      and z: "zoom_events ((ev, path) # evs) = (ev, path) # zoom_events evs"
    then have "same_attributes (run lib s ((ev, path) # paging_events evs))
        (run lib s (paging_events evs @ [(ev, path)]))"
      by (intro run_zoom_past_paging_attributes paging_events_paging)
    then have "same_attributes (run lib (run lib s ((ev, path) # paging_events evs)) (zoom_events evs))
        (run lib (run lib s (paging_events evs @ [(ev, path)])) (zoom_events evs))"
      using zoom_events_not_open by (rule run_attributes)
    then have "same_attributes (run lib ?t (paging_events evs @ zoom_events evs))
        (run lib s (paging_events evs @ (ev, path) # zoom_events evs))"
      by (simp add: run_append)
    with IH show ?thesis unfolding x p z by (auto intro: same_attributes_trans)
  qed (use IH x in simp)
qed simp

lemma run_sorted:
  assumes "sound s" and "\<forall>(ev, path) \<in> set evs. slot_of ev \<noteq> Open_pdf"
  shows "run lib s evs = run lib s (paging_events evs @ zoom_events evs)"
  using assms
proof (induction evs arbitrary: s)
  case (Cons x evs)
  obtain ev path where x: "x = (ev, path)" by (cases x)
  let ?t = "snd (handle lib path ev s)"
  from Cons.prems x have no: "slot_of ev \<noteq> Open_pdf" by simp
  with Cons.prems(1) have "sound ?t" by (simp add: handle_def sound_call_slot)
  with Cons.prems(2) have IH: "run lib ?t evs = run lib ?t (paging_events evs @ zoom_events evs)"
    by (intro Cons.IH) simp_all
  from events_split [OF no, of path evs] show ?case
  proof (elim disjE conjE)
    assume "zooming (slot_of ev)" and p: "paging_events ((ev, path) # evs) = paging_events evs"
      and z: "zoom_events ((ev, path) # evs) = (ev, path) # zoom_events evs"
    with Cons.prems(1) have "run lib s ((ev, path) # paging_events evs) =
        run lib s (paging_events evs @ [(ev, path)])"
      by (intro run_zoom_past_paging paging_events_paging)
    then have "run lib ?t (paging_events evs @ zoom_events evs) =
        run lib s (paging_events evs @ (ev, path) # zoom_events evs)"
      by (simp add: run_append)
    with IH show ?thesis unfolding x p z by simp
  qed (use IH x in simp)
qed simp

text \<open>
  C27. Paging and zooming are independent.  For every library, the attributes after a
  sequence of paging and zoom events are those after its paging events followed by
  its zoom events.  From a state in which the window shows its page and the document
  keeps the contract of the library, the whole window is the same, image and
  indicator included: the order in which a user pages and zooms does not matter.
\<close>

theorem paging_and_zoom_independent:
  assumes "\<forall>(ev, path) \<in> set evs. slot_of ev \<noteq> Open_pdf"
  shows "same_attributes (run lib s evs) (run lib s (paging_events evs @ zoom_events evs)) \<and>
    (sound s \<longrightarrow> run lib s evs = run lib s (paging_events evs @ zoom_events evs))"
  using assms by (simp add: run_sorted_attributes run_sorted)

theorem paging_and_zoom_independent_witness:
  "sound (run plain_lib init_viewer [(Clicked open_btn, ''a.pdf'')]) \<and>
   run plain_lib (run plain_lib init_viewer [(Clicked open_btn, ''a.pdf'')])
     [(Clicked zoom_in_btn, []), (Activated Key_Right, [])] =
   run plain_lib (run plain_lib init_viewer [(Clicked open_btn, ''a.pdf'')])
     [(Activated Key_Right, []), (Clicked zoom_in_btn, [])]"
  using paging_and_zoom_independent [of "[(Clicked zoom_in_btn, []), (Activated Key_Right, [])]"
      plain_lib "run plain_lib init_viewer [(Clicked open_btn, ''a.pdf'')]"]
    sound_run [OF sound_init reliable_plain_lib, of "[(Clicked open_btn, ''a.pdf'')]"]
  by (simp add: paging_events_def zoom_events_def)

section \<open>Where the order matters\<close>

text \<open>
  On the first page of a document of more than one page, previous and next cannot be
  exchanged: the guard of \<^verbatim>\<open>prev_page\<close> rejects the call that comes first.
\<close>

lemma paging_order_matters:
  assumes "truthy (doc s)" and "current_page s = 0" and "1 < page_count s"
  shows "current_page (run lib s [(Clicked prev_btn, []), (Clicked next_btn, [])]) = 1"
    and "current_page (run lib s [(Clicked next_btn, []), (Clicked prev_btn, [])]) = 0"
  using assms by (simp_all add: handle_def current_page_next_page current_page_prev_page)

text \<open>
  At the lowest zoom of the scenario of the specification, \<open>0.4096\<close>, zoom-in and
  zoom-out cannot be exchanged: the guard of \<^verbatim>\<open>zoom_out\<close> rejects the call that comes
  first.  That zoom is a zoom level, so the state is one the window can be in.
\<close>

lemma zoom_order_matters:
  assumes "truthy (doc s)" and "zoom s = Finite (7378697629483821 / 18014398509481984)"
  shows "zoom (run lib s [(Clicked zoom_in_btn, []), (Clicked zoom_out_btn, [])]) =
      Finite (7378697629483821 / 18014398509481984)"
    and "zoom (run lib s [(Clicked zoom_out_btn, []), (Clicked zoom_in_btn, [])]) =
      Finite (1152921504606847 / 2251799813685248)"
proof -
  have up: "fmul (Finite (7378697629483821 / 18014398509481984)) (Finite (5 / 4)) =
      Finite (1152921504606847 / 2251799813685248)"
    by (simp, subst round_double_normal [where e = "- 1"]) (simp_all add: float_eval)
  from assms up show
    "zoom (run lib s [(Clicked zoom_in_btn, []), (Clicked zoom_out_btn, [])]) =
      Finite (7378697629483821 / 18014398509481984)"
    "zoom (run lib s [(Clicked zoom_out_btn, []), (Clicked zoom_in_btn, [])]) =
      Finite (1152921504606847 / 2251799813685248)"
    by (simp_all add: handle_def zoom_zoom_in zoom_zoom_out fdiv_trace
        del: fmul.simps fdiv.simps)
qed

lemma zoom_level_lowest: "zoom_level (Finite (7378697629483821 / 18014398509481984))"
proof -
  have "scale_down (scale_down (scale_down (scale_down (Finite 1)))) =
      Finite (7378697629483821 / 18014398509481984)"
    by (simp add: scale_down_def fdiv_trace del: fdiv.simps)
  then show ?thesis by (metis zoom_level.initial zoom_level.zoomed_out)
qed

text \<open>
  Without the contract the widgets depend on the order.  The second page of the
  sample document \<open>fussy_doc\<close> does not render at a zoom of \<open>1.25\<close>.  Next and then
  zoom-in leaves the indicator at page 2, zoom-in and then next leaves it at page 1,
  and the attributes are the same.
\<close>

lemma display_order_matters:
  "page_label (run (\<lambda>path. Inr fussy_doc) init_viewer
     [(Clicked open_btn, ''f.pdf''), (Clicked next_btn, []), (Clicked zoom_in_btn, [])]) =
     ''Page: 2 / 2'' \<and>
   page_label (run (\<lambda>path. Inr fussy_doc) init_viewer
     [(Clicked open_btn, ''f.pdf''), (Clicked zoom_in_btn, []), (Clicked next_btn, [])]) =
     ''Page: 1 / 2'' \<and>
   same_attributes
     (run (\<lambda>path. Inr fussy_doc) init_viewer
        [(Clicked open_btn, ''f.pdf''), (Clicked next_btn, []), (Clicked zoom_in_btn, [])])
     (run (\<lambda>path. Inr fussy_doc) init_viewer
        [(Clicked open_btn, ''f.pdf''), (Clicked zoom_in_btn, []), (Clicked next_btn, [])])"
  by (simp add: run_eval fussy_doc_def fussy_page_def same_attributes_def fmul_five_quarters
      del: fmul.simps(1))

end
