(* ===== verification/Spec2Isabelle.thy ===== *)
theory Spec2Isabelle
  imports Session Display Launcher Overflow Zoom_Steps Progress Contract Ordering
begin

text \<open>
  \<^bold>\<open>A verified model of the PDF viewer of \<^verbatim>\<open>src/PDFViewer1/pdf_viewer.py\<close>.\<close>

  The program is one Python class, \<^verbatim>\<open>PDFViewer\<close>, a Qt window that shows one page of
  a PDF document at a time, and a function \<^verbatim>\<open>launch_viewer\<close> that starts it.  The
  window has five buttons and four keyboard shortcuts; each is bound to a method.
  The methods keep four attributes, \<^verbatim>\<open>doc\<close>, \<^verbatim>\<open>page_count\<close>, \<^verbatim>\<open>current_page\<close>
  and \<^verbatim>\<open>zoom\<close>, and draw through \<^verbatim>\<open>show_page\<close>, which asks PyMuPDF for the pixels of
  the current page at the current zoom and hands them to two widgets.  The
  specification \<^verbatim>\<open>spec.md\<close> describes the same program as a Document Session (the
  four attributes and the operations on them) under a View Controller (the bindings
  and the display step).

  \<^medskip> \<^bold>\<open>The theories, in the order of their dependencies.\<close>

  \<^item> \<open>Prelude\<close>: how a Python call ends (\<open>outcome\<close>: returned or raised), the
    exceptions the program tells apart (\<open>pyexc\<close>), the fact collections of the
    development, and shared facts on powers of two and on lists.

  \<^item> \<open>PyFloat\<close>: the Python \<^verbatim>\<open>float\<close> behind \<^verbatim>\<open>self.zoom\<close>.  A float is its exact
    rational value, an infinity or NaN; \<open>fmul\<close>, \<open>py_truediv\<close> and \<open>fgt\<close> are
    \<^verbatim>\<open>*=\<close> (line 102), \<^verbatim>\<open>/=\<close> (line 107) and \<^verbatim>\<open>>\<close> (line 106), with round-to-nearest,
    ties to even, 53 bits of precision, exponents from \<open>-1022\<close> to \<open>1023\<close>,
    subnormals and overflow (\<open>round_double\<close>).  Its lemmas: the result of a rounding
    is a binary64 number, a binary64 number rounds to itself, rounding is monotone,
    and a rule that evaluates a rounding in a known binade.

  \<^item> \<open>Rounding\<close>: the quality of that model: \<open>round_double\<close> returns a nearest
    binary64 number, with relative error at most \<open>2 powi (- 53)\<close> in the normal
    range, and overflows exactly from \<open>overflow_threshold\<close> on.

  \<^item> \<open>PyStr\<close>: \<^verbatim>\<open>str\<close> of an integer as the f-string of line 88 uses it (\<open>str_int\<close>),
    with a reading function and the round trip.

  \<^item> \<open>Fitz\<close>: the interface to PyMuPDF and to Qt's image classes, one record field
    for each attribute or method the program uses (\<open>document\<close>, \<open>page\<close>,
    \<open>pixmap\<close>), a library call being a function that returns a value or an
    exception.  The truth value of a document object, which \<^verbatim>\<open>if not self.doc\<close>
    tests, is a field too (\<open>doc_truth\<close>).  The theory ends with sample inhabitants
    (\<open>sample_lib\<close>, \<open>sample_doc\<close>, \<open>locked_doc\<close>) that only the closed instances
    use.

  \<^item> \<open>Viewer\<close>: the class.  The record \<open>viewer\<close> holds the four attributes (lines
    49 to 52), what the two widgets show (\<open>label\<close>, \<open>page_label\<close>, lines 36 to 46)
    and the dialogs shown so far (\<open>messages\<close>).  \<open>show_page\<close>, \<open>next_page\<close>,
    \<open>prev_page\<close>, \<open>zoom_in\<close>, \<open>zoom_out\<close> and \<open>open_pdf\<close> are the methods of
    lines 67 to 108, each a function from the state to an outcome and a state;
    \<open>open_pdf\<close> takes the library and the path that the file dialog returned
    (empty when cancelled; \<open>chosen_path\<close> gives it from the user's answer to the
    dialog of line 68) as arguments, and is \<open>except_Exception\<close>, the
    \<^verbatim>\<open>except\<close> clause of lines 77 and 78, around \<open>open_body\<close>, the \<^verbatim>\<open>try\<close> block.
    \<open>viewer_inv\<close> is the state invariant.  The lemmas are the frame of every
    method, the value of the field it changes, preservation of the invariant
    (collected in \<open>inv_intros\<close>), and one theorem for each path through each
    method, the paths that raise included.

  \<^item> \<open>Events\<close>: \<^verbatim>\<open>__init__\<close> (lines 14 to 65) as data: title, size, the toolbar in
    order (\<open>toolbar_buttons\<close> is the list of the loop of lines 31 and 32), and the
    bindings \<open>clicked\<close> (lines 55 to 59) and \<open>activated\<close> (lines 62 to 65);
    \<open>new_window\<close> puts them together into the window that the constructor
    leaves.  \<open>handle\<close> runs the method bound to an event; \<open>step\<close> and
    \<open>reachable\<close> make the viewer a state machine whose steps range over all
    events, all dialog answers and all libraries; \<open>run\<close> executes a list of events
    and goes on after a handler that raised, \<open>run_strict\<close> ends at the first handler
    that raises, as the event loop of PyQt does from version 5.5 on.
    The invariant is lifted to steps, reachable states and runs, and
    \<open>reachable_handlers_induct\<close> is induction over the reachable states with one case
    for each method.

  \<^item> \<open>Scenarios\<close>: two sessions against the sample library, evaluated; one is the
    scenario of section 8 of the specification.

  \<^item> \<open>Dialogs\<close>: the error dialogs of line 78.  \<open>open_error\<close> is the message of
    the \<^verbatim>\<open>Exception\<close> in which the \<^verbatim>\<open>try\<close> block of \<^verbatim>\<open>open_pdf\<close> ends for
    a path, which depends on the path and the library only; \<open>dialogs_of\<close> lists
    the dialogs of a session, and the dialogs that a run has shown are exactly these.

  \<^item> \<open>Session\<close>: the Document Session of the specification as an abstract state
    machine (\<open>session\<close>, \<open>advance\<close>, \<open>zoom_in_session\<close>, \<open>zoom_out_session\<close>,
    \<open>apply_action\<close>), the abstraction \<open>session_of\<close> from the window's state, and
    the refinement: a handler call changes the abstract state as the action it stands
    for does, for single calls and for runs, except in the two cases
    \<open>opens_falsy\<close> and \<open>zooms_below_half\<close>.

  \<^item> \<open>Display\<close>: the display step of the View Controller.  \<open>displayed\<close> says
    that the widgets show the current page at the current zoom; calls and runs
    without an error keep the window \<open>in_sync\<close>.  \<open>holds_page\<close> holds in every
    reachable state: the image and the indicator belong to one page that the library
    rendered, also after calls that raised.

  \<^item> \<open>Contract\<close>: the viewer over a library that keeps the promises of PyMuPDF
    (\<open>reliable_doc\<close>, \<open>reliable_lib\<close>: a document is true exactly when it has
    pages, pages in range load and rasterise to an RGB pixmap, \<^verbatim>\<open>fitz.open\<close> fails
    with an \<^verbatim>\<open>Exception\<close> only).  The invariant \<open>sound\<close> is kept by every
    handler, and with it no method raises, the window stays in sync, the page index
    is a valid page, and the image built in line 86 satisfies what \<^verbatim>\<open>QImage\<close> asks
    of its buffer (\<open>qimage_in_bounds\<close>).  Since no handler raises, the strict run
    of any events is the lenient one.

  \<^item> \<open>Launcher\<close>: \<^verbatim>\<open>launch_viewer\<close> and the \<^verbatim>\<open>__main__\<close> guard (lines 112 to 132).
    The host is the record \<open>qt\<close>: whether an application object exists, whether the
    binding has \<^verbatim>\<open>exec\<close>, and the calls made to Qt so far.  Every call of the launcher
    is a computation in the state monad of the library over the host
    (\<open>qapp_instance\<close>, \<open>qapp_new\<close>, \<open>new_viewer\<close>, \<open>show_window\<close>,
    \<open>enter_loop\<close>, lines 113 to 126), and \<open>launch_viewer\<close> is their sequence in the
    order of the source, with \<open>except_SystemExit\<close> for lines 127 and 128.  The event
    loop is a parameter; \<open>deliver\<close> and \<open>deliver_strict\<close> are the loops that hand a
    list of events to the handlers through \<open>run\<close> and \<open>run_strict\<close>.
    \<open>launch_all\<close> is the launcher called once for each loop of a list in the same
    interpreter, \<open>qt_protocol\<close> is what Qt asks of a sequence of calls, and
    \<open>protocol_safe\<close> says that a computation keeps to it from every host; it is
    shown compositionally, for \<open>bind\<close> and for the traversal of a list.

  \<^item> \<open>Overflow\<close>: the zoom under repeated zoom-in (\<open>scale_up\<close> is one step on
    the zoom factor).  Every step multiplies the zoom by at least \<open>9 / 8\<close> after
    rounding, so \<open>zoom_in_limit\<close> presses make it \<^verbatim>\<open>inf\<close> from every state, and an
    infinite zoom stays until a document is opened.  From the zoom \<open>1.0\<close> of a
    document that was just opened the count is exact: the zoom is finite after 3180
    presses and \<^verbatim>\<open>inf\<close> after \<open>zoom_in_count\<close>, 3181.

  \<^item> \<open>Zoom_Steps\<close>: zoom-in followed by zoom-out (\<open>scale_down\<close> is one zoom-out
    step on the zoom factor, guard included).  The first \<open>exact_zoom_levels\<close> zoom
    levels above \<open>1.0\<close> are exact powers of \<open>5 / 4\<close>; the pair gives back the zoom
    it started from on the first \<open>round_trip_limit\<close> levels and not on the next, and
    in general it changes the zoom by two rounding errors at most.  \<open>zoom_level\<close>
    is the inductive set that the two steps generate from \<open>1.0\<close>; the zooms of the
    reachable states are exactly its members.

  \<^item> \<open>Progress\<close>: what repeated key presses lead to.  \<open>press\<close> is one
    activation of a shortcut, handled by the method it is bound to, \<open>enabled\<close> the
    condition of that method (the \<^verbatim>\<open>if\<close> of lines 91, 96, 101 and 106) and \<open>hold\<close>
    the key held down: the loop \<open>while_option\<close> of the library over the state of the
    window, with the method's condition as the loop condition.  Its theorems are about
    termination (for which keys and states the loop stops, and where) and progress
    (every page can be reached and is then displayed; zoom-out is rejected after a
    number of presses that the zoom determines).

  \<^item> \<open>Ordering\<close>: which handler calls can be exchanged.  \<open>paging\<close> and
    \<open>zooming\<close> classify the methods, \<open>paging_events\<close> and \<open>zoom_events\<close>
    select the events of a list; a run of paging and zoom events leaves the attributes
    that its paging events followed by its zoom events leave, for every library, and
    the same window when the state is \<open>sound\<close>.  Closed instances show that two
    paging calls, two zoom calls, and the widgets without the contract depend on the
    order.

  \<^item> This theory: the properties of every reachable state, and the agreement of the
    two event loops under the launcher, which spans \<open>Events\<close>, \<open>Contract\<close> and
    \<open>Launcher\<close>.

  \<^medskip> \<^bold>\<open>What is shown.\<close>

  On every reachable state the page index is \<open>0\<close> or a valid index below the page
  count, the cached page count is the count the loaded document reported, and the
  zoom is a binary64 number no smaller than \<open>zoom_floor\<close>, the binary64 number nearest
  to \<open>0.4\<close>, or infinite; it is never NaN.  The bound \<open>0.5\<close> of the guard in
  \<^verbatim>\<open>zoom_out\<close> is not a bound on the zoom: the guard tests the value before the
  division, and the scenario of the specification, \<open>spec_scenario\<close>, ends at
  \<open>0.4096\<close>.  Opening is not atomic: when the document opens and its first page does
  not render, the dialog is shown and the new document stays installed, with the
  window out of sync.  A document without pages is installed and never drawn, so the
  index \<open>0\<close> is then no valid page.  Apart from these cases the handlers implement
  the Document Session of the specification and keep the window in sync with it.
  Held down, the Right and the Left key stop on the last and the first page from every
  state; Ctrl+- stops from every finite zoom, within four presses for every halving
  that separates the zoom from \<open>0.5\<close>, and never from an infinite one; Ctrl++ never
  stops while a document is loaded.  Every page of a document can be reached with the
  two paging keys and is on display when it renders.
  A zoom-out undoes a zoom-in only on the first 24 zoom levels above \<open>1.0\<close>; from
  there on the pair may end one unit in the last place away from where it started.
  The zooms of the window are exactly the levels that zoom-in and zoom-out generate
  from \<open>1.0\<close>.  Paging and zooming are independent of each other: the order in
  which a user pages and zooms changes neither the attributes nor, over a reliable
  library, the window.  The error dialogs of a session are exactly those of its opens
  that ended in an \<^verbatim>\<open>Exception\<close>, one for each and in their order.  The image
  and the indicator always belong to the same page.
  The launcher returns whenever the loop returns or raises \<^verbatim>\<open>SystemExit\<close>, and however
  often it is called in one interpreter, its calls keep to the rules of Qt: one
  application at most, no widget and no loop without one, and \<^verbatim>\<open>exec\<close> only where the
  binding has it.
  The theorems on the methods hold for every library; no assumption on PyMuPDF is
  made beyond the types of \<open>Fitz\<close>.  The one exception is theory \<open>Contract\<close>,
  which assumes the documented behaviour of the library and shows what the program
  then guarantees: no method raises, the window shows the current page, the
  invariant of the specification holds for every document that has pages, and it makes
  no difference whether the event loop survives an exception of a handler.

  \<^medskip> \<^bold>\<open>Bounds.\<close>  There is no fuel and no bound on the length of a run: every
  definition is a total function and every handler is one call deep.  The one loop
  that may not end, a key held down, has the type of the library's \<open>while_option\<close>:
  \<open>None\<close> is a loop that goes on for ever, and the theorems say when the result is
  \<open>Some\<close>.  \<open>zoom_out_limit\<close> is four times the number of binades between the
  zoom and one half, because \<open>(5 / 6) ^ 4\<close> is below one half and one division by
  1.25 leaves at most five sixths after rounding; it is an upper bound (8 for a zoom of
  one, where 4 presses are enough).  Integers
  are Python's unbounded integers (\<open>int\<close>).  The float model is exact for all
  rationals; a result whose rounded magnitude reaches \<open>overflow\<close>, which is two to the
  power 1024, is an infinity.  \<open>zoom_in_limit\<close> is \<open>6 * 1026\<close>: six steps at least
  double the zoom, the zoom starts at a quarter or more, and the count is an upper
  bound that holds from every state.  \<open>zoom_in_count\<close>, 3181, is the exact number of
  presses from a zoom of one: the zoom after \<open>n\<close> steps lies between the \<open>n\<close>-th
  powers of \<open>5 / 4\<close> times \<open>1 - 2 powi (- 53)\<close> and \<open>1 + 2 powi (- 53)\<close>, and the
  overflow threshold lies between the upper bound for 3180 and the lower bound for
  3181.  \<open>round_trip_limit\<close>, 24, and \<open>exact_zoom_levels\<close>, 22, are found by
  evaluating the roundings of the levels 23 to 25.  The list of loops of \<open>launch_all\<close>
  has any length.

  \<^medskip> \<^bold>\<open>Not modelled.\<close>  Every line of the source that executes is translated; what
  is left out belongs to the libraries or to the user.  What PyMuPDF decodes and paints, and what Qt lays out and
  draws: the model keeps the values handed to the widgets and not their pixels on
  the screen, and a library call is a function of its arguments.  The sign of a
  floating-point zero.  The inside of Qt's event loop: an exception that leaves a
  handler is recorded in the outcome of the call; \<open>run\<close> and the state machine go on
  from the state the handler left and \<open>run_strict\<close> stops there, and that the
  process is ended by Qt in the second case is not modelled beyond the outcome.  The
  modal dialogs block until dismissed; the model records their content and
  continues.  Constructors of Qt objects are taken not to raise.  \<^verbatim>\<open>QImage\<close> shares
  the buffer of the pixmap instead of copying it; the model has values and no
  addresses, so the lifetime of that buffer is not modelled, only its size.  Closing a replaced
  document: the source has no such call, the old object is left to Python's garbage
  collector, so there is no operation to model.  Of the key repeat of Qt only the
  sequence of activations is modelled, not its timing.  The lines of the source that
  no definition translates are the interpreter line, the notebook cell markers, the
  imports, the class header and the call of the base class constructor.  The file
  dialog is a function of the user's answer: what the user sees in it, and that the
  filter hides other files, is not modelled.  Conversions of Python integers to the
  C integers of Qt (the width, height and stride passed to \<^verbatim>\<open>QImage\<close>) are not
  modelled, since what the binding does with a value out of range depends on its
  version.

  \<^medskip> \<^bold>\<open>Open ends.\<close>  The encoding of a binary64 number in 64 bits is not modelled,
  since the program never looks at it.  The exact number of zoom-ins before the
  overflow is known from a zoom of one only.  The launcher's loop is a parameter; what
  Qt does with an exception that leaves a handler is not fixed by the program, and both
  behaviours are modelled.  The nested event loop of a host that already runs one
  (line 120) is not distinguished from a loop that the launcher starts.
\<close>

section \<open>Properties of every reachable state\<close>

text \<open>
  C1. In every state the viewer can reach, under any sequence of clicks and
  shortcuts, any answers of the file dialog and any behaviour of the PDF library,
  handlers that raise included, the page index is never negative, it is below the
  page count whenever the document has a page, and it is 0 when the page count is
  0 or less.
\<close>

theorem page_index_in_range:
  assumes "reachable s"
  shows "0 \<le> current_page s \<and> (0 < page_count s \<longrightarrow> current_page s < page_count s) \<and>
    (page_count s \<le> 0 \<longrightarrow> current_page s = 0)"
  using assms
proof (induction rule: reachable_handlers_induct)
  case (open_pdf s lib path)
  then show ?case by (cases "lib path") (auto simp: open_pdf_def open_body_def)
qed (auto simp: init_viewer_def next_page_def prev_page_def zoom_in_def zoom_out_def
  py_truediv_def)

theorem page_index_in_range_witness:
  "reachable (run sample_lib init_viewer browse_trace) \<and>
   current_page (run sample_lib init_viewer browse_trace) = 1 \<and>
   page_count (run sample_lib init_viewer browse_trace) = 3"
  using page_index_in_range [of "run sample_lib init_viewer browse_trace"]
    reachable_browse_trace
  by (simp add: browse_trace_def run_eval fmul_five_quarters del: fmul.simps(1))

text \<open>
  C8. In every reachable state the zoom is positive infinity or a binary64 number
  that is at least \<open>zoom_floor\<close>, the binary64 number nearest to 0.4; it is never
  NaN, zero or negative.
\<close>

theorem zoom_never_below_floor:
  assumes "reachable s"
  shows "zoom s = PInf \<or> (\<exists>z. zoom s = Finite z \<and> is_double z \<and> zoom_floor \<le> z)"
proof -
  from assms have "zoom_ok (zoom s)"
  proof (induction rule: reachable_handlers_induct)
    case (open_pdf s lib path)
    then show ?case by (cases "lib path") (auto simp: open_pdf_def open_body_def)
  qed (auto simp: init_viewer_def next_page_def prev_page_def zoom_in_def zoom_out_def
    py_truediv_def zoom_ok_fmul zoom_ok_fdiv)
  then show ?thesis by (cases "zoom s") (simp_all add: zoom_ok_def)
qed

theorem zoom_never_below_floor_witness:
  "zoom (run sample_lib init_viewer browse_trace) = Finite (5 / 4) \<and> is_double (5 / 4) \<and>
   zoom_floor \<le> 5 / 4"
proof -
  have "zoom (run sample_lib init_viewer browse_trace) = Finite (5 / 4)"
    by (simp add: run_browse_trace)
  with zoom_never_below_floor [OF reachable_browse_trace] show ?thesis
    by (metis pyfloat.inject pyfloat.distinct(1))
qed


text \<open>
  C30. In every reachable state the cached page count is the page count that the
  loaded document reported when it was opened, and 0 while no document is loaded.
\<close>

theorem page_count_matches_document:
  assumes "reachable s"
  shows "page_count s = doc_count (doc s)"
  using reachable_inv [OF assms] by (simp add: viewer_inv_def)

theorem page_count_matches_document_witness:
  "page_count (run sample_lib init_viewer browse_trace) = 3 \<and>
   doc_count (doc (run sample_lib init_viewer browse_trace)) = 3"
  using page_count_matches_document [of "run sample_lib init_viewer browse_trace"]
    reachable_browse_trace
  by (simp add: run_browse_trace)

section \<open>The two event loops\<close>

text \<open>
  C12. Against a reliable library the event loop that ends at the first handler that
  raises and the event loop that goes on after it are the same loop: from a new window
  no handler raises, so the strict run of any events returns and leaves the state of
  the lenient run, and the launcher gives the same outcome, the same window and the
  same calls to Qt with either loop.
\<close>

theorem event_loops_agree:
  assumes "reliable_lib lib"
  shows "run_strict lib init_viewer evs = (Returned, run lib init_viewer evs) \<and>
    run_state (launch_viewer (deliver_strict lib evs r)) q =
    run_state (launch_viewer (deliver lib evs r)) q"
proof -
  have "run_strict lib init_viewer evs = (Returned, run lib init_viewer evs)"
    using sound_init assms by (rule run_strict_sound)
  then show ?thesis
    by (simp add: run_state_launch_viewer deliver_strict_def deliver_def)
qed

theorem event_loops_agree_witness:
  "reliable_lib plain_lib \<and>
   run_strict plain_lib init_viewer browse_trace =
     (Returned, run plain_lib init_viewer browse_trace) \<and>
   run_state (launch_viewer (deliver_strict plain_lib browse_trace Returned))
     \<lparr>app_instance = False, app_has_exec = True, qt_calls = []\<rparr> =
   run_state (launch_viewer (deliver plain_lib browse_trace Returned))
     \<lparr>app_instance = False, app_has_exec = True, qt_calls = []\<rparr>"
  using event_loops_agree [OF reliable_plain_lib, of browse_trace Returned
      "\<lparr>app_instance = False, app_has_exec = True, qt_calls = []\<rparr>"] reliable_plain_lib
  by simp

text \<open>
  The contract is needed.  The sample library opens \<^verbatim>\<open>locked.pdf\<close> as a document
  whose pages cannot be loaded: going forward in it raises, the strict loop ends there
  with that document, and the lenient loop goes on and opens the next file.
\<close>

lemma event_loops_differ:
  "fst (run_strict sample_lib init_viewer
     [(Clicked open_btn, ''locked.pdf''), (Clicked next_btn, []), (Clicked open_btn, ''a.pdf'')]) =
     Raised (Exception ''document closed or encrypted'') \<and>
   page_count (snd (run_strict sample_lib init_viewer
     [(Clicked open_btn, ''locked.pdf''), (Clicked next_btn, []), (Clicked open_btn, ''a.pdf'')])) = 2 \<and>
   page_count (run sample_lib init_viewer
     [(Clicked open_btn, ''locked.pdf''), (Clicked next_btn, []), (Clicked open_btn, ''a.pdf'')]) = 3"
  by (simp add: run_eval)

section \<open>A whole session\<close>

text \<open>
  The parts together.  Run as a script over a reliable library, with any host, any
  events and any answers to the file dialog, the module builds the window, hands the
  events to the handlers and returns when the loop returns or raises \<^verbatim>\<open>SystemExit\<close>;
  the window it leaves shows the current page of a document that keeps the contract,
  or no document.
\<close>

lemma launched_session_sound:
  assumes "reliable_lib lib"
  shows "fst (run_state (main_guard ''__main__'' (deliver lib (answered evs) r)) q) =
      Some (except_SystemExit r, run lib init_viewer (answered evs)) \<and>
    sound (run lib init_viewer (answered evs))"
  using sound_run [OF sound_init assms, of "answered evs"]
  by (simp add: run_state_main_guard run_state_launch_viewer)

end
